(* ===== verification/Prelude.thy ===== *)
theory Prelude
  imports Main "HOL-Library.Char_ord" "HOL-Library.List_Lexorder" "HOL-Library.Product_Lexorder"
    "HOL-Library.Code_Target_Numeral"
begin

text \<open>
  Shared vocabulary of the development.

  Byte strings and Rust strings are both \<open>string\<close> (lists of 8-bit characters): a Rust
  \<open>String\<close> is the list of its UTF-8 bytes, and \<open>String\<close>'s own order, as well as SQLite's
  BINARY collation of TEXT, is the lexicographic order of those bytes, which is the linear order
  that \<open>List_Lexorder\<close> and \<open>Char_ord\<close> put on \<open>string\<close>.

  A \<open>Result<T>\<close> is \<open>string + 'a\<close>: \<open>Inl\<close> carries the message of the error, \<open>Inr\<close> the value.
  An \<open>i64\<close> is an \<open>int\<close> with the saturating and truncating operations written out below.
\<close>

type_synonym bytes = string
type_synonym 'a result = "string + 'a"

named_theorems act_simps "evaluation of the effect combinators"
named_theorems keeps_intros "preservation rules of the effect combinators and store operations"

subsection \<open>Results\<close>

definition result_bind :: "'a result \<Rightarrow> ('a \<Rightarrow> 'b result) \<Rightarrow> 'b result" where
  "result_bind r f = (case r of Inl e \<Rightarrow> Inl e | Inr x \<Rightarrow> f x)"

lemma result_bind_simps [simp]:
  "result_bind (Inl e) f = Inl e" "result_bind (Inr x) f = f x"
  by (simp_all add: result_bind_def)

lemma result_bind_Inr_iff:
  "result_bind r f = Inr y \<longleftrightarrow> (\<exists>x. r = Inr x \<and> f x = Inr y)"
  by (cases r) auto

subsection \<open>64-bit integers\<close>

definition i64_min :: int where "i64_min = -9223372036854775808"
definition i64_max :: int where "i64_max = 9223372036854775807"
definition u64_max :: nat where "u64_max = 18446744073709551615"

definition clamp_i64 :: "int \<Rightarrow> int" where
  "clamp_i64 x = max i64_min (min i64_max x)"

definition saturating_add_i64 :: "int \<Rightarrow> int \<Rightarrow> int" where
  "saturating_add_i64 a b = clamp_i64 (a + b)"

definition saturating_sub_i64 :: "int \<Rightarrow> int \<Rightarrow> int" where
  "saturating_sub_i64 a b = clamp_i64 (a - b)"

definition saturating_mul_i64 :: "int \<Rightarrow> int \<Rightarrow> int" where
  "saturating_mul_i64 a b = clamp_i64 (a * b)"

lemmas i64_defs = i64_min_def i64_max_def clamp_i64_def saturating_add_i64_def
  saturating_sub_i64_def saturating_mul_i64_def

lemma clamp_i64_id: "i64_min \<le> x \<Longrightarrow> x \<le> i64_max \<Longrightarrow> clamp_i64 x = x"
  by (simp add: i64_defs)

lemma clamp_i64_range: "i64_min \<le> clamp_i64 x \<and> clamp_i64 x \<le> i64_max"
  by (simp add: i64_defs)

lemma clamp_i64_mono: "x \<le> y \<Longrightarrow> clamp_i64 x \<le> clamp_i64 y"
  by (auto simp: i64_defs)

text \<open>Division of \<open>i64\<close> truncates towards zero.\<close>

definition rust_div :: "int \<Rightarrow> int \<Rightarrow> int" where
  "rust_div a b = sgn a * sgn b * (\<bar>a\<bar> div \<bar>b\<bar>)"

lemma rust_div_nonneg: "0 \<le> a \<Longrightarrow> 0 < b \<Longrightarrow> rust_div a b = a div b"
  by (cases "a = 0") (auto simp: rust_div_def)

subsection \<open>Lexicographic order\<close>

lemma lex_append_same [simp]: "p @ xs < p @ ys \<longleftrightarrow> xs < (ys :: 'a::linorder list)"
  by (induction p) auto

lemma lex_append_same_le [simp]: "p @ xs \<le> p @ ys \<longleftrightarrow> xs \<le> (ys :: 'a::linorder list)"
  by (induction p) auto

lemma lex_less_append: "ys \<noteq> [] \<Longrightarrow> xs < xs @ (ys :: 'a::linorder list)"
  by (induction xs) (auto simp: neq_Nil_conv)

lemma lex_equal_length_append:
  "length xs = length ys \<Longrightarrow> xs < ys \<Longrightarrow> xs @ us < ys @ (vs :: 'a::linorder list)"
  by (induction xs ys rule: list_induct2) auto

lemma lex_equal_length_appendD:
  "length xs = length ys \<Longrightarrow> xs @ us \<le> ys @ vs \<Longrightarrow> xs \<le> (ys :: 'a::linorder list)"
  by (induction xs ys rule: list_induct2) auto

subsection \<open>Sorted tables\<close>

text \<open>
  A table ordered by a key: rows in strictly increasing key order. \<open>ORDER BY\<close> leaves it alone,
  and a \<open>WHERE\<close> condition on the key cuts it into segments.
\<close>

definition strictly_sorted_by :: "('r \<Rightarrow> 'k::linorder) \<Rightarrow> 'r list \<Rightarrow> bool" where
  "strictly_sorted_by k rs \<longleftrightarrow> sorted_wrt (<) (map k rs)"

lemma strictly_sorted_by_simps [simp]:
  "strictly_sorted_by k []"
  "strictly_sorted_by k (r # rs) \<longleftrightarrow> (\<forall>x \<in> set rs. k r < k x) \<and> strictly_sorted_by k rs"
  by (auto simp: strictly_sorted_by_def)

lemma strictly_sorted_by_append:
  "strictly_sorted_by k (rs @ qs) \<longleftrightarrow>
     strictly_sorted_by k rs \<and> strictly_sorted_by k qs \<and> (\<forall>r \<in> set rs. \<forall>q \<in> set qs. k r < k q)"
  by (induction rs) auto

lemma strictly_sorted_by_filter:
  "strictly_sorted_by k rs \<Longrightarrow> strictly_sorted_by k (filter P rs)"
  by (induction rs) auto

lemma sort_key_strictly_sorted:
  assumes "strictly_sorted_by k rs"
  shows "sort_key k rs = rs"
  using assms
proof (induction rs)
  case (Cons r rs)
  then have "sort_key k rs = rs" and "\<forall>x \<in> set rs. k r \<le> k x"
    by (auto simp: less_imp_le)
  then show ?case
    by (cases rs) auto
qed simp

lemma strictly_sorted_by_distinct: "strictly_sorted_by k rs \<Longrightarrow> distinct (map k rs)"
  by (induction rs) auto

text \<open>Taking rows up to the key of the last one of a prefix gives back the prefix.\<close>

lemma filter_le_last_take:
  assumes "strictly_sorted_by k rs" and "0 < n" and "n \<le> length rs"
  shows "filter (\<lambda>r. k r \<le> k (rs ! (n - 1))) rs = take n rs"
  using assms
proof (induction rs arbitrary: n)
  case (Cons r rs)
  show ?case
  proof (cases "n = 1")
    case True
    with Cons.prems have "filter (\<lambda>x. k x \<le> k r) rs = []"
      by (auto simp: filter_empty_conv)
    with True show ?thesis by simp
  next
    case False
    with Cons.prems have n: "0 < n - 1" "n - 1 \<le> length rs" by simp_all
    then have at: "(r # rs) ! (n - 1) = rs ! (n - 1 - 1)"
      by (simp add: nth_Cons')
    have "rs ! (n - 1 - 1) \<in> set rs" using n by simp
    with Cons.prems have "k r \<le> k (rs ! (n - 1 - 1))" by (auto simp: less_imp_le)
    with Cons.IH [of "n - 1"] Cons.prems n at show ?thesis
      by (simp add: take_Cons')
  qed
qed simp

end
