(* ===== verification/Text.thy ===== *)
theory Text
  imports Prelude
begin

text \<open>
  The operations of Rust's standard library on strings and bytes that the program uses:
  \<open>is_ascii_digit\<close>, \<open>str::parse\<close> for \<open>u64\<close> and \<open>i64\<close>, \<open>Display\<close> of integers, the \<open>{:016}\<close> format,
  \<open>split_once\<close>, \<open>split\<close>, \<open>replace\<close>, \<open>trim\<close>, \<open>to_ascii_lowercase\<close> and the decoding of UTF-8.
  The lemmas show that decimal printing and parsing are inverse and that zero-padded decimals of
  equal width are ordered as texts the way their values are ordered as numbers.
\<close>

abbreviation byte :: "char \<Rightarrow> nat" where
  "byte c \<equiv> of_char c"

subsection \<open>Decimal digits\<close>

definition is_digit :: "char \<Rightarrow> bool" where
  "is_digit c \<longleftrightarrow> 48 \<le> byte c \<and> byte c \<le> 57"

definition digit_val :: "char \<Rightarrow> nat" where
  "digit_val c = byte c - 48"

definition digit_char :: "nat \<Rightarrow> char" where
  "digit_char d = char_of (48 + d)"

definition all_digits :: "string \<Rightarrow> bool" where
  "all_digits s \<longleftrightarrow> list_all is_digit s"

definition dec_val :: "string \<Rightarrow> nat" where
  "dec_val s = foldl (\<lambda>n c. n * 10 + digit_val c) 0 s"

fun show_nat :: "nat \<Rightarrow> string" where
  "show_nat n = (if n < 10 then [digit_char n] else show_nat (n div 10) @ [digit_char (n mod 10)])"

declare show_nat.simps [simp del]

lemma all_digits_simps [simp]:
  "all_digits []"
  "all_digits (c # s) \<longleftrightarrow> is_digit c \<and> all_digits s"
  "all_digits (s @ t) \<longleftrightarrow> all_digits s \<and> all_digits t"
  by (simp_all add: all_digits_def)

lemma byte_digit_char: "d < 10 \<Longrightarrow> byte (digit_char d) = 48 + d"
  by (simp add: digit_char_def)

lemma digit_char_simps [simp]:
  "d < 10 \<Longrightarrow> is_digit (digit_char d)"
  "d < 10 \<Longrightarrow> digit_val (digit_char d) = d"
  by (simp_all add: is_digit_def digit_val_def byte_digit_char)

lemma digit_char_zero: "digit_char 0 = CHR ''0''"
  by code_simp

lemma digit_val_lt: "is_digit c \<Longrightarrow> digit_val c < 10"
  unfolding is_digit_def digit_val_def by arith

lemma digit_char_val: "is_digit c \<Longrightarrow> digit_char (digit_val c) = c"
  by (simp add: is_digit_def digit_val_def digit_char_def)

lemma digit_less_iff: "is_digit c \<Longrightarrow> is_digit d \<Longrightarrow> c < d \<longleftrightarrow> digit_val c < digit_val d"
  by (auto simp: is_digit_def digit_val_def less_char_def)

lemma digit_val_inj: "is_digit c \<Longrightarrow> is_digit d \<Longrightarrow> digit_val c = digit_val d \<Longrightarrow> c = d"
  by (metis digit_char_val)

lemma dec_val_snoc [simp]: "dec_val (s @ [c]) = dec_val s * 10 + digit_val c"
  by (simp add: dec_val_def)

lemma dec_val_Nil [simp]: "dec_val [] = 0"
  by (simp add: dec_val_def)

lemma foldl_dec: "foldl (\<lambda>n c. n * 10 + digit_val c) a s = a * 10 ^ length s + dec_val s"
proof (induction s rule: rev_induct)
  case (snoc c s)
  then show ?case by (simp add: dec_val_def algebra_simps)
qed (simp add: dec_val_def)

lemma dec_val_append: "dec_val (s @ t) = dec_val s * 10 ^ length t + dec_val t"
  using foldl_dec [of "dec_val s" t] by (simp add: dec_val_def)

lemma dec_val_Cons: "dec_val (c # s) = digit_val c * 10 ^ length s + dec_val s"
  using dec_val_append [of "[c]" s] by (simp add: dec_val_def)

lemma dec_val_lt: "all_digits s \<Longrightarrow> dec_val s < 10 ^ length s"
proof (induction s)
  case (Cons c s)
  then have "dec_val s < 10 ^ length s" and "digit_val c \<le> 9"
    using digit_val_lt [of c] by auto
  then have "digit_val c * 10 ^ length s + dec_val s < 9 * 10 ^ length s + 10 ^ length s"
    by (intro add_le_less_mono mult_le_mono1)
  then show ?case by (simp add: dec_val_Cons)
qed simp

text \<open>Texts of the same length are ordered as their values.\<close>

lemma dec_val_less_iff:
  assumes "length s = length t" and "all_digits s" and "all_digits t"
  shows "s < t \<longleftrightarrow> dec_val s < dec_val t"
  using assms
proof (induction s t rule: list_induct2)
  case (Cons c s d t)
  have lt: "dec_val s < 10 ^ length s" "dec_val t < 10 ^ length s"
    using Cons dec_val_lt [of s] dec_val_lt [of t] by auto
  consider "digit_val c < digit_val d" | "digit_val d < digit_val c" | "c = d"
    using Cons.prems digit_val_inj [of c d] by fastforce
  then show ?case
  proof cases
    case 1
    then have "(digit_val c + 1) * 10 ^ length s \<le> digit_val d * 10 ^ length s"
      by (intro mult_le_mono1) simp
    with 1 Cons lt show ?thesis by (auto simp: dec_val_Cons digit_less_iff)
  next
    case 2
    then have "(digit_val d + 1) * 10 ^ length s \<le> digit_val c * 10 ^ length s"
      by (intro mult_le_mono1) simp
    with 2 Cons lt show ?thesis by (auto simp: dec_val_Cons digit_less_iff)
  next
    case 3
    with Cons show ?thesis by (auto simp: dec_val_Cons)
  qed
qed simp

lemma dec_val_inj:
  assumes "length s = length t" and "all_digits s" and "all_digits t" and "dec_val s = dec_val t"
  shows "s = t"
  using dec_val_less_iff [of s t] dec_val_less_iff [of t s] assms by (metis less_irrefl linorder_neqE)

subsection \<open>Printing integers\<close>

lemma show_nat_digits: "all_digits (show_nat n)"
proof (induction n rule: show_nat.induct)
  case (1 n)
  then show ?case by (subst show_nat.simps) simp
qed

lemma show_nat_nonempty: "show_nat n \<noteq> []"
  by (subst show_nat.simps) simp

lemma dec_val_show_nat [simp]: "dec_val (show_nat n) = n"
proof (induction n rule: show_nat.induct)
  case (1 n)
  show ?case
  proof (cases "n < 10")
    case True
    then show ?thesis by (subst show_nat.simps) (simp add: dec_val_Cons)
  next
    case False
    with 1 show ?thesis by (subst show_nat.simps) simp
  qed
qed

lemma show_nat_length: "0 < k \<Longrightarrow> n < 10 ^ k \<Longrightarrow> length (show_nat n) \<le> k"
proof (induction n arbitrary: k rule: show_nat.induct)
  case (1 n)
  show ?case
  proof (cases "n < 10")
    case True
    with 1 show ?thesis by (subst show_nat.simps) simp
  next
    case False
    with "1.prems" obtain j where k: "k = Suc j" "0 < j"
      by (cases k; cases "k - 1") auto
    with "1.prems" have "n div 10 < 10 ^ j" by (simp add: div_less_iff_less_mult mult.commute)
    with "1.IH" False k have "length (show_nat (n div 10)) \<le> j" by simp
    with False k show ?thesis by (subst show_nat.simps) simp
  qed
qed

definition pad_zeros :: "nat \<Rightarrow> string \<Rightarrow> string" where
  "pad_zeros w s = replicate (w - length s) (CHR ''0'') @ s"

text \<open>The format \<open>{:016}\<close>.\<close>

definition show16 :: "nat \<Rightarrow> string" where
  "show16 n = pad_zeros 16 (show_nat n)"

lemma is_digit_zero [simp]: "is_digit (CHR ''0'')"
  by (simp add: is_digit_def)

lemma all_digits_zeros [simp]: "all_digits (replicate n (CHR ''0''))"
  by (induction n) auto

lemma dec_val_zeros [simp]: "dec_val (replicate n (CHR ''0'') @ s) = dec_val s"
  by (induction n) (auto simp: dec_val_Cons digit_val_def)

lemma show16_digits: "all_digits (show16 n)"
  by (simp add: show16_def pad_zeros_def show_nat_digits)

lemma dec_val_show16 [simp]: "dec_val (show16 n) = n"
  by (simp add: show16_def pad_zeros_def)

lemma show16_length_ge: "16 \<le> length (show16 n)"
  by (simp add: show16_def pad_zeros_def)

lemma show16_length: "n < 10 ^ 16 \<Longrightarrow> length (show16 n) = 16"
  using show_nat_length [of 16 n] by (simp add: show16_def pad_zeros_def)

lemma show16_nonempty: "show16 n \<noteq> []"
  using show16_length_ge [of n] by auto

lemma show16_less_iff:
  "m < 10 ^ 16 \<Longrightarrow> n < 10 ^ 16 \<Longrightarrow> show16 m < show16 n \<longleftrightarrow> m < n"
  by (subst dec_val_less_iff) (simp_all only: show16_length show16_digits dec_val_show16)

lemma show16_inj: "show16 m = show16 n \<longleftrightarrow> m = n"
  by (metis dec_val_show16)

subsection \<open>Parsing integers\<close>

text \<open>
  \<open>str::parse\<close> takes an optional sign (for \<open>u64\<close> only \<open>+\<close>), then at least one digit and nothing
  else, and fails when the value does not fit.
\<close>

definition strip_plus :: "string \<Rightarrow> string" where
  "strip_plus s = (case s of c # r \<Rightarrow> if c = CHR ''+'' then r else s | [] \<Rightarrow> [])"

definition parse_u64 :: "string \<Rightarrow> nat option" where
  "parse_u64 s =
     (let t = strip_plus s
      in if t \<noteq> [] \<and> all_digits t \<and> dec_val t \<le> u64_max then Some (dec_val t) else None)"

definition parse_i64 :: "string \<Rightarrow> int option" where
  "parse_i64 s =
     (case s of
        c # r \<Rightarrow>
          (if c = CHR ''-'' then
             (if r \<noteq> [] \<and> all_digits r \<and> i64_min \<le> - int (dec_val r)
              then Some (- int (dec_val r)) else None)
           else let t = strip_plus s
             in if t \<noteq> [] \<and> all_digits t \<and> int (dec_val t) \<le> i64_max
                then Some (int (dec_val t)) else None)
      | [] \<Rightarrow> None)"

definition show_int :: "int \<Rightarrow> string" where
  "show_int i = (if i < 0 then CHR ''-'' # show_nat (nat (- i)) else show_nat (nat i))"

lemma not_digit_sign [simp]: "\<not> is_digit (CHR ''+'')" "\<not> is_digit (CHR ''-'')" "\<not> is_digit (CHR ''_'')"
  by (simp_all add: is_digit_def)

lemma strip_plus_digits [simp]: "all_digits s \<Longrightarrow> strip_plus s = s"
  by (cases s) (auto simp: strip_plus_def)

lemma parse_u64_digits:
  "s \<noteq> [] \<Longrightarrow> all_digits s \<Longrightarrow>
     parse_u64 s = (if dec_val s \<le> u64_max then Some (dec_val s) else None)"
  by (simp add: parse_u64_def)

lemma parse_u64_show_nat: "n \<le> u64_max \<Longrightarrow> parse_u64 (show_nat n) = Some n"
  by (simp add: parse_u64_digits show_nat_digits show_nat_nonempty)

lemma parse_u64_show16: "n \<le> u64_max \<Longrightarrow> parse_u64 (show16 n) = Some n"
  by (simp add: parse_u64_digits show16_digits show16_nonempty)

lemma parse_i64_digits:
  "s \<noteq> [] \<Longrightarrow> all_digits s \<Longrightarrow>
     parse_i64 s = (if int (dec_val s) \<le> i64_max then Some (int (dec_val s)) else None)"
  by (cases s) (auto simp: parse_i64_def strip_plus_def)

text \<open>Digits without a leading zero are what printing the value gives.\<close>

lemma show_nat_dec_val:
  assumes "all_digits s" and "s \<noteq> []" and "length s = 1 \<or> hd s \<noteq> CHR ''0''"
  shows "show_nat (dec_val s) = s"
  using assms
proof (induction s rule: rev_induct)
  case (snoc c s)
  show ?case
  proof (cases "s = []")
    case True
    with snoc show ?thesis
      by (subst show_nat.simps) (simp add: dec_val_Cons digit_val_lt digit_char_val)
  next
    case False
    with snoc.prems have s: "all_digits s" "is_digit c" "hd s \<noteq> CHR ''0''" by simp_all
    with False snoc.IH have eq: "show_nat (dec_val s) = s" by simp
    have "dec_val s \<noteq> 0"
    proof
      assume "dec_val s = 0"
      with eq have "s = show_nat 0" by simp
      then have "s = ''0''" by (simp add: show_nat.simps digit_char_zero)
      with s show False by simp
    qed
    then have big: "\<not> dec_val s * 10 + digit_val c < 10" by simp
    have "digit_val c < 10" using s by (simp add: digit_val_lt)
    then have "(dec_val s * 10 + digit_val c) div 10 = dec_val s"
      and "(dec_val s * 10 + digit_val c) mod 10 = digit_val c" by simp_all
    with big eq s show ?thesis
      by (subst show_nat.simps) (simp add: digit_char_val)
  qed
qed simp

lemma show_nat_no_leading_zero: "length (show_nat n) = 1 \<or> hd (show_nat n) \<noteq> CHR ''0''"
proof (induction n rule: show_nat.induct)
  case (1 n)
  show ?case
  proof (cases "n < 10")
    case True
    then show ?thesis by (subst (1) show_nat.simps) simp
  next
    case False
    then have "n div 10 \<noteq> 0" by simp
    have "hd (show_nat (n div 10)) \<noteq> CHR ''0''"
    proof
      assume zero: "hd (show_nat (n div 10)) = CHR ''0''"
      with 1 False have "length (show_nat (n div 10)) = 1" by simp
      with zero have "show_nat (n div 10) = ''0''"
        by (metis One_nat_def length_0_conv length_Suc_conv list.sel(1))
      then have "dec_val (show_nat (n div 10)) = 0" by (simp add: dec_val_Cons digit_val_def)
      with \<open>n div 10 \<noteq> 0\<close> show False by simp
    qed
    with False show ?thesis
      by (subst (2) show_nat.simps) (simp add: hd_append show_nat_nonempty)
  qed
qed

subsection \<open>A text and its parser\<close>

text \<open>
  The interface of every textual encoding the program relies on: what is rendered parses back to
  what it was, for the values the encoding covers.
\<close>

locale text_codec =
  fixes render :: "'a \<Rightarrow> string"
    and parse :: "string \<Rightarrow> 'a option"
    and valid :: "'a \<Rightarrow> bool"
  assumes parse_render: "valid x \<Longrightarrow> parse (render x) = Some x"
begin

lemma render_inj: "valid x \<Longrightarrow> valid y \<Longrightarrow> render x = render y \<longleftrightarrow> x = y"
  by (metis parse_render option.inject)

lemma render_inj_on: "(\<And>x. x \<in> A \<Longrightarrow> valid x) \<Longrightarrow> inj_on render A"
  by (auto simp: inj_on_def render_inj)

end

interpretation decimal: text_codec show_nat parse_u64 "\<lambda>n. n \<le> u64_max"
  by unfold_locales (rule parse_u64_show_nat)

interpretation decimal16: text_codec show16 parse_u64 "\<lambda>n. n \<le> u64_max"
  by unfold_locales (rule parse_u64_show16)

subsection \<open>Splitting and replacing\<close>

text \<open>\<open>split_once\<close> cuts at the first occurrence of the separator.\<close>

fun split_once :: "char \<Rightarrow> string \<Rightarrow> (string \<times> string) option" where
  "split_once d [] = None"
| "split_once d (c # s) =
     (if c = d then Some ([], s)
      else case split_once d s of None \<Rightarrow> None | Some (a, b) \<Rightarrow> Some (c # a, b))"

lemma split_once_append: "d \<notin> set a \<Longrightarrow> split_once d (a @ d # b) = Some (a, b)"
  by (induction a) auto

lemma split_once_SomeD: "split_once d s = Some (a, b) \<Longrightarrow> s = a @ d # b \<and> d \<notin> set a"
  by (induction s arbitrary: a) (auto split: if_splits option.splits)

lemma split_once_Some_iff:
  "split_once d s = Some (a, b) \<longleftrightarrow> s = a @ d # b \<and> d \<notin> set a"
  using split_once_append split_once_SomeD by metis

fun split_char :: "char \<Rightarrow> string \<Rightarrow> string list" where
  "split_char d [] = [[]]"
| "split_char d (c # s) =
     (if c = d then [] # split_char d s
      else case split_char d s of l # ls \<Rightarrow> (c # l) # ls | [] \<Rightarrow> [[c]])"

fun join_char :: "char \<Rightarrow> string list \<Rightarrow> string" where
  "join_char d [] = []"
| "join_char d [l] = l"
| "join_char d (l # ls) = l @ d # join_char d ls"

lemma split_char_nonempty [simp]: "split_char d s \<noteq> []"
  by (induction s) (auto split: list.splits)

lemma split_char_no_sep: "l \<in> set (split_char d s) \<Longrightarrow> d \<notin> set l"
  by (induction s arbitrary: l) (auto split: list.splits if_splits)

lemma split_char_subset: "l \<in> set (split_char d s) \<Longrightarrow> set l \<subseteq> set s"
  by (induction s arbitrary: l) (fastforce split: list.splits if_splits)+

lemma join_char_Cons: "ls \<noteq> [] \<Longrightarrow> join_char d (l # ls) = l @ d # join_char d ls"
  by (cases ls) auto

lemma join_char_Cons_Cons: "join_char d ((c # l) # ls) = c # join_char d (l # ls)"
  by (cases ls) auto

lemma join_split [simp]: "join_char d (split_char d s) = s"
proof (induction s)
  case (Cons c s)
  then show ?case
    by (auto simp: join_char_Cons join_char_Cons_Cons split: list.splits)
qed simp

abbreviation CR :: char where "CR \<equiv> CHR 0x0D"
abbreviation LF :: char where "LF \<equiv> CHR 0x0A"

text \<open>\<open>replace("\r\n", "\n")\<close> and \<open>replace('\r', "\n")\<close>.\<close>

fun replace_crlf :: "string \<Rightarrow> string" where
  "replace_crlf (c # d # s) =
     (if c = CR \<and> d = LF then LF # replace_crlf s else c # replace_crlf (d # s))"
| "replace_crlf s = s"

definition replace_char :: "char \<Rightarrow> char \<Rightarrow> string \<Rightarrow> string" where
  "replace_char a b s = map (\<lambda>c. if c = a then b else c) s"

lemma replace_char_notin: "a \<noteq> b \<Longrightarrow> a \<notin> set (replace_char a b s)"
  by (auto simp: replace_char_def)

lemma replace_crlf_no_cr: "CR \<notin> set s \<Longrightarrow> replace_crlf s = s"
  by (induction s rule: replace_crlf.induct) auto

lemma replace_char_id: "a \<notin> set s \<Longrightarrow> replace_char a b s = s"
  by (auto simp: replace_char_def intro: map_idI)

subsection \<open>ASCII case and white space\<close>

definition ascii_lower :: "char \<Rightarrow> char" where
  "ascii_lower c = (if 65 \<le> byte c \<and> byte c \<le> 90 then char_of (byte c + 32) else c)"

definition to_ascii_lowercase :: "string \<Rightarrow> string" where
  "to_ascii_lowercase s = map ascii_lower s"

definition eq_ignore_ascii_case :: "string \<Rightarrow> string \<Rightarrow> bool" where
  "eq_ignore_ascii_case s t \<longleftrightarrow> to_ascii_lowercase s = to_ascii_lowercase t"

text \<open>
  \<open>str::trim\<close> removes the characters with the Unicode property \<open>White_Space\<close>; these are their
  UTF-8 encodings.
\<close>

definition white_space :: "string list" where
  "white_space = map (map char_of)
     ([[9], [10], [11], [12], [13], [32], [0xC2, 0x85], [0xC2, 0xA0], [0xE1, 0x9A, 0x80],
       [0xE2, 0x80, 0x80], [0xE2, 0x80, 0x81], [0xE2, 0x80, 0x82], [0xE2, 0x80, 0x83],
       [0xE2, 0x80, 0x84], [0xE2, 0x80, 0x85], [0xE2, 0x80, 0x86], [0xE2, 0x80, 0x87],
       [0xE2, 0x80, 0x88], [0xE2, 0x80, 0x89], [0xE2, 0x80, 0x8A], [0xE2, 0x80, 0xA8],
       [0xE2, 0x80, 0xA9], [0xE2, 0x80, 0xAF], [0xE2, 0x81, 0x9F], [0xE3, 0x80, 0x80]]
      :: nat list list)"

text \<open>The number of bytes of the first pattern that \<open>s\<close> starts with, 0 if there is none.\<close>

fun pattern_len :: "string list \<Rightarrow> string \<Rightarrow> nat" where
  "pattern_len [] s = 0"
| "pattern_len (w # ws) s = (if take (length w) s = w \<and> w \<noteq> [] then length w else pattern_len ws s)"

function strip_patterns :: "string list \<Rightarrow> string \<Rightarrow> string" where
  "strip_patterns ws s =
     (if pattern_len ws s = 0 then s else strip_patterns ws (drop (pattern_len ws s) s))"
  by pat_completeness auto

lemma pattern_len_le: "pattern_len ws s \<le> length s"
  by (induction ws s rule: pattern_len.induct) (auto, metis length_take min.cobounded1)

termination strip_patterns
proof (relation "measure (\<lambda>(ws, s). length s)")
  fix ws s
  assume "pattern_len ws s \<noteq> 0"
  with pattern_len_le [of ws s] show "((ws, drop (pattern_len ws s) s), ws, s) \<in> measure (\<lambda>(ws, s). length s)"
    by auto
qed simp

declare strip_patterns.simps [simp del]

definition trim_start :: "string \<Rightarrow> string" where
  "trim_start s = strip_patterns white_space s"

definition trim_end :: "string \<Rightarrow> string" where
  "trim_end s = rev (strip_patterns (map rev white_space) (rev s))"

definition trim :: "string \<Rightarrow> string" where
  "trim s = trim_end (trim_start s)"

lemma strip_patterns_suffix: "\<exists>n. strip_patterns ws s = drop n s"
proof (induction ws s rule: strip_patterns.induct)
  case (1 ws s)
  show ?case
  proof (cases "pattern_len ws s = 0")
    case True
    then have "strip_patterns ws s = drop 0 s" by (simp add: strip_patterns.simps)
    then show ?thesis ..
  next
    case False
    with 1 obtain n where "strip_patterns ws (drop (pattern_len ws s) s) = drop n (drop (pattern_len ws s) s)"
      by blast
    with False have "strip_patterns ws s = drop (n + pattern_len ws s) s"
      by (simp add: strip_patterns.simps [of ws s])
    then show ?thesis ..
  qed
qed

lemma strip_patterns_done: "pattern_len ws (strip_patterns ws s) = 0"
proof (induction ws s rule: strip_patterns.induct)
  case (1 ws s)
  then show ?case by (cases "pattern_len ws s = 0") (simp_all add: strip_patterns.simps [of ws s])
qed

lemma strip_patterns_idem: "strip_patterns ws (strip_patterns ws s) = strip_patterns ws s"
  by (subst strip_patterns.simps) (simp add: strip_patterns_done)

lemma set_trim_subset: "set (trim s) \<subseteq> set s"
proof -
  obtain n where n: "trim_start s = drop n s"
    using strip_patterns_suffix [of white_space s] by (auto simp: trim_start_def)
  obtain m where "strip_patterns (map rev white_space) (rev (trim_start s)) = drop m (rev (trim_start s))"
    using strip_patterns_suffix by blast
  then have "trim s = rev (drop m (rev (drop n s)))" by (simp add: trim_def trim_end_def n)
  then have "set (trim s) \<subseteq> set (drop n s)" using set_drop_subset [of m "rev (drop n s)"] by simp
  then show ?thesis using set_drop_subset [of n s] by blast
qed

subsection \<open>UTF-8\<close>

text \<open>
  One step of the decoder of \<open>core::str\<close>: whether a character starts \<open>s\<close>, and how many bytes it
  takes; for an ill-formed sequence the bytes up to the one that breaks it, which
  \<open>String::from_utf8_lossy\<close> replaces by one U+FFFD.
\<close>

definition byte_at :: "string \<Rightarrow> nat \<Rightarrow> nat" where
  "byte_at s i = (if i < length s then byte (s ! i) else 0)"

definition is_cont :: "nat \<Rightarrow> bool" where
  "is_cont b \<longleftrightarrow> 128 \<le> b \<and> b \<le> 191"

definition second_of_3 :: "nat \<Rightarrow> nat \<Rightarrow> bool" where
  "second_of_3 a b \<longleftrightarrow>
     (if a = 0xE0 then 0xA0 \<le> b \<and> b \<le> 0xBF
      else if a = 0xED then 0x80 \<le> b \<and> b \<le> 0x9F
      else is_cont b)"

definition second_of_4 :: "nat \<Rightarrow> nat \<Rightarrow> bool" where
  "second_of_4 a b \<longleftrightarrow>
     (if a = 0xF0 then 0x90 \<le> b \<and> b \<le> 0xBF
      else if a = 0xF4 then 0x80 \<le> b \<and> b \<le> 0x8F
      else is_cont b)"

definition utf8_step :: "string \<Rightarrow> bool \<times> nat" where
  "utf8_step s =
     (let a = byte_at s 0; b = byte_at s 1; c = byte_at s 2; d = byte_at s 3
      in if a < 128 then (True, 1)
         else if 0xC2 \<le> a \<and> a \<le> 0xDF then (if is_cont b then (True, 2) else (False, 1))
         else if 0xE0 \<le> a \<and> a \<le> 0xEF then
           (if \<not> second_of_3 a b then (False, 1) else if \<not> is_cont c then (False, 2) else (True, 3))
         else if 0xF0 \<le> a \<and> a \<le> 0xF4 then
           (if \<not> second_of_4 a b then (False, 1) else if \<not> is_cont c then (False, 2)
            else if \<not> is_cont d then (False, 3) else (True, 4))
         else (False, 1))"

lemma utf8_step_pos [simp]: "0 < snd (utf8_step s)"
  by (simp add: utf8_step_def Let_def)

function utf8_valid :: "string \<Rightarrow> bool" where
  "utf8_valid s =
     (if s = [] then True
      else fst (utf8_step s) \<and> utf8_valid (drop (snd (utf8_step s)) s))"
  by pat_completeness auto
termination by (relation "measure length") auto

function from_utf8_lossy :: "string \<Rightarrow> string" where
  "from_utf8_lossy s =
     (if s = [] then []
      else (if fst (utf8_step s) then take (snd (utf8_step s)) s
            else [CHR 0xEF, CHR 0xBF, CHR 0xBD])
        @ from_utf8_lossy (drop (snd (utf8_step s)) s))"
  by pat_completeness auto
termination by (relation "measure length") auto

declare utf8_valid.simps [simp del] from_utf8_lossy.simps [simp del]

lemma from_utf8_lossy_valid: "utf8_valid s \<Longrightarrow> from_utf8_lossy s = s"
proof (induction s rule: utf8_valid.induct)
  case (1 s)
  then show ?case
    by (cases "s = []") (simp add: from_utf8_lossy.simps, simp add: utf8_valid.simps [of s] from_utf8_lossy.simps [of s])
qed

lemma utf8_valid_ascii: "\<forall>c \<in> set s. byte c < 128 \<Longrightarrow> utf8_valid s"
proof (induction s)
  case (Cons c s)
  then have "utf8_step (c # s) = (True, 1)"
    by (simp add: utf8_step_def Let_def byte_at_def)
  with Cons show ?case by (subst utf8_valid.simps) simp
qed (simp add: utf8_valid.simps)

text \<open>\<open>String::from_utf8\<close>.\<close>

definition from_utf8 :: "bytes \<Rightarrow> string result" where
  "from_utf8 s = (if utf8_valid s then Inr s else Inl ''invalid utf-8 sequence'')"

end
