(* ===== verification/Protocol.thy ===== *)
theory Protocol
  imports Text
begin

text \<open>
  \<open>src/protocol.rs\<close>: the wire format. Constants and header names, requests and responses, the
  header bridge's reading side, content types, offsets, the JSON framing of messages, server-sent
  events and cursors. The other pure helpers on requests are from \<open>src/actor.rs\<close>.

  Third-party code is a parameter: the record \<open>ext\<close> holds one function per call into serde\_json,
  base64, chrono, url and uuid; a theorem that needs what such a call promises states it as a
  hypothesis.
\<close>

subsection \<open>Constants\<close>

definition ZERO_OFFSET :: string where "ZERO_OFFSET = ''0000000000000000_0000000000000000''"
definition MAX_BODY_BYTES :: nat where "MAX_BODY_BYTES = 1000000"
definition MAX_READ_BYTES :: nat where "MAX_READ_BYTES = 4 * 1024 * 1024"
definition MAX_READ_ROWS :: nat where "MAX_READ_ROWS = 128"
definition LONG_POLL_TIMEOUT_MS :: nat where "LONG_POLL_TIMEOUT_MS = 2000"
definition MAX_SSE_LIFETIME_MS :: nat where "MAX_SSE_LIFETIME_MS = 60000"
definition MAX_TTL_SECONDS :: int where "MAX_TTL_SECONDS = 3153600000"
definition PRODUCER_STATE_TTL_MS :: int where "PRODUCER_STATE_TTL_MS = 7 * 24 * 60 * 60 * 1000"
definition INTERNAL_HEADER_PREFIX :: string where "INTERNAL_HEADER_PREFIX = ''x-rivet-ds-h-''"

definition STREAM_OFFSET :: string where "STREAM_OFFSET = ''stream-next-offset''"
definition STREAM_CURSOR :: string where "STREAM_CURSOR = ''stream-cursor''"
definition STREAM_UP_TO_DATE :: string where "STREAM_UP_TO_DATE = ''stream-up-to-date''"
definition STREAM_CLOSED :: string where "STREAM_CLOSED = ''stream-closed''"
definition STREAM_SEQ :: string where "STREAM_SEQ = ''stream-seq''"
definition STREAM_TTL :: string where "STREAM_TTL = ''stream-ttl''"
definition STREAM_EXPIRES_AT :: string where "STREAM_EXPIRES_AT = ''stream-expires-at''"
definition STREAM_FORKED_FROM :: string where "STREAM_FORKED_FROM = ''stream-forked-from''"
definition STREAM_FORK_OFFSET :: string where "STREAM_FORK_OFFSET = ''stream-fork-offset''"
definition STREAM_FORK_SUB_OFFSET :: string where "STREAM_FORK_SUB_OFFSET = ''stream-fork-sub-offset''"
definition PRODUCER_ID :: string where "PRODUCER_ID = ''producer-id''"
definition PRODUCER_EPOCH :: string where "PRODUCER_EPOCH = ''producer-epoch''"
definition PRODUCER_SEQ :: string where "PRODUCER_SEQ = ''producer-seq''"
definition PRODUCER_EXPECTED_SEQ :: string where "PRODUCER_EXPECTED_SEQ = ''producer-expected-seq''"
definition PRODUCER_RECEIVED_SEQ :: string where "PRODUCER_RECEIVED_SEQ = ''producer-received-seq''"
definition SSE_DATA_ENCODING :: string where "SSE_DATA_ENCODING = ''stream-sse-data-encoding''"

lemmas header_names = STREAM_OFFSET_def STREAM_CURSOR_def STREAM_UP_TO_DATE_def STREAM_CLOSED_def
  STREAM_SEQ_def STREAM_TTL_def STREAM_EXPIRES_AT_def STREAM_FORKED_FROM_def STREAM_FORK_OFFSET_def
  STREAM_FORK_SUB_OFFSET_def PRODUCER_ID_def PRODUCER_EPOCH_def PRODUCER_SEQ_def
  PRODUCER_EXPECTED_SEQ_def PRODUCER_RECEIVED_SEQ_def SSE_DATA_ENCODING_def

definition BRIDGED_REQUEST_HEADERS :: "string list" where
  "BRIDGED_REQUEST_HEADERS =
     [''content-type'', ''if-none-match'', STREAM_CLOSED, STREAM_SEQ, STREAM_TTL,
      STREAM_EXPIRES_AT, STREAM_FORKED_FROM, STREAM_FORK_OFFSET, STREAM_FORK_SUB_OFFSET,
      PRODUCER_ID, PRODUCER_EPOCH, PRODUCER_SEQ]"

subsection \<open>Third-party calls\<close>

text \<open>\<open>serde_json::Value\<close>, with everything that is not an array left abstract.\<close>

datatype 'j json = JArray "'j json list" | JOther 'j

text \<open>\<open>ClosedBy\<close> of \<open>src/actor.rs\<close>, stored as a JSON text.\<close>

record closed_by =
  cb_producer_id :: string
  cb_epoch :: int
  cb_seq :: int

text \<open>The control event of a live read, written as a JSON object: the next offset, then the end of
  the stream, or the cursor and whether the reader has caught up.\<close>

datatype sse_control = StreamEnd string | StreamNext string string bool

record 'j ext =
  json_from_slice :: "bytes \<Rightarrow> 'j json option"
  json_to_writer :: "'j json \<Rightarrow> bytes"
  closed_by_to_json :: "closed_by \<Rightarrow> string"
  closed_by_from_json :: "string \<Rightarrow> closed_by option"
  params_to_json :: "string \<times> string option \<Rightarrow> string"
  params_from_json :: "string \<Rightarrow> (string \<times> string option) option"
  control_to_json :: "sse_control \<Rightarrow> string"
  b64url_encode :: "bytes \<Rightarrow> string"
  b64url_decode :: "string \<Rightarrow> bytes option"
  b64_encode :: "bytes \<Rightarrow> string"
  parse_from_rfc3339 :: "string \<Rightarrow> int option"
  form_urlencoded_parse :: "string \<Rightarrow> (string \<times> string) list"
  new_v4 :: "nat \<Rightarrow> string"

subsection \<open>Requests and responses\<close>

datatype http_method = GET | HEAD | PUT | POST | DELETE | OPTIONS | OtherMethod string

record request =
  req_method :: http_method
  req_query :: "string option"
  req_headers :: "(string \<times> bytes) list"
  req_body :: bytes

record resp =
  status :: nat
  headers :: "string \<rightharpoonup> string"
  resp_body :: bytes

definition from_parts :: "nat \<Rightarrow> (string \<rightharpoonup> string) \<Rightarrow> bytes \<Rightarrow> resp result" where
  "from_parts st hs b = Inr \<lparr>status = st, headers = hs, resp_body = b\<rparr>"

text \<open>Collecting pairs into a \<open>HashMap\<close>: a later pair replaces an earlier one of the same name.\<close>

definition hash_map :: "(string \<times> string) list \<Rightarrow> (string \<rightharpoonup> string)" where
  "hash_map hs = map_of (rev hs)"

definition response :: "nat \<Rightarrow> (string \<times> string) list \<Rightarrow> bytes \<Rightarrow> resp result" where
  "response st hs b = from_parts st (hash_map hs) b"

definition text_response :: "nat \<Rightarrow> string \<Rightarrow> (string \<times> string) list \<Rightarrow> resp result" where
  "text_response st message extra =
     from_parts st
       (hash_map ([(''content-type'', ''text/plain; charset=utf-8''), (''cache-control'', ''no-store'')] @ extra))
       message"

text \<open>\<open>HeaderMap::get\<close>: the first value of that name.\<close>

definition header_get :: "(string \<times> bytes) list \<Rightarrow> string \<Rightarrow> bytes option" where
  "header_get hs name = map_of hs name"

definition public_header_bytes :: "'j ext \<Rightarrow> request \<Rightarrow> string \<Rightarrow> bytes option result" where
  "public_header_bytes E req name =
     (case header_get (req_headers req) (INTERNAL_HEADER_PREFIX @ name) of
        Some v \<Rightarrow> (case b64url_decode E v of
                     Some b \<Rightarrow> Inr (Some b)
                   | None \<Rightarrow> Inl (''invalid bridged '' @ name @ '' header''))
      | None \<Rightarrow> Inr (header_get (req_headers req) name))"

definition public_header_text :: "'j ext \<Rightarrow> request \<Rightarrow> string \<Rightarrow> string option result" where
  "public_header_text E req name =
     result_bind (public_header_bytes E req name)
       (\<lambda>v. case v of None \<Rightarrow> Inr None | Some b \<Rightarrow> result_bind (from_utf8 b) (\<lambda>t. Inr (Some t)))"

definition header_is_true :: "'j ext \<Rightarrow> request \<Rightarrow> string \<Rightarrow> bool result" where
  "header_is_true E req name =
     result_bind (public_header_text E req name)
       (\<lambda>v. Inr (case v of None \<Rightarrow> False | Some t \<Rightarrow> eq_ignore_ascii_case t ''true''))"

definition query_values :: "'j ext \<Rightarrow> request \<Rightarrow> string \<Rightarrow> string list" where
  "query_values E req name =
     (case req_query req of
        None \<Rightarrow> []
      | Some q \<Rightarrow> map snd (filter (\<lambda>(k, _). k = name) (form_urlencoded_parse E q)))"

subsection \<open>Content types\<close>

definition normalize_content_type :: "string option \<Rightarrow> string" where
  "normalize_content_type v =
     to_ascii_lowercase (trim (hd (split_char (CHR '';'') (case v of None \<Rightarrow> [] | Some s \<Rightarrow> s))))"

definition octet_stream :: string where "octet_stream = ''application/octet-stream''"
definition json_type :: string where "json_type = ''application/json''"

definition header_byte :: "char \<Rightarrow> bool" where
  "header_byte c \<longleftrightarrow> byte c = 9 \<or> (0x20 \<le> byte c \<and> byte c \<le> 0x7e)"

definition sanitize_content_type :: "string option \<Rightarrow> bool \<Rightarrow> string option" where
  "sanitize_content_type v is_fork =
     (case v of
        Some s \<Rightarrow> if trim s \<noteq> [] \<and> list_all header_byte s then Some s
                   else if is_fork then None else Some octet_stream
      | None \<Rightarrow> if is_fork then None else Some octet_stream)"

subsection \<open>Offsets\<close>

definition is_concrete_offset :: "string \<Rightarrow> bool" where
  "is_concrete_offset v =
     (case split_once (CHR ''_'') v of
        None \<Rightarrow> False
      | Some (read_seq, byte_offset) \<Rightarrow>
          read_seq \<noteq> [] \<and> byte_offset \<noteq> [] \<and> all_digits read_seq \<and> all_digits byte_offset)"

definition validate_offset :: "string \<Rightarrow> bool" where
  "validate_offset v =
     (if v = ''-1'' \<or> v = ''now'' then True
      else case split_once (CHR ''_'') v of
        None \<Rightarrow> False
      | Some (read_seq, byte_offset) \<Rightarrow>
          read_seq \<noteq> [] \<and> byte_offset \<noteq> [] \<and> all_digits read_seq \<and> all_digits byte_offset)"

definition checked_add_u64 :: "nat \<Rightarrow> nat \<Rightarrow> nat option" where
  "checked_add_u64 a b = (if a + b \<le> u64_max then Some (a + b) else None)"

definition advance_offset :: "string \<Rightarrow> nat \<Rightarrow> string result" where
  "advance_offset current payload_len =
     (case split_once (CHR ''_'') current of
        None \<Rightarrow> Inl ''invalid current offset''
      | Some (read_seq, byte_offset) \<Rightarrow>
          (case parse_u64 read_seq of
             None \<Rightarrow> Inl ''invalid digit found in string''
           | Some r \<Rightarrow>
               (case parse_u64 byte_offset of
                  None \<Rightarrow> Inl ''invalid digit found in string''
                | Some b \<Rightarrow>
                    (case Option.bind (checked_add_u64 b 5) (\<lambda>v. checked_add_u64 v payload_len) of
                       None \<Rightarrow> Inl ''stream offset overflow''
                     | Some nxt \<Rightarrow> Inr (show16 r @ CHR ''_'' # show16 nxt)))))"

subsection \<open>Numbers in headers\<close>

definition parse_non_negative_safe_integer :: "string \<Rightarrow> string \<Rightarrow> int result" where
  "parse_non_negative_safe_integer v fld =
     (let err = ''Invalid '' @ fld @ '': must be a non-negative integer''
      in if v = [] \<or> (1 < length v \<and> hd v = CHR ''0'') \<or> \<not> all_digits v then Inl err
         else case parse_i64 v of
           None \<Rightarrow> Inl err
         | Some n \<Rightarrow> if 9007199254740991 < n then Inl err else Inr n)"

definition parse_ttl :: "string \<Rightarrow> int option" where
  "parse_ttl v =
     (if v = [] \<or> (1 < length v \<and> hd v = CHR ''0'') \<or> \<not> all_digits v then None
      else case parse_i64 v of
        None \<Rightarrow> None
      | Some n \<Rightarrow> if n \<le> MAX_TTL_SECONDS then Some n else None)"

subsection \<open>JSON framing\<close>

definition process_json_append :: "'j ext \<Rightarrow> bytes \<Rightarrow> bool \<Rightarrow> bytes result" where
  "process_json_append E data initial_create =
     (case json_from_slice E data of
        None \<Rightarrow> Inl ''Invalid JSON''
      | Some (JArray values) \<Rightarrow>
          if values = [] then
            (if initial_create then Inr [] else Inl ''Empty arrays are not allowed'')
          else Inr (concat (map (\<lambda>v. json_to_writer E v @ '','') values))
      | Some v \<Rightarrow> Inr (json_to_writer E v @ '',''))"

definition concatenate :: "bytes list \<Rightarrow> bytes" where
  "concatenate messages = concat messages"

definition format_json_messages :: "bytes list \<Rightarrow> bytes" where
  "format_json_messages messages =
     (if messages = [] then ''[]''
      else let out = ''['' @ concat messages
        in (if last out = CHR '','' then butlast out else out) @ '']'')"

subsection \<open>Server-sent events\<close>

definition encode_sse_data :: "string \<Rightarrow> string" where
  "encode_sse_data value =
     (let v = replace_char CR LF (replace_crlf value)
      in concat (map (\<lambda>line. ''data:'' @ line @ [LF]) (split_char LF v)) @ [LF])"

subsection \<open>Cursors\<close>

definition CURSOR_EPOCH_MS :: int where "CURSOR_EPOCH_MS = 1728432000000"
definition INTERVAL_MS :: int where "INTERVAL_MS = 20000"

text \<open>\<open>random\<close> is the value of the first two bytes of a random UUID.\<close>

definition response_cursor :: "int \<Rightarrow> nat \<Rightarrow> string option \<Rightarrow> string" where
  "response_cursor now random request_cursor =
     (let current = rust_div (now - CURSOR_EPOCH_MS) INTERVAL_MS
      in case request_cursor of
           None \<Rightarrow> show_int current
         | Some c \<Rightarrow>
             if c \<noteq> [] \<and> length c \<le> 15 \<and> all_digits c then
               (case parse_i64 c of
                  None \<Rightarrow> show_int current
                | Some client \<Rightarrow>
                    if client < current then show_int current
                    else let jitter_seconds = 1 + int random mod 3600;
                             jitter_intervals = (jitter_seconds + 19) div 20
                      in show_int (client + max jitter_intervals 1))
             else show_int current)"

end
