(* ===== verification/Offsets.thy ===== *)
theory Offsets
  imports Protocol
begin

text \<open>
  Stream offsets. The program writes an offset as two 16-digit decimals joined by an underscore
  and compares offsets as texts, in Rust (\<open>offset < fork_offset\<close>) and in SQL
  (\<open>msg_offset > ?\<close>). This theory gives the texts their numeric meaning: \<open>offset_val\<close> is the
  byte position, \<open>offset_text\<close> the text the program prints for one. It shows what
  \<open>advance_offset\<close> computes and when the order of the texts is the order of the positions.
\<close>

definition offset_prefix :: string where "offset_prefix = ''0000000000000000_''"

definition offset_text :: "nat \<Rightarrow> string" where
  "offset_text n = show16 0 @ CHR ''_'' # show16 n"

definition offset_val :: "string \<Rightarrow> nat" where
  "offset_val s = dec_val (drop 17 s)"

text \<open>The offsets a stream can have: read sequence 0, then any digits.\<close>

definition stream_offset :: "string \<Rightarrow> bool" where
  "stream_offset s \<longleftrightarrow> take 17 s = offset_prefix \<and> drop 17 s \<noteq> [] \<and> all_digits (drop 17 s)"

text \<open>The canonical ones have exactly sixteen.\<close>

definition canonical_offset :: "string \<Rightarrow> bool" where
  "canonical_offset s \<longleftrightarrow> stream_offset s \<and> length s = 33"

definition parse_offset :: "string \<Rightarrow> nat option" where
  "parse_offset s = (if stream_offset s then parse_u64 (drop 17 s) else None)"

lemma show16_zero: "show16 0 = ''0000000000000000''"
  by code_simp

lemma offset_text_eq: "offset_text n = offset_prefix @ show16 n"
  by (simp add: offset_text_def offset_prefix_def show16_zero)

lemma offset_prefix_length [simp]: "length offset_prefix = 17"
  by (simp add: offset_prefix_def)

lemma drop_offset_text [simp]: "drop 17 (offset_text n) = show16 n"
  by (simp add: offset_text_eq)

lemma stream_offset_prefix_iff:
  "stream_offset s \<longleftrightarrow> (\<exists>w. s = offset_prefix @ w \<and> w \<noteq> [] \<and> all_digits w)"
proof
  assume "stream_offset s"
  then have "s = offset_prefix @ drop 17 s" by (metis append_take_drop_id stream_offset_def)
  with \<open>stream_offset s\<close> show "\<exists>w. s = offset_prefix @ w \<and> w \<noteq> [] \<and> all_digits w"
    by (auto simp: stream_offset_def)
qed (auto simp: stream_offset_def)

lemma offset_val_text [simp]: "offset_val (offset_text n) = n"
  by (simp add: offset_val_def)

lemma stream_offset_text [simp]: "stream_offset (offset_text n)"
  by (simp add: stream_offset_def offset_text_eq show16_digits show16_nonempty)

lemma canonical_offset_text: "n < 10 ^ 16 \<Longrightarrow> canonical_offset (offset_text n)"
  by (simp add: canonical_offset_def) (simp add: offset_text_eq show16_length)

lemma offset_text_inj: "offset_text m = offset_text n \<longleftrightarrow> m = n"
  by (metis offset_val_text)

lemma ZERO_OFFSET_eq: "ZERO_OFFSET = offset_text 0"
  by (simp add: ZERO_OFFSET_def offset_text_def show16_zero)

lemma ZERO_OFFSET_stream [simp]: "stream_offset ZERO_OFFSET"
  by (simp add: ZERO_OFFSET_eq)

lemma ZERO_OFFSET_val [simp]: "offset_val ZERO_OFFSET = 0"
  by (simp add: ZERO_OFFSET_eq)

lemma parse_offset_text: "n \<le> u64_max \<Longrightarrow> parse_offset (offset_text n) = Some n"
  by (simp add: parse_offset_def parse_u64_show16)

interpretation offsets: text_codec offset_text parse_offset "\<lambda>n. n \<le> u64_max"
  by unfold_locales (rule parse_offset_text)

subsection \<open>Order\<close>

lemma offset_text_less_iff:
  "m < 10 ^ 16 \<Longrightarrow> n < 10 ^ 16 \<Longrightarrow> offset_text m < offset_text n \<longleftrightarrow> m < n"
  by (simp add: offset_text_eq show16_less_iff)

lemma canonical_offset_eq_text:
  assumes "canonical_offset s"
  shows "s = offset_text (offset_val s)" and "offset_val s < 10 ^ 16"
proof -
  from assms obtain w where s: "s = offset_prefix @ w" and w: "all_digits w" "length w = 16"
    by (auto simp: canonical_offset_def stream_offset_prefix_iff)
  then have val: "offset_val s = dec_val w" by (simp add: offset_val_def)
  have lt: "dec_val w < 10 ^ 16" using dec_val_lt [of w] w by simp
  then have "show16 (dec_val w) = w"
    using w by (intro dec_val_inj) (simp_all only: show16_length show16_digits dec_val_show16)
  then show "s = offset_text (offset_val s)" by (simp add: offset_val_def s offset_text_eq)
  show "offset_val s < 10 ^ 16" using lt by (simp add: val)
qed

lemma canonical_offset_less_iff:
  assumes "canonical_offset s" and "canonical_offset t"
  shows "s < t \<longleftrightarrow> offset_val s < offset_val t"
  using canonical_offset_eq_text [OF assms(1)] canonical_offset_eq_text [OF assms(2)]
    offset_text_less_iff by metis

text \<open>Everything between two texts with a common prefix has that prefix.\<close>

lemma prefix_interval:
  "p @ x \<le> s \<Longrightarrow> s \<le> p @ y \<Longrightarrow> \<exists>z. s = p @ (z :: 'a::linorder list)"
proof (induction p arbitrary: s)
  case (Cons c p)
  then show ?case by (cases s) auto
qed simp

text \<open>
  So the range check of \<open>fork_acquire\<close> lets through stream offsets only: read sequence 0. It does
  not make them canonical.
\<close>

lemma split_offset_prefix:
  "split_once (CHR ''_'') (offset_prefix @ w) = Some (''0000000000000000'', w)"
  by (simp add: offset_prefix_def)

lemma concrete_between_stream_offset:
  assumes "is_concrete_offset s" and "ZERO_OFFSET \<le> s" and "s \<le> t" and "stream_offset t"
  shows "stream_offset s"
proof -
  from assms(4) obtain y where "t = offset_prefix @ y" by (auto simp: stream_offset_prefix_iff)
  with assms obtain w where s: "s = offset_prefix @ w"
    using prefix_interval [of offset_prefix "show16 0" s y] by (auto simp: ZERO_OFFSET_eq offset_text_eq)
  with assms(1) show ?thesis
    by (auto simp: is_concrete_offset_def split_offset_prefix stream_offset_prefix_iff)
qed

subsection \<open>Advancing\<close>

lemma advance_stream_offset:
  assumes "stream_offset s"
  shows "advance_offset s len =
    (if offset_val s \<le> u64_max
     then if offset_val s + 5 + len \<le> u64_max then Inr (offset_text (offset_val s + 5 + len))
          else Inl ''stream offset overflow''
     else Inl ''invalid digit found in string'')"
proof -
  from assms obtain w where s: "s = offset_prefix @ w" and w: "w \<noteq> []" "all_digits w"
    by (auto simp: stream_offset_prefix_iff)
  have "parse_u64 ''0000000000000000'' = Some 0"
    using parse_u64_show16 [of 0] by (simp add: show16_zero u64_max_def)
  then show ?thesis
    using w by (auto simp: s advance_offset_def split_offset_prefix parse_u64_digits
      offset_val_def offset_text_def checked_add_u64_def)
qed

lemma advance_stream_offset_InrD:
  assumes "advance_offset s len = Inr t" and "stream_offset s"
  shows "t = offset_text (offset_val s + 5 + len)" and "offset_val s + 5 + len \<le> u64_max"
  using assms by (auto simp: advance_stream_offset split: if_splits)

end
