(* ===== verification/Store.thy ===== *)
theory Store
  imports Offsets
begin

text \<open>
  \<open>src/store.rs\<close>: the SQLite database of one stream actor. A \<open>db\<close> holds one list of rows per table
  of the schema, in insertion order; a statement is a function on it, with the primary keys
  checked by the inserts. A transaction is a \<open>db\<close> value: \<open>begin_mutation\<close> hands out the committed
  one, the statements of the transaction rewrite it, and only a commit stores it back (theory
  \<open>Actor\<close>).
\<close>

subsection \<open>Rows and tables\<close>

record meta =
  generation :: string
  content_type :: "string option"
  ttl_seconds :: "int option"
  expires_at :: "string option"
  closed :: bool
  closed_by :: "string option"
  current_offset :: string
  last_seq :: "string option"
  created_at :: int
  last_accessed_at :: int
  forked_from :: "string option"
  fork_offset :: "string option"
  fork_sub_offset :: "int option"
  fork_edge_id :: "string option"
  fork_source_gen :: "string option"
  soft_deleted :: bool

record message =
  msg_offset :: string
  msg_data :: bytes
  msg_ts :: int

record stored_message =
  sm_offset :: string
  sm_data :: bytes

record read_batch =
  rb_messages :: "stored_message list"
  rb_capped :: bool

record producer_state =
  ps_epoch :: int
  ps_last_seq :: int
  ps_last_updated :: int

record fork_intent =
  fi_edge_id :: string
  fi_parent_path :: string
  fi_params_key :: string

record gc_release =
  gr_edge_id :: string
  gr_parent_path :: string
  gr_source_gen :: "string option"

record db =
  db_meta :: "meta option"
  db_messages :: "message list"
  db_producers :: "(string \<times> producer_state) list"
  db_fork_edges :: "(string \<times> string) list"
  db_fork_intents :: "fork_intent list"
  db_gc_releases :: "gc_release list"

definition empty_db :: db where
  "empty_db = \<lparr>db_meta = None, db_messages = [], db_producers = [], db_fork_edges = [],
     db_fork_intents = [], db_gc_releases = []\<rparr>"

definition empty_batch :: read_batch where
  "empty_batch = \<lparr>rb_messages = [], rb_capped = False\<rparr>"

subsection \<open>Expiry\<close>

definition expiry_time :: "'j ext \<Rightarrow> meta \<Rightarrow> int option" where
  "expiry_time E m =
     (let absolute = map_option (\<lambda>t. case parse_from_rfc3339 E t of Some ms \<Rightarrow> ms | None \<Rightarrow> i64_min)
                       (expires_at m);
          sliding = map_option (\<lambda>s. saturating_add_i64 (last_accessed_at m) (saturating_mul_i64 s 1000))
                      (ttl_seconds m)
      in case (absolute, sliding) of
           (Some l, Some r) \<Rightarrow> Some (min l r)
         | (Some v, None) \<Rightarrow> Some v
         | (None, Some v) \<Rightarrow> Some v
         | (None, None) \<Rightarrow> None)"

definition is_expired :: "'j ext \<Rightarrow> meta \<Rightarrow> int \<Rightarrow> bool" where
  "is_expired E m now_ms = (case expiry_time E m of None \<Rightarrow> False | Some t \<Rightarrow> t \<le> now_ms)"

subsection \<open>The meta row\<close>

definition get_meta_tx :: "db \<Rightarrow> meta option" where
  "get_meta_tx tx = db_meta tx"

text \<open>
  The single row has \<open>id = 1\<close>, so a second insert violates the primary key. The generation is the
  fresh UUID the statement binds.
\<close>

definition create_meta ::
  "db \<Rightarrow> string \<Rightarrow> string option \<Rightarrow> int option \<Rightarrow> string option \<Rightarrow> bool \<Rightarrow> int \<Rightarrow> string option
     \<Rightarrow> string option \<Rightarrow> int option \<Rightarrow> string option \<Rightarrow> string option \<Rightarrow> db result" where
  "create_meta tx gen ct ttl ex cl now ff fo fso fe fsg =
     (let initial_offset = (if ff \<noteq> None then (case fo of Some f \<Rightarrow> f | None \<Rightarrow> ZERO_OFFSET) else ZERO_OFFSET)
      in case db_meta tx of
           Some _ \<Rightarrow> Inl ''UNIQUE constraint failed: meta.id''
         | None \<Rightarrow> Inr (tx\<lparr>db_meta := Some
             \<lparr>generation = gen, content_type = ct, ttl_seconds = ttl, expires_at = ex, closed = cl,
              closed_by = None, current_offset = initial_offset, last_seq = None, created_at = now,
              last_accessed_at = now, forked_from = ff, fork_offset = fo, fork_sub_offset = fso,
              fork_edge_id = fe, fork_source_gen = fsg, soft_deleted = False\<rparr>\<rparr>))"

definition update_meta :: "(meta \<Rightarrow> meta) \<Rightarrow> db \<Rightarrow> db" where
  "update_meta f tx = tx\<lparr>db_meta := map_option f (db_meta tx)\<rparr>"

definition touch :: "db \<Rightarrow> int \<Rightarrow> db" where
  "touch tx now_ms = update_meta (\<lambda>m. m\<lparr>last_accessed_at := now_ms\<rparr>) tx"

definition set_last_seq :: "db \<Rightarrow> string \<Rightarrow> db" where
  "set_last_seq tx seq = update_meta (\<lambda>m. m\<lparr>last_seq := Some seq\<rparr>) tx"

text \<open>\<open>COALESCE(?, closed_by)\<close> keeps the old value when the new one is NULL.\<close>

definition set_closed :: "db \<Rightarrow> string option \<Rightarrow> db" where
  "set_closed tx by =
     update_meta (\<lambda>m. m\<lparr>closed := True,
       closed_by := (case by of None \<Rightarrow> closed_by m | Some b \<Rightarrow> Some b)\<rparr>) tx"

definition set_soft_deleted :: "db \<Rightarrow> db" where
  "set_soft_deleted tx = update_meta (\<lambda>m. m\<lparr>soft_deleted := True\<rparr>) tx"

definition purge :: "db \<Rightarrow> db" where
  "purge tx = tx\<lparr>db_meta := None, db_messages := [], db_producers := [], db_fork_edges := []\<rparr>"

subsection \<open>Messages\<close>

definition SQLITE_BIND_CHUNK_BYTES :: nat where "SQLITE_BIND_CHUNK_BYTES = 64 * 1024"

text \<open>\<open>slice::chunks\<close>, for a positive size.\<close>

function chunks :: "nat \<Rightarrow> 'a list \<Rightarrow> 'a list list" where
  "chunks n xs = (if xs = [] \<or> n = 0 then [] else take n xs # chunks n (drop n xs))"
  by pat_completeness auto
termination by (relation "measure (length \<circ> snd)") auto

declare chunks.simps [simp del]

definition insert_message :: "db \<Rightarrow> string \<Rightarrow> int \<Rightarrow> db result" where
  "insert_message tx off ts =
     (if off \<in> msg_offset ` set (db_messages tx) then Inl ''UNIQUE constraint failed: messages.msg_offset''
      else Inr (tx\<lparr>db_messages := db_messages tx @ [\<lparr>msg_offset = off, msg_data = [], msg_ts = ts\<rparr>]\<rparr>))"

definition append_data :: "db \<Rightarrow> string \<Rightarrow> bytes \<Rightarrow> db" where
  "append_data tx off chunk =
     tx\<lparr>db_messages := map (\<lambda>m. if msg_offset m = off then m\<lparr>msg_data := msg_data m @ chunk\<rparr> else m)
                         (db_messages tx)\<rparr>"

definition append_message :: "db \<Rightarrow> string \<Rightarrow> bytes \<Rightarrow> int \<Rightarrow> (db \<times> string) result" where
  "append_message tx current payload now_ms =
     result_bind (advance_offset current (length payload)) (\<lambda>nxt.
     result_bind (insert_message tx nxt now_ms) (\<lambda>tx1.
       let tx2 = foldl (\<lambda>t chunk. append_data t nxt chunk) tx1 (chunks SQLITE_BIND_CHUNK_BYTES payload)
       in Inr (update_meta (\<lambda>m. m\<lparr>current_offset := nxt\<rparr>) tx2, nxt)))"

subsection \<open>Fork bookkeeping tables\<close>

definition fork_edge_count :: "db \<Rightarrow> nat" where
  "fork_edge_count tx = length (db_fork_edges tx)"

definition get_fork_edge_tx :: "db \<Rightarrow> string \<Rightarrow> string option" where
  "get_fork_edge_tx tx edge_id = map_of (db_fork_edges tx) edge_id"

text \<open>\<open>INSERT OR IGNORE\<close>, then the stored value is read back.\<close>

definition insert_fork_edge :: "db \<Rightarrow> string \<Rightarrow> string \<Rightarrow> (db \<times> string) result" where
  "insert_fork_edge tx edge_id off =
     (let tx' = (if edge_id \<in> fst ` set (db_fork_edges tx) then tx
                 else tx\<lparr>db_fork_edges := db_fork_edges tx @ [(edge_id, off)]\<rparr>)
      in case get_fork_edge_tx tx' edge_id of
           None \<Rightarrow> Inl ''fork edge was not persisted''
         | Some o' \<Rightarrow> Inr (tx', o'))"

definition delete_fork_edge :: "db \<Rightarrow> string \<Rightarrow> db" where
  "delete_fork_edge tx edge_id =
     tx\<lparr>db_fork_edges := filter (\<lambda>(e, _). e \<noteq> edge_id) (db_fork_edges tx)\<rparr>"

definition get_fork_intent :: "db \<Rightarrow> string \<Rightarrow> string option" where
  "get_fork_intent tx key =
     map_option fi_edge_id (find (\<lambda>i. fi_params_key i = key) (db_fork_intents tx))"

definition put_fork_intent :: "db \<Rightarrow> string \<Rightarrow> string \<Rightarrow> string \<Rightarrow> db" where
  "put_fork_intent tx edge_id parent key =
     (if edge_id \<in> fi_edge_id ` set (db_fork_intents tx) then tx
      else tx\<lparr>db_fork_intents := db_fork_intents tx @
             [\<lparr>fi_edge_id = edge_id, fi_parent_path = parent, fi_params_key = key\<rparr>]\<rparr>)"

definition delete_fork_intent :: "db \<Rightarrow> string \<Rightarrow> db" where
  "delete_fork_intent tx edge_id =
     tx\<lparr>db_fork_intents := filter (\<lambda>i. fi_edge_id i \<noteq> edge_id) (db_fork_intents tx)\<rparr>"

definition pending_fork_intents :: "db \<Rightarrow> fork_intent list" where
  "pending_fork_intents d = take 64 (sort_key fi_edge_id (db_fork_intents d))"

definition enqueue_gc_release :: "db \<Rightarrow> string \<Rightarrow> string \<Rightarrow> string option \<Rightarrow> db" where
  "enqueue_gc_release tx edge_id parent gen =
     (if edge_id \<in> gr_edge_id ` set (db_gc_releases tx) then tx
      else tx\<lparr>db_gc_releases := db_gc_releases tx @
             [\<lparr>gr_edge_id = edge_id, gr_parent_path = parent, gr_source_gen = gen\<rparr>]\<rparr>)"

definition dequeue_gc_release :: "db \<Rightarrow> string \<Rightarrow> db" where
  "dequeue_gc_release tx edge_id =
     tx\<lparr>db_gc_releases := filter (\<lambda>r. gr_edge_id r \<noteq> edge_id) (db_gc_releases tx)\<rparr>"

definition pending_gc_releases :: "db \<Rightarrow> gc_release list" where
  "pending_gc_releases d = take 64 (sort_key gr_edge_id (db_gc_releases d))"

subsection \<open>Producers\<close>

definition delete_expired_producer :: "db \<Rightarrow> string \<Rightarrow> int \<Rightarrow> db" where
  "delete_expired_producer tx pid before =
     tx\<lparr>db_producers := filter (\<lambda>(p, st). \<not> (p = pid \<and> ps_last_updated st < before)) (db_producers tx)\<rparr>"

definition sweep_producers :: "db \<Rightarrow> int \<Rightarrow> db" where
  "sweep_producers tx before =
     (let victims = map fst (take 64 (sort_key (\<lambda>(p, st). (ps_last_updated st, p))
            (filter (\<lambda>(p, st). ps_last_updated st < before) (db_producers tx))))
      in tx\<lparr>db_producers := filter (\<lambda>(p, st). p \<notin> set victims) (db_producers tx)\<rparr>)"

definition get_producer_state :: "db \<Rightarrow> string \<Rightarrow> int \<Rightarrow> producer_state option \<times> db" where
  "get_producer_state tx pid before =
     (let tx' = sweep_producers (delete_expired_producer tx pid before) before
      in (map_of (db_producers tx') pid, tx'))"

definition commit_producer_state :: "db \<Rightarrow> string \<Rightarrow> producer_state \<Rightarrow> db" where
  "commit_producer_state tx pid st =
     tx\<lparr>db_producers :=
       (if pid \<in> fst ` set (db_producers tx)
        then map (\<lambda>(p, old). (p, if p = pid then st else old)) (db_producers tx)
        else db_producers tx @ [(pid, st)])\<rparr>"

subsection \<open>Range reads\<close>

text \<open>The rows a range query selects: \<open>WHERE msg_offset > ? AND msg_offset <= ? ORDER BY msg_offset\<close>.\<close>

definition select_range :: "db \<Rightarrow> string \<Rightarrow> string option \<Rightarrow> message list" where
  "select_range d after cap =
     sort_key msg_offset
       (filter (\<lambda>m. after < msg_offset m \<and> (case cap of None \<Rightarrow> True | Some c \<Rightarrow> msg_offset m \<le> c))
          (db_messages d))"

text \<open>The loop over the lengths: how many rows fit, and the offset of the last of them.\<close>

fun select_fitting ::
  "nat \<Rightarrow> nat \<Rightarrow> bool \<Rightarrow> message list \<Rightarrow> nat \<Rightarrow> nat \<Rightarrow> string option \<Rightarrow> nat \<times> string option" where
  "select_fitting limit budget allow_first [] selected bytes last_offset = (selected, last_offset)"
| "select_fitting limit budget allow_first (m # ms) selected bytes last_offset =
     (if selected = limit then (selected, last_offset)
      else if (0 < selected \<or> \<not> allow_first) \<and> budget < bytes + length (msg_data m)
      then (selected, last_offset)
      else select_fitting limit budget allow_first ms (selected + 1) (bytes + length (msg_data m))
             (Some (msg_offset m)))"

definition stored :: "message \<Rightarrow> stored_message" where
  "stored m = \<lparr>sm_offset = msg_offset m, sm_data = msg_data m\<rparr>"

definition normalize_after :: "string option \<Rightarrow> string" where
  "normalize_after after = (case after of None \<Rightarrow> [] | Some a \<Rightarrow> if a = ''-1'' then [] else a)"

text \<open>
  The two queries are separate statements outside a transaction: \<open>d1\<close> is the database at the
  first, \<open>d2\<close> at the second.
\<close>

definition read_messages_range ::
  "db \<Rightarrow> db \<Rightarrow> string option \<Rightarrow> string option \<Rightarrow> nat \<Rightarrow> nat \<Rightarrow> bool \<Rightarrow> read_batch" where
  "read_messages_range d1 d2 after_offset cap limit byte_budget allow_first =
     (let after = normalize_after after_offset;
          scan_limit = min (limit + 1) (MAX_READ_ROWS + 1);
          lengths = take scan_limit (select_range d1 after cap);
          (selected, last_offset) = select_fitting limit byte_budget allow_first lengths 0 0 None;
          capped = selected < length lengths
      in case last_offset of
           None \<Rightarrow> \<lparr>rb_messages = [], rb_capped = capped\<rparr>
         | Some l \<Rightarrow> \<lparr>rb_messages = map stored (filter (\<lambda>m. msg_offset m \<le> l) (select_range d2 after cap)),
                     rb_capped = capped\<rparr>)"

subsection \<open>Schema versions\<close>

record migration =
  mig_version :: int
  mig_tables :: "string list"

definition MIGRATIONS :: "migration list" where
  "MIGRATIONS = [\<lparr>mig_version = 1,
     mig_tables = [''meta'', ''messages'', ''producers'', ''producers_last_updated_idx'', ''fork_edges'',
                   ''fork_intents'', ''gc_releases'']\<rparr>]"

text \<open>The version table's row, if any, and the names created so far.\<close>

record schema =
  schema_version :: "int option"
  schema_tables :: "string list"

definition supported_schema_version :: int where
  "supported_schema_version = (if MIGRATIONS = [] then 0 else mig_version (last MIGRATIONS))"

definition validate_schema_version :: "int \<Rightarrow> unit result" where
  "validate_schema_version current =
     (if supported_schema_version < current
      then Inl ''Durable Streams schema version is newer than supported''
      else Inr ())"

definition read_schema_version :: "schema \<Rightarrow> int" where
  "read_schema_version s = (case schema_version s of None \<Rightarrow> 0 | Some v \<Rightarrow> v)"

definition create_if_not_exists :: "string list \<Rightarrow> string \<Rightarrow> string list" where
  "create_if_not_exists ts t = (if t \<in> set ts then ts else ts @ [t])"

text \<open>The batch of one migration: its statements, then the upsert of the version, atomically.\<close>

definition migration_batch :: "migration \<Rightarrow> schema \<Rightarrow> schema" where
  "migration_batch m s =
     \<lparr>schema_version = Some (mig_version m),
      schema_tables = foldl create_if_not_exists (schema_tables s) (mig_tables m)\<rparr>"

definition ensure_schema :: "schema \<Rightarrow> unit result \<times> schema" where
  "ensure_schema s =
     (let s1 = s\<lparr>schema_tables := create_if_not_exists (schema_tables s) ''durable_streams_schema_version''\<rparr>;
          current = read_schema_version s1
      in case validate_schema_version current of
           Inl e \<Rightarrow> (Inl e, s1)
         | Inr _ \<Rightarrow>
             (Inr (), foldl (\<lambda>t m. migration_batch m t) s1
                        (filter (\<lambda>m. current < mig_version m) MIGRATIONS)))"

subsection \<open>Keyed tables\<close>

text \<open>
  What the code relies on of a table it fills with \<open>INSERT OR IGNORE\<close> and empties by key: an
  insert stores its row only under a new key, a delete removes one key, and neither touches
  another key.
\<close>

locale keyed_table =
  fixes lookup :: "'d \<Rightarrow> 'k \<Rightarrow> 'v option"
    and insert_new :: "'d \<Rightarrow> 'k \<Rightarrow> 'v \<Rightarrow> 'd"
    and remove :: "'d \<Rightarrow> 'k \<Rightarrow> 'd"
  assumes lookup_insert:
      "lookup (insert_new d k v) k' = (if k' = k \<and> lookup d k = None then Some v else lookup d k')"
    and lookup_remove: "lookup (remove d k) k' = (if k' = k then None else lookup d k')"
begin

lemma first_insert_wins: "lookup (insert_new (insert_new d k v) k w) k' = lookup (insert_new d k v) k'"
  by (simp add: lookup_insert)

lemma insert_present: "lookup d k = Some v \<Longrightarrow> lookup (insert_new d k w) k' = lookup d k'"
  by (simp add: lookup_insert)

lemma remove_insert_absent: "lookup d k = None \<Longrightarrow> lookup (remove (insert_new d k v) k) k' = lookup d k'"
  by (simp add: lookup_insert lookup_remove)

lemma remove_twice: "lookup (remove (remove d k) k) k' = lookup (remove d k) k'"
  by (simp add: lookup_remove)

lemma insert_keeps: "lookup d k' = Some v \<Longrightarrow> lookup (insert_new d k w) k' = Some v"
  by (auto simp: lookup_insert)

end

definition edge_table_insert :: "db \<Rightarrow> string \<Rightarrow> string \<Rightarrow> db" where
  "edge_table_insert d e off = (case insert_fork_edge d e off of Inl _ \<Rightarrow> d | Inr (d', _) \<Rightarrow> d')"

definition intent_lookup :: "db \<Rightarrow> string \<Rightarrow> (string \<times> string) option" where
  "intent_lookup d e =
     map_option (\<lambda>i. (fi_parent_path i, fi_params_key i)) (find (\<lambda>i. fi_edge_id i = e) (db_fork_intents d))"

definition release_lookup :: "db \<Rightarrow> string \<Rightarrow> (string \<times> string option) option" where
  "release_lookup d e =
     map_option (\<lambda>r. (gr_parent_path r, gr_source_gen r)) (find (\<lambda>r. gr_edge_id r = e) (db_gc_releases d))"

lemma map_of_filter_key: "map_of (filter (\<lambda>(e, _). e \<noteq> k) xs) k' = (if k' = k then None else map_of xs k')"
  by (induction xs) auto

lemma map_of_snoc: "map_of (xs @ [(k, v)]) k' = (case map_of xs k' of None \<Rightarrow> if k' = k then Some v else None | Some w \<Rightarrow> Some w)"
  by (simp add: map_add_def split: option.splits)

lemma find_snoc: "find P (xs @ [x]) = (case find P xs of None \<Rightarrow> if P x then Some x else None | Some y \<Rightarrow> Some y)"
  by (induction xs) auto

lemma find_filter_key: "find (\<lambda>x. f x = k') (filter (\<lambda>x. f x \<noteq> k) xs) = (if k' = k then None else find (\<lambda>x. f x = k') xs)"
  by (induction xs) auto

lemma key_in_table: "k \<in> f ` set xs \<longleftrightarrow> find (\<lambda>x. f x = k) xs \<noteq> None"
  by (auto simp: find_None_iff)

lemma key_in_map: "k \<in> fst ` set xs \<longleftrightarrow> map_of xs k \<noteq> None"
  by (simp add: map_of_eq_None_iff)

lemma insert_fork_edge_Inr:
  "insert_fork_edge d e off =
     (case get_fork_edge_tx d e of
        Some o' \<Rightarrow> Inr (d, o')
      | None \<Rightarrow> Inr (d\<lparr>db_fork_edges := db_fork_edges d @ [(e, off)]\<rparr>, off))"
  by (auto simp: insert_fork_edge_def get_fork_edge_tx_def key_in_map Let_def map_add_def
      split: option.splits)

interpretation edge_table: keyed_table get_fork_edge_tx edge_table_insert delete_fork_edge
proof
  fix d :: db and e off e'
  show "get_fork_edge_tx (edge_table_insert d e off) e' =
      (if e' = e \<and> get_fork_edge_tx d e = None then Some off else get_fork_edge_tx d e')"
    by (auto simp: edge_table_insert_def insert_fork_edge_Inr get_fork_edge_tx_def map_add_def
        split: option.splits)
  show "get_fork_edge_tx (delete_fork_edge d e) e' = (if e' = e then None else get_fork_edge_tx d e')"
    by (simp add: get_fork_edge_tx_def delete_fork_edge_def map_of_filter_key)
qed

interpretation intent_table: keyed_table intent_lookup "\<lambda>d e (parent, key). put_fork_intent d e parent key"
  delete_fork_intent
proof
  fix d :: db and e e' and v :: "string \<times> string"
  show "intent_lookup (case v of (parent, key) \<Rightarrow> put_fork_intent d e parent key) e' =
      (if e' = e \<and> intent_lookup d e = None then Some v else intent_lookup d e')"
    by (cases v) (auto simp: intent_lookup_def put_fork_intent_def find_snoc key_in_table
        split: option.splits)
  show "intent_lookup (delete_fork_intent d e) e' = (if e' = e then None else intent_lookup d e')"
    by (simp add: intent_lookup_def delete_fork_intent_def find_filter_key)
qed

interpretation release_table: keyed_table release_lookup "\<lambda>d e (parent, gen). enqueue_gc_release d e parent gen"
  dequeue_gc_release
proof
  fix d :: db and e e' and v :: "string \<times> string option"
  show "release_lookup (case v of (parent, gen) \<Rightarrow> enqueue_gc_release d e parent gen) e' =
      (if e' = e \<and> release_lookup d e = None then Some v else release_lookup d e')"
    by (cases v) (auto simp: release_lookup_def enqueue_gc_release_def find_snoc key_in_table
        split: option.splits)
  show "release_lookup (dequeue_gc_release d e) e' = (if e' = e then None else release_lookup d e')"
    by (simp add: release_lookup_def dequeue_gc_release_def find_filter_key)
qed

end
