(* ===== verification/Log.thy ===== *)
theory Log
  imports Store
begin

text \<open>
  The message log of one stream: what \<open>append_message\<close> does to it, the invariant its offsets keep,
  and what a range read returns of it.
\<close>

subsection \<open>Appending\<close>

lemma concat_chunks: "0 < n \<Longrightarrow> concat (chunks n xs) = xs"
proof (induction n xs rule: chunks.induct)
  case (1 n xs)
  then show ?case
    by (cases "xs = []") (simp add: chunks.simps, simp add: chunks.simps [of n xs])
qed

lemma chunks_bounded: "c \<in> set (chunks n xs) \<Longrightarrow> 0 < length c \<and> length c \<le> n"
proof (induction n xs rule: chunks.induct)
  case (1 n xs)
  then show ?case by (auto simp: chunks.simps [of n xs] split: if_splits)
qed

lemma append_data_last:
  assumes "msg_offset m = off" and "off \<notin> msg_offset ` set ms" and "db_messages tx = ms @ [m]"
  shows "append_data tx off c = tx\<lparr>db_messages := ms @ [m\<lparr>msg_data := msg_data m @ c\<rparr>]\<rparr>"
proof -
  have "map (\<lambda>x. if msg_offset x = off then x\<lparr>msg_data := msg_data x @ c\<rparr> else x) ms = ms"
    using assms(2) by (intro map_idI) auto
  with assms show ?thesis by (simp add: append_data_def)
qed

lemma append_chunks_last:
  assumes "msg_offset m = off" and "off \<notin> msg_offset ` set ms" and "db_messages tx = ms @ [m]"
  shows "foldl (\<lambda>t c. append_data t off c) tx cs
           = tx\<lparr>db_messages := ms @ [m\<lparr>msg_data := msg_data m @ concat cs\<rparr>]\<rparr>"
  using assms
proof (induction cs arbitrary: tx m)
  case Nil
  then show ?case by simp
next
  case (Cons c cs)
  then show ?case
    by (simp add: append_data_last Cons.IH [of "m\<lparr>msg_data := msg_data m @ c\<rparr>"])
qed

text \<open>The whole of \<open>append_message\<close>: the chunked writes amount to one row with the payload.\<close>

lemma append_message_eq:
  "append_message tx current payload now =
     result_bind (advance_offset current (length payload)) (\<lambda>nxt.
       if nxt \<in> msg_offset ` set (db_messages tx)
       then Inl ''UNIQUE constraint failed: messages.msg_offset''
       else Inr (tx\<lparr>db_messages := db_messages tx @ [\<lparr>msg_offset = nxt, msg_data = payload, msg_ts = now\<rparr>],
                    db_meta := map_option (\<lambda>m. m\<lparr>current_offset := nxt\<rparr>) (db_meta tx)\<rparr>, nxt))"
proof (cases "advance_offset current (length payload)")
  case (Inr nxt)
  show ?thesis
  proof (cases "nxt \<in> msg_offset ` set (db_messages tx)")
    case False
    let ?row = "\<lparr>msg_offset = nxt, msg_data = [], msg_ts = now\<rparr>"
    have "foldl (\<lambda>t c. append_data t nxt c) (tx\<lparr>db_messages := db_messages tx @ [?row]\<rparr>)
            (chunks SQLITE_BIND_CHUNK_BYTES payload)
          = tx\<lparr>db_messages := db_messages tx @ [?row\<lparr>msg_data := payload\<rparr>]\<rparr>"
      by (subst append_chunks_last [where m = ?row and ms = "db_messages tx"])
        (simp_all add: False concat_chunks SQLITE_BIND_CHUNK_BYTES_def)
    with Inr False show ?thesis
      by (simp add: append_message_def insert_message_def update_meta_def Let_def)
  qed (simp add: Inr append_message_def insert_message_def)
qed (simp add: append_message_def)

subsection \<open>The frames of a log\<close>

text \<open>
  Each message sits behind the previous one at a distance of its length plus five, the size of
  the frame header that \<open>advance_offset\<close> accounts for.
\<close>

fun framed :: "nat \<Rightarrow> message list \<Rightarrow> bool" where
  "framed n [] \<longleftrightarrow> True"
| "framed n (m # ms) \<longleftrightarrow>
     msg_offset m = offset_text (n + 5 + length (msg_data m)) \<and> framed (n + 5 + length (msg_data m)) ms"

fun log_end :: "nat \<Rightarrow> message list \<Rightarrow> nat" where
  "log_end n [] = n"
| "log_end n (m # ms) = log_end (n + 5 + length (msg_data m)) ms"

text \<open>The offset a stream starts from: the fork point, or zero.\<close>

definition base_offset :: "meta \<Rightarrow> string" where
  "base_offset m =
     (if forked_from m \<noteq> None then (case fork_offset m of Some f \<Rightarrow> f | None \<Rightarrow> ZERO_OFFSET) else ZERO_OFFSET)"

lemma base_offset_update [simp]:
  "base_offset (m\<lparr>current_offset := x\<rparr>) = base_offset m"
  "base_offset (m\<lparr>last_accessed_at := t\<rparr>) = base_offset m"
  "base_offset (m\<lparr>last_seq := q\<rparr>) = base_offset m"
  "base_offset (m\<lparr>closed := c, closed_by := b\<rparr>) = base_offset m"
  "base_offset (m\<lparr>soft_deleted := c\<rparr>) = base_offset m"
  by (simp_all add: base_offset_def)

definition wf_log :: "db \<Rightarrow> bool" where
  "wf_log d \<longleftrightarrow>
     (case db_meta d of
        None \<Rightarrow> db_messages d = []
      | Some m \<Rightarrow>
          stream_offset (base_offset m)
          \<and> framed (offset_val (base_offset m)) (db_messages d)
          \<and> current_offset m =
              (if db_messages d = [] then base_offset m else msg_offset (last (db_messages d))))"

lemma framed_append:
  "framed n (ms @ ks) \<longleftrightarrow> framed n ms \<and> framed (log_end n ms) ks"
  by (induction ms arbitrary: n) auto

lemma log_end_append [simp]: "log_end n (ms @ ks) = log_end (log_end n ms) ks"
  by (induction ms arbitrary: n) auto

lemma log_end_sum: "log_end n ms = n + (\<Sum>m \<leftarrow> ms. 5 + length (msg_data m))"
  by (induction ms arbitrary: n) auto

lemma log_end_ge: "n \<le> log_end n ms"
  by (simp add: log_end_sum)

lemma framed_offset_val:
  "framed n ms \<Longrightarrow> m \<in> set ms \<Longrightarrow>
     msg_offset m = offset_text (offset_val (msg_offset m)) \<and> n < offset_val (msg_offset m)
       \<and> offset_val (msg_offset m) \<le> log_end n ms"
proof (induction ms arbitrary: n)
  case (Cons k ms)
  show ?case
  proof (cases "m = k")
    case True
    with Cons show ?thesis using log_end_ge [of "n + 5 + length (msg_data k)" ms] by simp
  next
    case False
    with Cons.prems have "framed (n + 5 + length (msg_data k)) ms" and "m \<in> set ms" by auto
    from Cons.IH [OF this] have "msg_offset m = offset_text (offset_val (msg_offset m))
        \<and> n + 5 + length (msg_data k) < offset_val (msg_offset m)
        \<and> offset_val (msg_offset m) \<le> log_end n (k # ms)"
      by (simp only: log_end.simps)
    then show ?thesis by (elim conjE, intro conjI) (assumption, linarith, assumption)
  qed
qed simp

lemma framed_last: "framed n ms \<Longrightarrow> ms \<noteq> [] \<Longrightarrow> msg_offset (last ms) = offset_text (log_end n ms)"
  by (induction ms arbitrary: n) auto

lemma framed_vals_sorted: "framed n ms \<Longrightarrow> sorted_wrt (<) (map (offset_val \<circ> msg_offset) ms)"
proof (induction ms arbitrary: n)
  case (Cons k ms)
  then have fr: "framed (n + 5 + length (msg_data k)) ms"
    and k: "msg_offset k = offset_text (n + 5 + length (msg_data k))" by simp_all
  then have "\<forall>x \<in> set ms. offset_val (msg_offset k) < offset_val (msg_offset x)"
    using framed_offset_val [OF fr] by simp
  with Cons.IH [OF fr] show ?case by simp
qed simp

text \<open>Up to ten petabytes the texts of the offsets are ordered like the log.\<close>

lemma framed_strictly_sorted:
  "framed n ms \<Longrightarrow> log_end n ms < 10 ^ 16 \<Longrightarrow> strictly_sorted_by msg_offset ms"
proof (induction ms arbitrary: n)
  case (Cons k ms)
  let ?n = "n + 5 + length (msg_data k)"
  have fr: "framed ?n ms" and off: "msg_offset k = offset_text ?n" and small: "log_end ?n ms < 10 ^ 16"
    using Cons.prems by auto
  have "msg_offset k < msg_offset x" if "x \<in> set ms" for x
  proof -
    have x: "msg_offset x = offset_text (offset_val (msg_offset x))" "?n < offset_val (msg_offset x)"
      "offset_val (msg_offset x) \<le> log_end ?n ms"
      using framed_offset_val [OF fr that] by auto
    with small have "offset_text ?n < offset_text (offset_val (msg_offset x))"
      by (subst offset_text_less_iff) auto
    with off x(1) show ?thesis by simp
  qed
  with Cons.IH [OF fr small] show ?case by simp
qed simp

lemma wf_log_Some:
  assumes "wf_log d" and "db_meta d = Some m"
  shows "stream_offset (current_offset m)"
    and "offset_val (current_offset m) = log_end (offset_val (base_offset m)) (db_messages d)"
    and "framed (offset_val (base_offset m)) (db_messages d)"
    and "stream_offset (base_offset m)"
  using assms framed_last [of "offset_val (base_offset m)" "db_messages d"]
  by (auto simp: wf_log_def)

text \<open>The next offset is never in the table, so the insert of \<open>append_message\<close> cannot fail.\<close>

lemma next_offset_fresh:
  assumes "framed n ms" and "log_end n ms < k"
  shows "offset_text k \<notin> msg_offset ` set ms"
proof
  assume "offset_text k \<in> msg_offset ` set ms"
  then obtain m where "m \<in> set ms" "msg_offset m = offset_text k" by auto
  with framed_offset_val [OF assms(1)] assms(2) show False by fastforce
qed

lemma append_message_wf:
  assumes "wf_log d" and "db_meta d = Some m"
  shows "append_message d (current_offset m) payload now =
    result_bind (advance_offset (current_offset m) (length payload)) (\<lambda>nxt.
      Inr (d\<lparr>db_messages := db_messages d @ [\<lparr>msg_offset = nxt, msg_data = payload, msg_ts = now\<rparr>],
             db_meta := Some (m\<lparr>current_offset := nxt\<rparr>)\<rparr>, nxt))"
proof -
  note wf = wf_log_Some [OF assms]
  have "nxt \<notin> msg_offset ` set (db_messages d)"
    if "advance_offset (current_offset m) (length payload) = Inr nxt" for nxt
    using advance_stream_offset_InrD [OF that wf(1)] wf(2) next_offset_fresh [OF wf(3)] by simp
  with assms(2) show ?thesis
    by (cases "advance_offset (current_offset m) (length payload)") (auto simp: append_message_eq)
qed

lemma append_message_keeps_wf_log:
  assumes "wf_log d" and "db_meta d = Some m"
    and "append_message d (current_offset m) payload now = Inr (d', nxt)"
  shows "wf_log d'"
proof -
  note wf = wf_log_Some [OF assms(1,2)]
  from assms(3) have adv: "advance_offset (current_offset m) (length payload) = Inr nxt"
    and d': "d' = d\<lparr>db_messages := db_messages d @ [\<lparr>msg_offset = nxt, msg_data = payload, msg_ts = now\<rparr>],
             db_meta := Some (m\<lparr>current_offset := nxt\<rparr>)\<rparr>"
    by (auto simp: append_message_wf [OF assms(1,2)] result_bind_Inr_iff)
  show ?thesis
    using advance_stream_offset_InrD [OF adv wf(1)] wf
    by (simp add: d' wf_log_def framed_append)
qed

lemma wf_log_update_meta:
  assumes "wf_log d"
    and "\<And>m. base_offset (f m) = base_offset m" and "\<And>m. current_offset (f m) = current_offset m"
  shows "wf_log (update_meta f d)"
  using assms by (auto simp: wf_log_def update_meta_def split: option.splits)

lemma wf_log_cong:
  "db_meta d' = db_meta d \<Longrightarrow> db_messages d' = db_messages d \<Longrightarrow> wf_log d' \<longleftrightarrow> wf_log d"
  by (simp add: wf_log_def split: option.split)

subsection \<open>Range reads\<close>

abbreviation data_size :: "message list \<Rightarrow> nat" where
  "data_size ms \<equiv> (\<Sum>m \<leftarrow> ms. length (msg_data m))"

text \<open>How many rows the length loop selects, starting from nothing.\<close>

definition fit_count :: "nat \<Rightarrow> nat \<Rightarrow> bool \<Rightarrow> message list \<Rightarrow> nat" where
  "fit_count limit budget allow_first ms = fst (select_fitting limit budget allow_first ms 0 0 None)"

lemma select_fitting_spec:
  "sel \<le> limit \<Longrightarrow> \<exists>k. select_fitting limit budget allow ms sel used l =
       (sel + k, if k = 0 then l else Some (msg_offset (ms ! (k - 1))))
     \<and> k \<le> length ms \<and> sel + k \<le> limit
     \<and> (used \<le> budget \<longrightarrow> used + data_size (take k ms) \<le> budget \<or> (allow \<and> sel = 0 \<and> k = 1))
     \<and> (budget < used \<and> 0 < sel \<longrightarrow> k = 0)
     \<and> (k < length ms \<longrightarrow> sel + k = limit
          \<or> ((0 < sel + k \<or> \<not> allow) \<and> budget < used + data_size (take (Suc k) ms)))"
proof (induction ms arbitrary: sel used l)
  case Nil
  then show ?case by (intro exI [of _ 0]) simp
next
  case (Cons m ms)
  show ?case
  proof (cases "sel = limit \<or> ((0 < sel \<or> \<not> allow) \<and> budget < used + length (msg_data m))")
    case True
    with Cons.prems show ?thesis by (intro exI [of _ 0]) auto
  next
    case False
    let ?u = "used + length (msg_data m)"
    from False Cons.prems have "Suc sel \<le> limit" by auto
    from Cons.IH [OF this, of ?u "Some (msg_offset m)"] obtain k where
      k: "select_fitting limit budget allow ms (Suc sel) ?u (Some (msg_offset m)) =
            (Suc sel + k, if k = 0 then Some (msg_offset m) else Some (msg_offset (ms ! (k - 1))))"
      and len: "k \<le> length ms" "Suc sel + k \<le> limit"
      and fits: "?u \<le> budget \<longrightarrow> ?u + data_size (take k ms) \<le> budget"
      and over: "budget < ?u \<longrightarrow> k = 0"
      and stop: "k < length ms \<longrightarrow> Suc sel + k = limit \<or> budget < ?u + data_size (take (Suc k) ms)"
      by auto
    have "used + data_size (take (Suc k) (m # ms)) \<le> budget \<or> (allow \<and> sel = 0 \<and> Suc k = 1)"
      using False fits over by (cases "?u \<le> budget") auto
    moreover have "\<not> (budget < used \<and> 0 < sel)" using False by auto
    moreover have "(m # ms) ! (Suc k - 1) = (if k = 0 then m else ms ! (k - 1))"
      by (simp add: nth_Cons')
    ultimately show ?thesis
      using False k len stop by (intro exI [of _ "Suc k"]) auto
  qed
qed

lemma fit_count_spec:
  fixes budget allow limit ms
  defines "k \<equiv> fit_count limit budget allow ms"
  shows "k \<le> length ms" and "k \<le> limit"
    and "data_size (take k ms) \<le> budget \<or> (allow \<and> k = 1)"
    and "k < length ms \<Longrightarrow> k = limit \<or> ((0 < k \<or> \<not> allow) \<and> budget < data_size (take (Suc k) ms))"
    and "select_fitting limit budget allow ms 0 0 None =
           (k, if k = 0 then None else Some (msg_offset (ms ! (k - 1))))"
proof -
  obtain j where j: "select_fitting limit budget allow ms 0 0 None =
       (j, if j = 0 then None else Some (msg_offset (ms ! (j - 1))))"
     "j \<le> length ms" "j \<le> limit"
     "data_size (take j ms) \<le> budget \<or> (allow \<and> j = 1)"
     "j < length ms \<longrightarrow> j = limit \<or> ((0 < j \<or> \<not> allow) \<and> budget < data_size (take (Suc j) ms))"
    using select_fitting_spec [of 0 limit budget allow ms 0 None] by auto
  then have "k = j" by (simp add: k_def fit_count_def)
  with j show "k \<le> length ms" "k \<le> limit" "data_size (take k ms) \<le> budget \<or> (allow \<and> k = 1)"
    "k < length ms \<Longrightarrow> k = limit \<or> ((0 < k \<or> \<not> allow) \<and> budget < data_size (take (Suc k) ms))"
    "select_fitting limit budget allow ms 0 0 None =
           (k, if k = 0 then None else Some (msg_offset (ms ! (k - 1))))"
    by auto
qed

lemma select_fitting_take:
  "sel \<le> limit \<Longrightarrow> limit - sel \<le> n \<Longrightarrow>
     select_fitting limit budget allow (take n ms) sel used l = select_fitting limit budget allow ms sel used l"
proof (induction ms arbitrary: n sel used l)
  case (Cons m ms)
  then show ?case by (cases n) auto
qed simp

lemma fit_count_take: "limit \<le> n \<Longrightarrow> fit_count limit budget allow (take n ms) = fit_count limit budget allow ms"
  by (simp add: fit_count_def select_fitting_take)

text \<open>The rows a range query selects, in the order of the table.\<close>

definition rows_between :: "db \<Rightarrow> string \<Rightarrow> string option \<Rightarrow> message list" where
  "rows_between d after cap =
     filter (\<lambda>m. after < msg_offset m \<and> (case cap of None \<Rightarrow> True | Some c \<Rightarrow> msg_offset m \<le> c))
       (db_messages d)"

definition sorted_db :: "db \<Rightarrow> bool" where
  "sorted_db d \<longleftrightarrow> strictly_sorted_by msg_offset (db_messages d)"

lemma rows_between_sorted: "sorted_db d \<Longrightarrow> strictly_sorted_by msg_offset (rows_between d after cap)"
  by (simp add: rows_between_def sorted_db_def strictly_sorted_by_filter)

lemma select_range_eq: "sorted_db d \<Longrightarrow> select_range d after cap = rows_between d after cap"
  using rows_between_sorted [of d after cap]
  by (simp add: select_range_def rows_between_def sort_key_strictly_sorted)

lemma read_messages_range_eq:
  fixes after cap limit budget allow
  assumes "sorted_db d" and "limit \<le> MAX_READ_ROWS"
  defines "rows \<equiv> rows_between d (normalize_after after) cap"
  defines "k \<equiv> fit_count limit budget allow rows"
  shows "read_messages_range d d after cap limit budget allow =
           \<lparr>rb_messages = map stored (take k rows), rb_capped = k < length rows\<rparr>"
proof -
  have rows: "select_range d (normalize_after after) cap = rows"
    using assms(1) by (simp add: rows_def select_range_eq)
  have scan: "min limit MAX_READ_ROWS = limit"
    using assms(2) by simp
  let ?seen = "take (limit + 1) rows"
  have k: "fit_count limit budget allow ?seen = k"
    by (simp only: k_def) (rule fit_count_take, simp)
  have sel: "select_fitting limit budget allow ?seen 0 0 None =
      (k, if k = 0 then None else Some (msg_offset (?seen ! (k - 1))))"
    using fit_count_spec(5) [of limit budget allow ?seen] by (simp only: k)
  have le: "k \<le> length rows" "k \<le> limit"
    using fit_count_spec(1,2) [of limit budget allow rows] by (simp_all add: k_def)
  then have capped: "k < length ?seen \<longleftrightarrow> k < length rows" by auto
  show ?thesis
  proof (cases "k = 0")
    case True
    with sel capped show ?thesis by (simp add: read_messages_range_def rows scan Let_def)
  next
    case False
    with le have "?seen ! (k - 1) = rows ! (k - 1)" by simp
    moreover have "filter (\<lambda>m. msg_offset m \<le> msg_offset (rows ! (k - 1))) rows = take k rows"
      using False le rows_between_sorted [OF assms(1)]
      by (intro filter_le_last_take) (auto simp: rows_def)
    ultimately show ?thesis
      using False sel capped by (simp add: read_messages_range_def rows scan Let_def)
  qed
qed

text \<open>
  Rows appended between the two queries do not show: they all sort behind the rows the first
  query saw.
\<close>

lemma rows_between_append:
  assumes "db_messages d2 = db_messages d1 @ ks"
  shows "\<exists>js. rows_between d2 after cap = rows_between d1 after cap @ js \<and> set js \<subseteq> set ks"
  using assms by (auto simp: rows_between_def)

lemma read_messages_range_stable:
  assumes "sorted_db d2" and "db_messages d2 = db_messages d1 @ ks" and "limit \<le> MAX_READ_ROWS"
  shows "read_messages_range d1 d2 after cap limit budget allow
           = read_messages_range d1 d1 after cap limit budget allow"
proof -
  have s1: "sorted_db d1" and ks: "\<forall>m \<in> set (db_messages d1). \<forall>q \<in> set ks. msg_offset m < msg_offset q"
    using assms by (auto simp: sorted_db_def strictly_sorted_by_append)
  let ?a = "normalize_after after"
  obtain js where js: "rows_between d2 ?a cap = rows_between d1 ?a cap @ js" "set js \<subseteq> set ks"
    using rows_between_append [OF assms(2)] by blast
  let ?seen = "take (min (limit + 1) (MAX_READ_ROWS + 1)) (rows_between d1 ?a cap)"
  obtain k l where sel: "select_fitting limit budget allow ?seen 0 0 None = (k, l)"
    by (cases "select_fitting limit budget allow ?seen 0 0 None")
  have "filter (\<lambda>m. msg_offset m \<le> x) js = []" if "l = Some x" for x
  proof -
    from sel that have "x = msg_offset (?seen ! (k - 1))" "0 < k" "k \<le> length ?seen"
      using fit_count_spec(1,5) [of limit budget allow ?seen] by (auto split: if_splits)
    then have "?seen ! (k - 1) \<in> set ?seen" by (intro nth_mem) linarith
    then have "?seen ! (k - 1) \<in> set (db_messages d1)"
      by (auto simp: rows_between_def dest!: in_set_takeD)
    with ks js(2) \<open>x = _\<close> show ?thesis by (fastforce simp: filter_empty_conv)
  qed
  then show ?thesis
    using sel assms(1) s1 js(1)
    by (auto simp: read_messages_range_def select_range_eq Let_def split: option.splits)
qed

end
