(* ===== verification/Producer.thy ===== *)
theory Producer
  imports Log
begin

text \<open>
  \<open>src/actor/producer.rs\<close>: idempotent producers. A producer numbers its appends within an epoch;
  the stream remembers the last number of each producer, rejects gaps and stale epochs, and
  answers a repeated number without appending again.
\<close>

record producer_headers =
  ph_id :: string
  ph_epoch :: int
  ph_seq :: int

datatype producer_validation =
    Accepted producer_state
  | Duplicate int
  | StaleEpoch int
  | InvalidEpochSeq
  | SequenceGap int int

text \<open>The three headers together, or none of them.\<close>

definition combine_producer ::
  "'j ext \<Rightarrow> bytes option \<Rightarrow> string option \<Rightarrow> string option \<Rightarrow> producer_headers option result" where
  "combine_producer E pid epoch seq =
     (case (pid, epoch, seq) of
        (None, None, None) \<Rightarrow> Inr None
      | (Some i, Some e, Some s) \<Rightarrow>
          if i = [] then Inl ''Invalid Producer-Id: must not be empty''
          else result_bind (parse_non_negative_safe_integer e ''Producer-Epoch'') (\<lambda>e'.
               result_bind (parse_non_negative_safe_integer s ''Producer-Seq'') (\<lambda>s'.
                 Inr (Some \<lparr>ph_id = b64url_encode E i, ph_epoch = e', ph_seq = s'\<rparr>)))
      | _ \<Rightarrow> Inl ''All producer headers (Producer-Id, Producer-Epoch, Producer-Seq) must be provided together'')"

definition parse_producer :: "'j ext \<Rightarrow> request \<Rightarrow> producer_headers option result" where
  "parse_producer E req =
     result_bind (public_header_bytes E req PRODUCER_ID) (\<lambda>pid.
     result_bind (public_header_text E req PRODUCER_EPOCH) (\<lambda>epoch.
     result_bind (public_header_text E req PRODUCER_SEQ) (\<lambda>seq.
       combine_producer E pid epoch seq)))"

definition validate_producer :: "producer_state option \<Rightarrow> producer_headers \<Rightarrow> int \<Rightarrow> producer_validation" where
  "validate_producer state p now =
     (case state of
        None \<Rightarrow>
          if ph_seq p = 0
          then Accepted \<lparr>ps_epoch = ph_epoch p, ps_last_seq = 0, ps_last_updated = now\<rparr>
          else SequenceGap 0 (ph_seq p)
      | Some st \<Rightarrow>
          if ph_epoch p < ps_epoch st then StaleEpoch (ps_epoch st)
          else if ps_epoch st < ph_epoch p then
            (if ph_seq p = 0
             then Accepted \<lparr>ps_epoch = ph_epoch p, ps_last_seq = 0, ps_last_updated = now\<rparr>
             else InvalidEpochSeq)
          else if ph_seq p \<le> ps_last_seq st then Duplicate (ps_last_seq st)
          else if ph_seq p = ps_last_seq st + 1
          then Accepted \<lparr>ps_epoch = ph_epoch p, ps_last_seq = ph_seq p, ps_last_updated = now\<rparr>
          else SequenceGap (ps_last_seq st + 1) (ph_seq p))"

definition producer_failure ::
  "producer_validation \<Rightarrow> producer_headers \<Rightarrow> meta \<Rightarrow> bool \<Rightarrow> resp result" where
  "producer_failure failure p m close_only =
     (case failure of
        Duplicate n \<Rightarrow>
          response 204
            ([(PRODUCER_EPOCH, show_int (ph_epoch p)), (PRODUCER_SEQ, show_int n)]
             @ (if close_only
                then (STREAM_OFFSET, current_offset m) # (if closed m then [(STREAM_CLOSED, ''true'')] else [])
                else [])) []
      | StaleEpoch cur \<Rightarrow> text_response 403 ''Stale producer epoch'' [(PRODUCER_EPOCH, show_int cur)]
      | InvalidEpochSeq \<Rightarrow> text_response 400 ''New epoch must start with sequence 0'' []
      | SequenceGap expected received \<Rightarrow>
          text_response 409 ''Producer sequence gap''
            [(PRODUCER_EXPECTED_SEQ, show_int expected), (PRODUCER_RECEIVED_SEQ, show_int received)]
      | Accepted _ \<Rightarrow> Inl ''accepted producer used as failure'')"

definition producer_headers_of :: "producer_headers option \<Rightarrow> (string \<times> string) list" where
  "producer_headers_of p =
     (case p of
        None \<Rightarrow> []
      | Some p \<Rightarrow> [(PRODUCER_EPOCH, show_int (ph_epoch p)), (PRODUCER_SEQ, show_int (ph_seq p))])"

definition producer_success :: "string \<Rightarrow> producer_headers option \<Rightarrow> bool \<Rightarrow> resp result" where
  "producer_success off p cl =
     response (if p \<noteq> None then 200 else 204)
       ([(STREAM_OFFSET, off)] @ producer_headers_of p @ (if cl then [(STREAM_CLOSED, ''true'')] else [])) []"

definition close_success :: "string \<Rightarrow> producer_headers option \<Rightarrow> resp result" where
  "close_success off p =
     response 204 ([(STREAM_OFFSET, off), (STREAM_CLOSED, ''true'')] @ producer_headers_of p) []"

definition closed_by_matches :: "'j ext \<Rightarrow> meta \<Rightarrow> producer_headers \<Rightarrow> bool" where
  "closed_by_matches E m p =
     (case Option.bind (Store.closed_by m) (closed_by_from_json E) of
        None \<Rightarrow> False
      | Some c \<Rightarrow> cb_producer_id c = ph_id p \<and> cb_epoch c = ph_epoch p \<and> cb_seq c = ph_seq p)"

definition closed_by_of :: "producer_headers \<Rightarrow> closed_by" where
  "closed_by_of p = \<lparr>cb_producer_id = ph_id p, cb_epoch = ph_epoch p, cb_seq = ph_seq p\<rparr>"

subsection \<open>Positions\<close>

text \<open>A producer's position: its epoch, then its sequence number.\<close>

datatype producer_pos = Pos (pos_epoch: int) (pos_seq: int)

instantiation producer_pos :: linorder
begin

definition less_eq_producer_pos :: "producer_pos \<Rightarrow> producer_pos \<Rightarrow> bool" where
  "less_eq_producer_pos p q \<longleftrightarrow>
     pos_epoch p < pos_epoch q \<or> (pos_epoch p = pos_epoch q \<and> pos_seq p \<le> pos_seq q)"

definition less_producer_pos :: "producer_pos \<Rightarrow> producer_pos \<Rightarrow> bool" where
  "less_producer_pos p q \<longleftrightarrow>
     pos_epoch p < pos_epoch q \<or> (pos_epoch p = pos_epoch q \<and> pos_seq p < pos_seq q)"

instance
  by standard (auto simp: less_eq_producer_pos_def less_producer_pos_def producer_pos.expand)

end

definition state_pos :: "producer_state \<Rightarrow> producer_pos" where
  "state_pos st = Pos (ps_epoch st) (ps_last_seq st)"

definition headers_pos :: "producer_headers \<Rightarrow> producer_pos" where
  "headers_pos p = Pos (ph_epoch p) (ph_seq p)"

text \<open>The successor positions: the next number of the epoch, or number 0 of a later epoch.\<close>

definition next_pos :: "producer_pos \<Rightarrow> producer_pos \<Rightarrow> bool" where
  "next_pos p q \<longleftrightarrow>
     (pos_epoch q = pos_epoch p \<and> pos_seq q = pos_seq p + 1) \<or> (pos_epoch p < pos_epoch q \<and> pos_seq q = 0)"

lemma next_pos_less: "next_pos p q \<Longrightarrow> p < q"
  by (auto simp: next_pos_def less_producer_pos_def)

lemma validate_accepted:
  assumes "validate_producer st p now = Accepted st'"
  shows "st' = \<lparr>ps_epoch = ph_epoch p, ps_last_seq = ph_seq p, ps_last_updated = now\<rparr>"
    and "state_pos st' = headers_pos p"
    and "case st of None \<Rightarrow> ph_seq p = 0 | Some s \<Rightarrow> next_pos (state_pos s) (headers_pos p)"
  using assms
  by (auto simp: validate_producer_def state_pos_def headers_pos_def next_pos_def
      split: option.splits if_splits)

lemma validate_accepts:
  "(case st of None \<Rightarrow> ph_seq p = 0 | Some s \<Rightarrow> next_pos (state_pos s) (headers_pos p)) \<Longrightarrow>
     \<exists>st'. validate_producer st p now = Accepted st'"
  by (auto simp: validate_producer_def state_pos_def headers_pos_def next_pos_def
      split: option.splits)

lemma validate_duplicate_iff:
  "validate_producer st p now = Duplicate n \<longleftrightarrow>
     (\<exists>s. st = Some s \<and> ph_epoch p = ps_epoch s \<and> ph_seq p \<le> ps_last_seq s \<and> n = ps_last_seq s)"
  by (auto simp: validate_producer_def split: option.splits)

text \<open>The positions a run of requests gets accepted, from a remembered state.\<close>

fun accepted_run :: "producer_state option \<Rightarrow> (producer_headers \<times> int) list \<Rightarrow> producer_headers list" where
  "accepted_run st [] = []"
| "accepted_run st ((p, now) # rs) =
     (case validate_producer st p now of
        Accepted st' \<Rightarrow> p # accepted_run (Some st') rs
      | _ \<Rightarrow> accepted_run st rs)"

fun chain_from :: "producer_pos option \<Rightarrow> producer_pos list \<Rightarrow> bool" where
  "chain_from prev [] \<longleftrightarrow> True"
| "chain_from prev (q # qs) \<longleftrightarrow>
     (case prev of None \<Rightarrow> pos_seq q = 0 | Some p \<Rightarrow> next_pos p q) \<and> chain_from (Some q) qs"

lemma accepted_run_chain:
  "chain_from (map_option state_pos st) (map headers_pos (accepted_run st rs))"
proof (induction st rs rule: accepted_run.induct)
  case (2 st p now rs)
  show ?case
  proof (cases "validate_producer st p now")
    case (Accepted st')
    note st' = validate_accepted(2) [OF this] and ok = validate_accepted(3) [OF this]
    from ok have "case map_option state_pos st of
        None \<Rightarrow> pos_seq (headers_pos p) = 0 | Some q \<Rightarrow> next_pos q (headers_pos p)"
      by (cases st) (simp_all add: headers_pos_def)
    with 2 Accepted st' show ?thesis by simp
  qed (use 2 in simp_all)
qed simp

lemma chain_sorted: "chain_from (Some p) qs \<Longrightarrow> sorted_wrt (<) (p # qs)"
proof (induction qs arbitrary: p)
  case (Cons q qs)
  then have "sorted_wrt (<) (q # qs)" and "p < q" by (auto dest: next_pos_less)
  then show ?case by (auto intro: less_trans)
qed simp

lemma chain_sorted_None: "chain_from None qs \<Longrightarrow> sorted_wrt (<) qs"
  by (cases qs) (auto dest: chain_sorted)

end
