(* ===== verification/Actor.thy ===== *)
theory Actor
  imports Producer "HOL-Library.Word"
begin

text \<open>
  The world the handlers run in. \<open>world\<close> maps a stream path to its actor: the committed database,
  the change counter that wakes live readers, and the maintenance events it has scheduled. (The
  actor key is a hash of tenant scope and path; within one tenant the path names the actor.) An
  action \<open>'a act\<close> is a state transformer with an error result: \<open>?\<close> in the source is \<open>and_then\<close>.

  What can go wrong outside the program's control is the list \<open>w_faults\<close>, consumed one entry per
  call that can fail: starting a transaction, scheduling an event, calling another actor. \<open>Ok\<close>
  lets the call through, \<open>Lost\<close> makes it fail with no effect, \<open>LostReply\<close> makes a remote call
  take effect and then fail. A transaction that cannot be completed has no effect, so a failure
  at any of its statements or at its commit is the failure of its start.
\<close>

datatype alarm = After int | At int
datatype fault = Ok | Lost | LostReply

record actor =
  a_db :: db
  a_changes :: "64 word"
  a_alarms :: "alarm list"

record world =
  w_actors :: "string \<Rightarrow> actor"
  w_clock :: int
  w_uuids :: nat
  w_faults :: "fault list"

type_synonym 'a act = "world \<Rightarrow> 'a result \<times> world"

subsection \<open>Effects\<close>

definition ret :: "'a \<Rightarrow> 'a act" where
  "ret x w = (Inr x, w)"

definition throw :: "string \<Rightarrow> 'a act" where
  "throw e w = (Inl e, w)"

definition and_then :: "'a act \<Rightarrow> ('a \<Rightarrow> 'b act) \<Rightarrow> 'b act" where
  "and_then m f w = (case m w of (Inl e, w') \<Rightarrow> (Inl e, w') | (Inr x, w') \<Rightarrow> f x w')"

text \<open>The result of an action as a value, for \<open>match\<close> and \<open>is_ok\<close>.\<close>

definition attempt :: "'a act \<Rightarrow> 'a result act" where
  "attempt m w = (case m w of (r, w') \<Rightarrow> (Inr r, w'))"

definition lift_result :: "'a result \<Rightarrow> 'a act" where
  "lift_result r w = (r, w)"

definition next_fault :: "fault act" where
  "next_fault w =
     (case w_faults w of [] \<Rightarrow> (Inr Ok, w) | f # fs \<Rightarrow> (Inr f, w\<lparr>w_faults := fs\<rparr>))"

definition update_actor :: "string \<Rightarrow> (actor \<Rightarrow> actor) \<Rightarrow> unit act" where
  "update_actor p f w = (Inr (), w\<lparr>w_actors := (w_actors w)(p := f (w_actors w p))\<rparr>)"

text \<open>\<open>ctx.sql()\<close> outside a transaction reads the committed database.\<close>

definition get_db :: "string \<Rightarrow> db act" where
  "get_db p w = (Inr (a_db (w_actors w p)), w)"

definition get_meta :: "string \<Rightarrow> meta option act" where
  "get_meta p w = (Inr (db_meta (a_db (w_actors w p))), w)"

definition begin_mutation :: "string \<Rightarrow> db act" where
  "begin_mutation p =
     and_then next_fault (\<lambda>f. if f = Ok then get_db p else throw ''transaction failed'')"

definition commit :: "string \<Rightarrow> db \<Rightarrow> unit act" where
  "commit p tx = update_actor p (\<lambda>a. a\<lparr>a_db := tx\<rparr>)"

definition rollback :: "db \<Rightarrow> unit act" where
  "rollback tx = ret ()"

text \<open>\<open>send_modify(|version| *version = version.wrapping_add(1))\<close>.\<close>

definition notify_change :: "string \<Rightarrow> unit act" where
  "notify_change p = update_actor p (\<lambda>a. a\<lparr>a_changes := a_changes a + 1\<rparr>)"

definition schedule :: "string \<Rightarrow> alarm \<Rightarrow> unit act" where
  "schedule p al =
     and_then next_fault (\<lambda>f.
       if f = Ok then update_actor p (\<lambda>a. a\<lparr>a_alarms := a_alarms a @ [al]\<rparr>)
       else throw ''schedule failed'')"

definition now_ms :: "int act" where
  "now_ms w = (Inr (w_clock w), w)"

definition new_uuid :: "'j ext \<Rightarrow> string act" where
  "new_uuid E w = (Inr (new_v4 E (w_uuids w)), w\<lparr>w_uuids := w_uuids w + 1\<rparr>)"

definition remote :: "'a act \<Rightarrow> 'a act" where
  "remote m =
     and_then next_fault (\<lambda>f.
       case f of
         Ok \<Rightarrow> m
       | Lost \<Rightarrow> throw ''action failed''
       | LostReply \<Rightarrow> and_then (attempt m) (\<lambda>_. throw ''action failed''))"

subsection \<open>Evaluating actions\<close>

lemma act_run [act_simps]:
  "ret x w = (Inr x, w)"
  "throw e w = (Inl e, w)"
  "lift_result r w = (r, w)"
  "get_db p w = (Inr (a_db (w_actors w p)), w)"
  "get_meta p w = (Inr (db_meta (a_db (w_actors w p))), w)"
  "now_ms w = (Inr (w_clock w), w)"
  "rollback tx w = (Inr (), w)"
  by (simp_all add: ret_def throw_def lift_result_def get_db_def get_meta_def now_ms_def rollback_def)

lemma and_then_run [act_simps]:
  "m w = (Inr x, w') \<Longrightarrow> and_then m f w = f x w'"
  "m w = (Inl e, w') \<Longrightarrow> and_then m f w = (Inl e, w')"
  by (simp_all add: and_then_def)

lemma and_then_ret [simp]:
  "and_then (ret x) f = f x" "and_then (throw e) f = throw e" "and_then (lift_result (Inr y)) g = g y"
  "and_then (lift_result (Inl e)) g = throw e"
  by (auto simp: fun_eq_iff and_then_def ret_def throw_def lift_result_def)

lemma and_then_assoc: "and_then (and_then m f) g = and_then m (\<lambda>x. and_then (f x) g)"
  by (auto simp: fun_eq_iff and_then_def split: prod.split sum.split)

text \<open>With no fault ahead, transactions start, events are scheduled and calls get through.\<close>

lemma no_fault_run [act_simps]:
  assumes "w_faults w = []"
  shows "begin_mutation p w = (Inr (a_db (w_actors w p)), w)"
    and "schedule p al w = update_actor p (\<lambda>a. a\<lparr>a_alarms := a_alarms a @ [al]\<rparr>) w"
    and "remote m w = m w"
  using assms
  by (simp_all add: begin_mutation_def schedule_def remote_def and_then_def next_fault_def get_db_def)

subsection \<open>Preservation\<close>

text \<open>
  \<open>gives I m Q\<close>: the action keeps the invariant \<open>I\<close> of the world, whether it succeeds or fails
  half-way, and what it returns satisfies \<open>Q\<close>. The rules follow the structure of the handlers.
\<close>

definition gives :: "(world \<Rightarrow> bool) \<Rightarrow> 'a act \<Rightarrow> ('a \<Rightarrow> bool) \<Rightarrow> bool" where
  "gives I m Q \<longleftrightarrow> (\<forall>w. I w \<longrightarrow> I (snd (m w)) \<and> (\<forall>x. fst (m w) = Inr x \<longrightarrow> Q x))"

abbreviation keeps :: "(world \<Rightarrow> bool) \<Rightarrow> 'a act \<Rightarrow> bool" where
  "keeps I m \<equiv> gives I m (\<lambda>_. True)"

lemma givesI:
  "(\<And>w. I w \<Longrightarrow> I (snd (m w))) \<Longrightarrow> (\<And>w x. I w \<Longrightarrow> fst (m w) = Inr x \<Longrightarrow> Q x) \<Longrightarrow> gives I m Q"
  by (simp add: gives_def)

lemma givesD: "gives I m Q \<Longrightarrow> I w \<Longrightarrow> I (snd (m w))"
  by (simp add: gives_def)

lemma gives_weaken: "gives I m Q \<Longrightarrow> (\<And>x. Q x \<Longrightarrow> R x) \<Longrightarrow> gives I m R"
  by (simp add: gives_def)

lemma gives_keeps: "gives I m Q \<Longrightarrow> keeps I m"
  by (simp add: gives_def)

lemma gives_pure [keeps_intros]:
  "Q x \<Longrightarrow> gives I (ret x) Q" "gives I (throw e) Q" "keeps I now_ms" "keeps I (rollback tx)"
  by (simp_all add: gives_def act_simps)

lemma gives_lift: "(\<And>x. r = Inr x \<Longrightarrow> Q x) \<Longrightarrow> gives I (lift_result r) Q"
  by (simp add: gives_def act_simps)

lemma keeps_lift [keeps_intros]: "keeps I (lift_result r)"
  by (simp add: gives_lift)

lemma gives_and_then:
  "gives I m Q \<Longrightarrow> (\<And>x. Q x \<Longrightarrow> gives I (f x) R) \<Longrightarrow> gives I (and_then m f) R"
  unfolding gives_def
proof (intro allI impI)
  fix w
  assume m: "\<forall>w. I w \<longrightarrow> I (snd (m w)) \<and> (\<forall>x. fst (m w) = Inr x \<longrightarrow> Q x)"
    and f: "\<And>x. Q x \<Longrightarrow> \<forall>w. I w \<longrightarrow> I (snd (f x w)) \<and> (\<forall>y. fst (f x w) = Inr y \<longrightarrow> R y)"
    and w: "I w"
  obtain r w1 where mw: "m w = (r, w1)" by (cases "m w")
  with m w have w1: "I w1" and Q: "\<And>x. r = Inr x \<Longrightarrow> Q x" by force+
  show "I (snd (and_then m f w)) \<and> (\<forall>x. fst (and_then m f w) = Inr x \<longrightarrow> R x)"
  proof (cases r)
    case (Inl e)
    with mw w1 show ?thesis by (simp add: and_then_def)
  next
    case (Inr x)
    with f [OF Q [OF Inr]] w1 mw show ?thesis by (simp add: and_then_def)
  qed
qed

lemma gives_and_then_keeps:
  "keeps I m \<Longrightarrow> (\<And>x. gives I (f x) R) \<Longrightarrow> gives I (and_then m f) R"
  by (rule gives_and_then)

lemma gives_attempt:
  "gives I m Q \<Longrightarrow> gives I (attempt m) (\<lambda>r. \<forall>x. r = Inr x \<longrightarrow> Q x)"
  by (auto simp: gives_def attempt_def split: prod.split)

lemma keeps_attempt: "keeps I m \<Longrightarrow> keeps I (attempt m)"
  by (auto simp: gives_def attempt_def split: prod.split)

lemma gives_branches:
  "(b \<Longrightarrow> gives I m Q) \<Longrightarrow> (\<not> b \<Longrightarrow> gives I k Q) \<Longrightarrow> gives I (if b then m else k) Q"
  "(opt = None \<Longrightarrow> gives I m Q) \<Longrightarrow> (\<And>x. opt = Some x \<Longrightarrow> gives I (g x) Q) \<Longrightarrow>
     gives I (case opt of None \<Rightarrow> m | Some x \<Rightarrow> g x) Q"
  "(\<And>e. r = Inl e \<Longrightarrow> gives I (h e) Q) \<Longrightarrow> (\<And>x. r = Inr x \<Longrightarrow> gives I (g' x) Q) \<Longrightarrow>
     gives I (case r of Inl e \<Rightarrow> h e | Inr x \<Rightarrow> g' x) Q"
  "(\<And>a b. q = (a, b) \<Longrightarrow> gives I (k' a b) Q) \<Longrightarrow> gives I (case q of (a, b) \<Rightarrow> k' a b) Q"
  by (auto split: option.split sum.split prod.split)

text \<open>
  The same with the state in view: from worlds of \<open>I\<close> in \<open>P\<close>, what is returned and the world it is
  returned in satisfy \<open>Q\<close>. It serves where a handler reads a row, waits, and acts on what it read.
\<close>

definition triple :: "(world \<Rightarrow> bool) \<Rightarrow> (world \<Rightarrow> bool) \<Rightarrow> 'a act \<Rightarrow> ('a \<Rightarrow> world \<Rightarrow> bool) \<Rightarrow> bool" where
  "triple I P m Q \<longleftrightarrow>
     (\<forall>w. I w \<longrightarrow> P w \<longrightarrow> I (snd (m w)) \<and> (\<forall>x. fst (m w) = Inr x \<longrightarrow> Q x (snd (m w))))"

lemma tripleD:
  "triple I P m Q \<Longrightarrow> I w \<Longrightarrow> P w \<Longrightarrow> m w = (r, w') \<Longrightarrow> I w' \<and> (\<forall>x. r = Inr x \<longrightarrow> Q x w')"
  unfolding triple_def by (metis fst_conv snd_conv)

lemma triple_and_then:
  assumes "triple I P m Q" and "\<And>x. triple I (Q x) (f x) R"
  shows "triple I P (and_then m f) R"
  unfolding triple_def
proof (intro allI impI)
  fix w
  assume w: "I w" "P w"
  obtain r w1 where mw: "m w = (r, w1)" by (cases "m w")
  note 1 = tripleD [OF assms(1) w mw]
  show "I (snd (and_then m f w)) \<and> (\<forall>x. fst (and_then m f w) = Inr x \<longrightarrow> R x (snd (and_then m f w)))"
    using 1 assms(2) mw by (cases r) (auto simp: and_then_def triple_def)
qed

lemma triple_weaken:
  "triple I P m Q \<Longrightarrow> (\<And>x w. I w \<Longrightarrow> Q x w \<Longrightarrow> R x w) \<Longrightarrow> triple I P m R"
  by (simp add: triple_def)

lemma triple_of_gives: "gives I m Q \<Longrightarrow> triple I P m (\<lambda>x w. Q x)"
  by (simp add: gives_def triple_def)

lemma gives_of_triple: "triple I (\<lambda>w. True) m (\<lambda>x w. Q x) \<Longrightarrow> gives I m Q"
  by (simp add: gives_def triple_def)

lemma triple_branches:
  "(b \<Longrightarrow> triple I P m Q) \<Longrightarrow> (\<not> b \<Longrightarrow> triple I P k Q) \<Longrightarrow> triple I P (if b then m else k) Q"
  "(opt = None \<Longrightarrow> triple I P m Q) \<Longrightarrow> (\<And>x. opt = Some x \<Longrightarrow> triple I P (g x) Q) \<Longrightarrow>
     triple I P (case opt of None \<Rightarrow> m | Some x \<Rightarrow> g x) Q"
  "(\<And>e. r = Inl e \<Longrightarrow> triple I P (h e) Q) \<Longrightarrow> (\<And>x. r = Inr x \<Longrightarrow> triple I P (g' x) Q) \<Longrightarrow>
     triple I P (case r of Inl e \<Rightarrow> h e | Inr x \<Rightarrow> g' x) Q"
  "(\<And>a b. q = (a, b) \<Longrightarrow> triple I P (k' a b) Q) \<Longrightarrow> triple I P (case q of (a, b) \<Rightarrow> k' a b) Q"
  by (auto split: option.split sum.split prod.split)

lemma triple_pure: "triple I P (lift_result r) (\<lambda>x w. True)" "triple I P (ret y) (\<lambda>x w. True)"
  by (simp_all add: triple_def act_simps)

lemma triple_lifted_then:
  "(\<And>x. r = Inr x \<Longrightarrow> triple I P (f x) Q) \<Longrightarrow> triple I P (and_then (lift_result r) f) Q"
  by (cases r) (simp_all add: triple_def act_simps)

text \<open>The committed database of an actor, and what leaves it as it is.\<close>

abbreviation db_of :: "world \<Rightarrow> string \<Rightarrow> db" where
  "db_of w p \<equiv> a_db (w_actors w p)"

lemma next_fault_world: "snd (next_fault w) = w\<lparr>w_faults := drop 1 (w_faults w)\<rparr>"
  by (cases "w_faults w") (simp_all add: next_fault_def)

lemma next_fault_Inr: "\<exists>f. fst (next_fault w) = Inr f"
  by (cases "w_faults w") (simp_all add: next_fault_def)

lemma next_fault_cases:
  obtains f where "next_fault w = (Inr f, w\<lparr>w_faults := drop 1 (w_faults w)\<rparr>)"
  using next_fault_world [of w] next_fault_Inr [of w] by (metis prod.collapse)

text \<open>An invariant of the databases alone, which may also say how many identifiers have been drawn.\<close>

definition frugal :: "(world \<Rightarrow> bool) \<Rightarrow> bool" where
  "frugal I \<longleftrightarrow> (\<forall>w w'. I w \<longrightarrow> (\<forall>p. db_of w' p = db_of w p) \<longrightarrow> w_uuids w \<le> w_uuids w' \<longrightarrow> I w')"

lemma frugalD: "frugal I \<Longrightarrow> I w \<Longrightarrow> (\<And>p. db_of w' p = db_of w p) \<Longrightarrow> w_uuids w \<le> w_uuids w' \<Longrightarrow> I w'"
  by (simp add: frugal_def)

lemma begin_mutation_cases:
  "begin_mutation p w =
     (if fst (next_fault w) = Inr Ok then (Inr (db_of w p), w\<lparr>w_faults := drop 1 (w_faults w)\<rparr>)
      else (Inl ''transaction failed'', w\<lparr>w_faults := drop 1 (w_faults w)\<rparr>))"
  by (rule next_fault_cases [of w]) (simp add: begin_mutation_def and_then_def get_db_def throw_def)

lemma schedule_dbs: "db_of (snd (schedule p al w)) q = db_of w q"
  by (rule next_fault_cases [of w]) (simp add: schedule_def and_then_def update_actor_def throw_def)

lemma schedule_uuids: "w_uuids (snd (schedule p al w)) = w_uuids w"
  by (rule next_fault_cases [of w]) (simp add: schedule_def and_then_def update_actor_def throw_def)

lemma triple_begin_mutation:
  assumes "frugal I"
  shows "triple I (\<lambda>w. db_of w p = d) (begin_mutation p) (\<lambda>tx w. tx = d \<and> db_of w p = d)"
  using assms by (auto simp: triple_def begin_mutation_cases elim: frugalD)

lemma triple_schedule:
  assumes "frugal I"
  shows "triple I (\<lambda>w. db_of w p = d) (schedule q al) (\<lambda>_ w. db_of w p = d)"
  using assms by (auto simp: triple_def schedule_dbs schedule_uuids elim: frugalD)

lemma keeps_frugal:
  assumes "frugal I"
  shows "keeps I next_fault" "keeps I (notify_change p)" "keeps I (schedule p al)" "keeps I (new_uuid E)"
  using assms
  by (auto simp: gives_def next_fault_world notify_change_def update_actor_def schedule_dbs schedule_uuids
      new_uuid_def elim: frugalD)

lemma keeps_remote: "frugal I \<Longrightarrow> gives I m Q \<Longrightarrow> gives I (remote m) Q"
  unfolding remote_def
  by (rule gives_and_then [OF keeps_frugal(1)], assumption)
    (auto split: fault.split intro!: gives_pure gives_and_then_keeps keeps_attempt intro: gives_keeps)

end
