(* ===== verification/Lifecycle.thy ===== *)
theory Lifecycle
  imports Actor
begin

text \<open>
  \<open>src/actor/lifecycle.rs\<close>, \<open>src/actor/maintenance.rs\<close> and the source's side of forking in
  \<open>src/actor/fork.rs\<close>: visibility and expiry of a stream, deletion, the maintenance handler, and the
  two actions a fork calls on its source.

  A call of another actor (\<open>source_handle(..).action(..)\<close>) goes through the RivetKit client, a
  parameter: the record \<open>rpc\<close> holds the three actions a stream answers. Theory \<open>Network\<close>
  closes the loop with the handlers themselves.
\<close>

record acquire_action =
  fa_edge_id :: string
  fa_fork_offset :: "string option"
  fa_content_type_provided :: "string option"

record fork_acquire_result =
  far_ok :: bool
  far_error :: "string option"
  far_fork_offset :: "string option"
  far_content_type :: "string option"
  far_ttl_seconds :: "int option"
  far_expires_at :: "string option"
  far_source_generation :: "string option"

record release_action =
  fr_edge_id :: string
  fr_source_generation :: "string option"

record read_range =
  rr_after_offset :: "string option"
  rr_cap_offset :: string
  rr_limit :: "nat option"
  rr_byte_budget :: "nat option"

record rpc =
  rpc_acquire :: "string \<Rightarrow> acquire_action \<Rightarrow> fork_acquire_result act"
  rpc_release :: "string \<Rightarrow> release_action \<Rightarrow> unit act"
  rpc_read :: "string \<Rightarrow> read_range \<Rightarrow> read_batch act"

definition far_success :: "string \<Rightarrow> meta \<Rightarrow> fork_acquire_result" where
  "far_success off m =
     \<lparr>far_ok = True, far_error = None, far_fork_offset = Some off, far_content_type = content_type m,
      far_ttl_seconds = ttl_seconds m, far_expires_at = expires_at m,
      far_source_generation = Some (generation m)\<rparr>"

definition far_failure :: "string \<Rightarrow> fork_acquire_result" where
  "far_failure e =
     \<lparr>far_ok = False, far_error = Some e, far_fork_offset = None, far_content_type = None,
      far_ttl_seconds = None, far_expires_at = None, far_source_generation = None\<rparr>"

definition MAX_OFFSET_CAP :: string where "MAX_OFFSET_CAP = ''9999999999999999_9999999999999999''"
definition MAINTENANCE_RETRY_MS :: int where "MAINTENANCE_RETRY_MS = 5000"

subsection \<open>Scheduling\<close>

definition schedule_maintenance_after :: "string \<Rightarrow> int \<Rightarrow> unit act" where
  "schedule_maintenance_after p delay_ms = schedule p (After (max delay_ms 0))"

definition schedule_expiry :: "'j ext \<Rightarrow> string \<Rightarrow> meta \<Rightarrow> unit act" where
  "schedule_expiry E p m =
     (case expiry_time E m of None \<Rightarrow> ret () | Some t \<Rightarrow> schedule p (At t))"

subsection \<open>Releasing edges at the source\<close>

definition purge_stream_tx :: "db \<Rightarrow> meta \<Rightarrow> db" where
  "purge_stream_tx tx m =
     purge (case (forked_from m, fork_edge_id m) of
              (Some parent, Some edge) \<Rightarrow> enqueue_gc_release tx edge parent (fork_source_gen m)
            | _ \<Rightarrow> tx)"

fun flush_loop :: "rpc \<Rightarrow> string \<Rightarrow> gc_release list \<Rightarrow> bool \<Rightarrow> bool act" where
  "flush_loop R p [] retry = ret retry"
| "flush_loop R p (g # gs) retry =
     and_then (attempt (remote (rpc_release R (gr_parent_path g)
         \<lparr>fr_edge_id = gr_edge_id g, fr_source_generation = gr_source_gen g\<rparr>))) (\<lambda>res.
       case res of
         Inr _ \<Rightarrow>
           and_then (begin_mutation p) (\<lambda>tx.
           and_then (commit p (dequeue_gc_release tx (gr_edge_id g))) (\<lambda>_.
             flush_loop R p gs retry))
       | Inl _ \<Rightarrow> flush_loop R p gs True)"

definition flush_gc_releases :: "rpc \<Rightarrow> string \<Rightarrow> unit act" where
  "flush_gc_releases R p =
     and_then (get_db p) (\<lambda>d.
       let pending = pending_gc_releases d
       in if pending = [] then ret ()
          else and_then (flush_loop R p pending False) (\<lambda>retry.
            if retry then schedule_maintenance_after p MAINTENANCE_RETRY_MS else ret ()))"

subsection \<open>Visibility\<close>

definition visible_meta_while_locked :: "'j ext \<Rightarrow> rpc \<Rightarrow> string \<Rightarrow> int \<Rightarrow> meta option act" where
  "visible_meta_while_locked E R p now =
     and_then (get_meta p) (\<lambda>mo.
       case mo of
         None \<Rightarrow> ret None
       | Some m \<Rightarrow>
           if \<not> is_expired E m now then ret (Some m)
           else and_then (schedule_maintenance_after p MAINTENANCE_RETRY_MS) (\<lambda>_.
             and_then (begin_mutation p) (\<lambda>tx.
               case get_meta_tx tx of
                 None \<Rightarrow> and_then (rollback tx) (\<lambda>_. ret None)
               | Some fresh \<Rightarrow>
                   if \<not> is_expired E fresh now then and_then (rollback tx) (\<lambda>_. ret (Some fresh))
                   else if 0 < fork_edge_count tx then
                     and_then (commit p (set_soft_deleted tx)) (\<lambda>_.
                     and_then (notify_change p) (\<lambda>_.
                       ret (Some (fresh\<lparr>soft_deleted := True\<rparr>))))
                   else
                     and_then (commit p (purge_stream_tx tx fresh)) (\<lambda>_.
                     and_then (notify_change p) (\<lambda>_.
                     and_then (flush_gc_releases R p) (\<lambda>_.
                       ret None))))))"

text \<open>
  \<open>visible_meta\<close> takes the actor's lock around this; the handlers of this model run one after the
  other, so the lock is free. Theory \<open>Read\<close> models the reads, which do not hold it.
\<close>

definition visible_meta :: "'j ext \<Rightarrow> rpc \<Rightarrow> string \<Rightarrow> int \<Rightarrow> meta option act" where
  "visible_meta E R p now = visible_meta_while_locked E R p now"

definition touch_access :: "string \<Rightarrow> int \<Rightarrow> unit act" where
  "touch_access p now = and_then (begin_mutation p) (\<lambda>tx. commit p (touch tx now))"

subsection \<open>HEAD and DELETE\<close>

definition metadata_headers :: "meta \<Rightarrow> (string \<rightharpoonup> string)" where
  "metadata_headers m =
     hash_map ([(STREAM_OFFSET, current_offset m)]
       @ (case content_type m of None \<Rightarrow> [] | Some c \<Rightarrow> [(''content-type'', c)])
       @ (if closed m then [(STREAM_CLOSED, ''true'')] else [])
       @ (case ttl_seconds m of None \<Rightarrow> [] | Some t \<Rightarrow> [(STREAM_TTL, show_int t)])
       @ (case expires_at m of None \<Rightarrow> [] | Some e \<Rightarrow> [(STREAM_EXPIRES_AT, e)]))"

definition make_etag :: "'j ext \<Rightarrow> string \<Rightarrow> string \<Rightarrow> string \<Rightarrow> bool \<Rightarrow> string" where
  "make_etag E actor_id start end_off cl =
     [CHR 0x22] @ b64_encode E actor_id @ '':'' @ start @ '':'' @ end_off
       @ (if cl then '':c'' else []) @ [CHR 0x22]"

definition handle_head :: "'j ext \<Rightarrow> rpc \<Rightarrow> string \<Rightarrow> string \<Rightarrow> resp act" where
  "handle_head E R actor_id p =
     and_then now_ms (\<lambda>now.
     and_then (visible_meta E R p now) (\<lambda>mo.
       case mo of
         None \<Rightarrow> lift_result (response 404 [(''content-type'', ''text/plain'')] [])
       | Some m \<Rightarrow>
           if soft_deleted m then lift_result (response 410 [(''content-type'', ''text/plain'')] [])
           else lift_result (from_parts 200
             ((metadata_headers m)(''cache-control'' \<mapsto> ''no-store'',
                ''etag'' \<mapsto> make_etag E actor_id ''-1'' (current_offset m) (closed m))) [])))"

definition handle_delete :: "'j ext \<Rightarrow> rpc \<Rightarrow> string \<Rightarrow> resp act" where
  "handle_delete E R p =
     and_then now_ms (\<lambda>now.
     and_then (visible_meta_while_locked E R p now) (\<lambda>mo.
       case mo of
         None \<Rightarrow> lift_result (text_response 404 ''Stream not found'' [])
       | Some m \<Rightarrow>
           if soft_deleted m then lift_result (text_response 410 ''Stream is gone'' [])
           else
             and_then (schedule_maintenance_after p MAINTENANCE_RETRY_MS) (\<lambda>_.
             and_then (begin_mutation p) (\<lambda>tx.
               let soft_delete = 0 < fork_edge_count tx
               in and_then (commit p (if soft_delete then set_soft_deleted tx else purge_stream_tx tx m)) (\<lambda>_.
                  and_then (notify_change p) (\<lambda>_.
                  and_then (if soft_delete then ret () else flush_gc_releases R p) (\<lambda>_.
                    lift_result (response 204 [] []))))))))"

subsection \<open>The source's side of a fork\<close>

text \<open>The part of \<open>fork_acquire\<close> for an edge that is not recorded yet.\<close>

definition acquire_fresh :: "'j ext \<Rightarrow> rpc \<Rightarrow> string \<Rightarrow> acquire_action \<Rightarrow> fork_acquire_result act" where
  "acquire_fresh E R q action =
     and_then now_ms (\<lambda>now.
     and_then (visible_meta_while_locked E R q now) (\<lambda>mo.
       case mo of
         None \<Rightarrow> ret (far_failure ''not_found'')
       | Some m \<Rightarrow>
           if soft_deleted m then ret (far_failure ''soft_deleted'')
           else if (case fa_content_type_provided action of
                      None \<Rightarrow> False
                    | Some c \<Rightarrow> trim c \<noteq> []
                        \<and> normalize_content_type (Some c) \<noteq> normalize_content_type (content_type m))
           then ret (far_failure ''content_type_mismatch'')
           else
             let off = (case fa_fork_offset action of Some f \<Rightarrow> f | None \<Rightarrow> current_offset m)
             in if \<not> is_concrete_offset off \<or> off < ZERO_OFFSET \<or> current_offset m < off
                then ret (far_failure ''invalid_offset'')
                else
                  and_then (begin_mutation q) (\<lambda>tx.
                  and_then (lift_result (insert_fork_edge tx (fa_edge_id action) off)) (\<lambda>(tx', recorded).
                  and_then (commit q tx') (\<lambda>_.
                    ret (far_success recorded m))))))"

definition fork_acquire :: "'j ext \<Rightarrow> rpc \<Rightarrow> string \<Rightarrow> acquire_action \<Rightarrow> fork_acquire_result act" where
  "fork_acquire E R q action =
     (if fa_edge_id action = [] then throw ''fork acquire requires a non-empty edge id''
      else
        and_then (begin_mutation q) (\<lambda>tx.
          case (get_fork_edge_tx tx (fa_edge_id action), get_meta_tx tx) of
            (Some recorded, Some m) \<Rightarrow> and_then (commit q tx) (\<lambda>_. ret (far_success recorded m))
          | _ \<Rightarrow> and_then (rollback tx) (\<lambda>_. acquire_fresh E R q action)))"

definition fork_release :: "rpc \<Rightarrow> string \<Rightarrow> release_action \<Rightarrow> unit act" where
  "fork_release R q action =
     (if fr_edge_id action = [] then throw ''fork release requires a non-empty edge id''
      else
        and_then (get_meta q) (\<lambda>mo.
          case mo of
            None \<Rightarrow> ret ()
          | Some m \<Rightarrow>
              if (case fr_source_generation action of None \<Rightarrow> False | Some g \<Rightarrow> g \<noteq> generation m) then ret ()
              else
                and_then (if soft_deleted m then schedule_maintenance_after q MAINTENANCE_RETRY_MS else ret ()) (\<lambda>_.
                and_then (begin_mutation q) (\<lambda>tx.
                  if get_fork_edge_tx tx (fr_edge_id action) = None then and_then (rollback tx) (\<lambda>_. ret ())
                  else
                    let tx1 = delete_fork_edge tx (fr_edge_id action);
                        purge_after_release = soft_deleted m \<and> fork_edge_count tx1 = 0
                    in and_then (commit q (if purge_after_release then purge_stream_tx tx1 m else tx1)) (\<lambda>_.
                       and_then (notify_change q) (\<lambda>_.
                         if purge_after_release then flush_gc_releases R q else ret ()))))))"

subsection \<open>Maintenance\<close>

fun reconcile_loop :: "'j ext \<Rightarrow> rpc \<Rightarrow> string \<Rightarrow> fork_intent list \<Rightarrow> unit act" where
  "reconcile_loop E R p [] = ret ()"
| "reconcile_loop E R p (i # is) =
     (case params_from_json E (fi_params_key i) of
        None \<Rightarrow> throw ''invalid fork intent''
      | Some (_, fork_off) \<Rightarrow>
          and_then (attempt (remote (rpc_acquire R (fi_parent_path i)
              \<lparr>fa_edge_id = fi_edge_id i, fa_fork_offset = fork_off, fa_content_type_provided = None\<rparr>))) (\<lambda>res.
            case res of
              Inl _ \<Rightarrow>
                and_then (schedule_maintenance_after p MAINTENANCE_RETRY_MS) (\<lambda>_. reconcile_loop E R p is)
            | Inr acquired \<Rightarrow>
                and_then (begin_mutation p) (\<lambda>tx.
                  let tx1 = (if far_ok acquired
                             then enqueue_gc_release tx (fi_edge_id i) (fi_parent_path i) (far_source_generation acquired)
                             else tx)
                  in and_then (commit p (delete_fork_intent tx1 (fi_edge_id i))) (\<lambda>_.
                     reconcile_loop E R p is))))"

definition reconcile_fork_intents :: "'j ext \<Rightarrow> rpc \<Rightarrow> string \<Rightarrow> unit act" where
  "reconcile_fork_intents E R p =
     and_then (get_db p) (\<lambda>d.
     and_then (reconcile_loop E R p (pending_fork_intents d)) (\<lambda>_.
       flush_gc_releases R p))"

definition run_maintenance :: "'j ext \<Rightarrow> rpc \<Rightarrow> string \<Rightarrow> unit act" where
  "run_maintenance E R p =
     and_then (get_meta p) (\<lambda>mo.
     and_then (if mo = None then reconcile_fork_intents E R p else ret ()) (\<lambda>_.
     and_then (flush_gc_releases R p) (\<lambda>_.
     and_then now_ms (\<lambda>now.
     and_then (visible_meta E R p now) (\<lambda>vm.
       case vm of
         None \<Rightarrow> ret ()
       | Some m \<Rightarrow> if soft_deleted m then ret () else schedule_expiry E p m)))))"

end
