(* ===== verification/Fork.thy ===== *)
theory Fork
  imports Lifecycle
begin

text \<open>
  \<open>create_fork\<close> of \<open>src/actor/fork.rs\<close>: the new stream's side of forking. The steps are those of
  the source: persist an intent, acquire an edge at the source, read the sub-offset prefix, and
  create the stream and drop the intent in one transaction; every later failure hands the edge to
  the queue of releases instead. An early return with a response is \<open>Inl\<close> of the inner sum.
\<close>

record fork_create_options =
  fo_parent_path :: string
  fo_fork_offset :: "string option"
  fo_fork_sub_offset :: "nat option"
  fo_content_type :: "string option"
  fo_ttl_seconds :: "int option"
  fo_expires_at :: "string option"
  fo_closed :: bool
  fo_body :: bytes
  fo_now_ms :: int

definition respond_early :: "nat \<Rightarrow> string \<Rightarrow> (resp + 'a) act" where
  "respond_early st msg = and_then (lift_result (text_response st msg [])) (\<lambda>r. ret (Inl r))"

definition release_acquired :: "rpc \<Rightarrow> string \<Rightarrow> string \<Rightarrow> string \<Rightarrow> string option \<Rightarrow> unit act" where
  "release_acquired R p edge_id parent gen =
     and_then (schedule_maintenance_after p MAINTENANCE_RETRY_MS) (\<lambda>_.
     and_then (begin_mutation p) (\<lambda>tx.
     and_then (commit p (delete_fork_intent (enqueue_gc_release tx edge_id parent gen) edge_id)) (\<lambda>_.
       flush_gc_releases R p)))"

text \<open>The edge id of an earlier attempt with the same parameters, or a new intent.\<close>

definition fork_intent_edge :: "'j ext \<Rightarrow> string \<Rightarrow> string \<Rightarrow> string \<Rightarrow> string act" where
  "fork_intent_edge E p parent params_key =
     and_then (get_db p) (\<lambda>d.
       case get_fork_intent d params_key of
         Some e \<Rightarrow> ret e
       | None \<Rightarrow>
           and_then (new_uuid E) (\<lambda>e.
           and_then (schedule_maintenance_after p MAINTENANCE_RETRY_MS) (\<lambda>_.
           and_then (begin_mutation p) (\<lambda>tx.
           and_then (commit p (put_fork_intent tx e parent params_key)) (\<lambda>_.
             ret e)))))"

definition acquire_refused :: "string \<Rightarrow> string \<Rightarrow> fork_acquire_result \<Rightarrow> resp act" where
  "acquire_refused p edge_id acquired =
     and_then (begin_mutation p) (\<lambda>tx.
     and_then (commit p (delete_fork_intent tx edge_id)) (\<lambda>_.
       if far_error acquired = Some ''not_found''
       then lift_result (text_response 404 ''Source stream not found'' [])
       else if far_error acquired = Some ''soft_deleted''
       then lift_result (text_response 409 ''source stream was deleted but still has active forks'' [])
       else if far_error acquired = Some ''content_type_mismatch''
       then lift_result (text_response 409 ''Content type mismatch with source stream'' [])
       else if far_error acquired = Some ''invalid_offset''
       then lift_result (text_response 400 ''Fork offset beyond source stream length'' [])
       else throw ''source returned an invalid fork acquire result''))"

definition effective_expiry ::
  "fork_create_options \<Rightarrow> fork_acquire_result \<Rightarrow> int option \<times> string option" where
  "effective_expiry opts acquired =
     (if fo_ttl_seconds opts = None \<and> fo_expires_at opts = None
      then (if far_ttl_seconds acquired \<noteq> None then (far_ttl_seconds acquired, None)
            else (None, far_expires_at acquired))
      else (fo_ttl_seconds opts, fo_expires_at opts))"

text \<open>The part of the source's next message that the fork starts with.\<close>

definition message_prefix :: "'j ext \<Rightarrow> bool \<Rightarrow> nat \<Rightarrow> bytes \<Rightarrow> bytes option" where
  "message_prefix E is_json sub_offset data =
     (if is_json then
        (let fragment = (if data \<noteq> [] \<and> last data = CHR '','' then butlast data else data)
         in case json_from_slice E (''['' @ fragment @ '']'') of
              Some (JArray values) \<Rightarrow>
                if sub_offset \<le> length values
                then Some (concat (map (\<lambda>v. json_to_writer E v @ '','') (take sub_offset values)))
                else None
            | _ \<Rightarrow> None)
      else if sub_offset \<le> length data then Some (take sub_offset data) else None)"

definition sub_offset_prefix ::
  "'j ext \<Rightarrow> rpc \<Rightarrow> string \<Rightarrow> fork_create_options \<Rightarrow> string \<Rightarrow> string \<Rightarrow> string \<Rightarrow> bool
     \<Rightarrow> (resp + bytes option) act" where
  "sub_offset_prefix E R p opts edge_id fork_off gen is_json =
     (case fo_fork_sub_offset opts of
        None \<Rightarrow> ret (Inr None)
      | Some sub \<Rightarrow>
          if sub = 0 then ret (Inr None)
          else
            and_then (remote (rpc_read R (fo_parent_path opts)
                \<lparr>rr_after_offset = Some fork_off, rr_cap_offset = MAX_OFFSET_CAP, rr_limit = Some 1,
                 rr_byte_budget = Some MAX_READ_BYTES\<rparr>)) (\<lambda>batch.
              case Option.bind (case rb_messages batch of [] \<Rightarrow> None | first # _ \<Rightarrow> Some (sm_data first))
                     (message_prefix E is_json sub) of
                None \<Rightarrow>
                  and_then (release_acquired R p edge_id (fo_parent_path opts) (Some gen)) (\<lambda>_.
                    respond_early 400 ''Invalid fork sub-offset'')
              | Some prefix \<Rightarrow> ret (Inr (if prefix \<noteq> [] then Some prefix else None))))"

definition initial_payload ::
  "'j ext \<Rightarrow> rpc \<Rightarrow> string \<Rightarrow> fork_create_options \<Rightarrow> string \<Rightarrow> string \<Rightarrow> bool
     \<Rightarrow> (resp + bytes option) act" where
  "initial_payload E R p opts edge_id gen is_json =
     (if fo_body opts = [] then ret (Inr None)
      else if is_json then
        (case process_json_append E (fo_body opts) True of
           Inr payload \<Rightarrow>
             if length payload \<le> MAX_BODY_BYTES then ret (Inr (Some payload))
             else and_then (release_acquired R p edge_id (fo_parent_path opts) (Some gen)) (\<lambda>_.
                    respond_early 413 ''Payload too large'')
         | Inl e \<Rightarrow>
             and_then (release_acquired R p edge_id (fo_parent_path opts) (Some gen)) (\<lambda>_.
               respond_early 400 e))
      else ret (Inr (Some (fo_body opts))))"

definition append_optional :: "db \<Rightarrow> string \<Rightarrow> bytes option \<Rightarrow> int \<Rightarrow> (db \<times> string) result" where
  "append_optional tx off payload now =
     (case payload of
        None \<Rightarrow> Inr (tx, off)
      | Some b \<Rightarrow> if b = [] then Inr (tx, off) else append_message tx off b now)"

definition fork_creation ::
  "'j ext \<Rightarrow> string \<Rightarrow> fork_create_options \<Rightarrow> string \<Rightarrow> string \<Rightarrow> string \<Rightarrow> string
     \<Rightarrow> int option \<times> string option \<Rightarrow> bytes option \<Rightarrow> bytes option \<Rightarrow> string act" where
  "fork_creation E p opts edge_id fork_off gen ct expiry prefix payload =
     and_then (begin_mutation p) (\<lambda>tx.
       if get_meta_tx tx \<noteq> None
       then and_then (rollback tx) (\<lambda>_. throw ''stream was created during fork acquisition'')
       else
         and_then (new_uuid E) (\<lambda>g.
         and_then (lift_result (create_meta tx g (Some ct) (fst expiry) (snd expiry) (fo_closed opts)
             (fo_now_ms opts) (Some (fo_parent_path opts)) (Some fork_off)
             (case fo_fork_sub_offset opts of
                None \<Rightarrow> None | Some s \<Rightarrow> if 0 < s then Some (int s) else None)
             (Some edge_id) (Some gen))) (\<lambda>tx1.
         and_then (lift_result (append_optional tx1 fork_off prefix (fo_now_ms opts))) (\<lambda>(tx2, off2).
         and_then (lift_result (append_optional tx2 off2 payload (fo_now_ms opts))) (\<lambda>(tx3, off3).
         and_then (commit p (delete_fork_intent tx3 edge_id)) (\<lambda>_.
           ret off3))))))"

text \<open>After the commit that creates a stream: wake the readers, schedule the expiry, answer.\<close>

definition announce :: "'j ext \<Rightarrow> string \<Rightarrow> resp result \<Rightarrow> resp act" where
  "announce E p r =
     and_then (notify_change p) (\<lambda>_.
     and_then (get_meta p) (\<lambda>mo.
     and_then (case mo of None \<Rightarrow> ret () | Some m \<Rightarrow> schedule_expiry E p m) (\<lambda>_.
       lift_result r)))"

definition finish_fork ::
  "'j ext \<Rightarrow> rpc \<Rightarrow> string \<Rightarrow> fork_create_options \<Rightarrow> string \<Rightarrow> string \<Rightarrow> string \<Rightarrow> fork_acquire_result
     \<Rightarrow> resp act" where
  "finish_fork E R p opts edge_id fork_off gen acquired =
     (let ct = (case fo_content_type opts of
                  Some c \<Rightarrow> c
                | None \<Rightarrow> (case far_content_type acquired of Some c \<Rightarrow> c | None \<Rightarrow> octet_stream));
          is_json = (normalize_content_type (Some ct) = json_type)
      in and_then (sub_offset_prefix E R p opts edge_id fork_off gen is_json) (\<lambda>px.
         case px of Inl r \<Rightarrow> ret r | Inr prefix \<Rightarrow>
         and_then (initial_payload E R p opts edge_id gen is_json) (\<lambda>pl.
         case pl of Inl r \<Rightarrow> ret r | Inr payload \<Rightarrow>
         and_then (attempt (fork_creation E p opts edge_id fork_off gen ct
             (effective_expiry opts acquired) prefix payload)) (\<lambda>creation.
         case creation of
           Inl e \<Rightarrow>
             and_then (release_acquired R p edge_id (fo_parent_path opts) (Some gen)) (\<lambda>_. throw e)
         | Inr off \<Rightarrow>
             announce E p (response 201
               ([(''content-type'', ct), (STREAM_OFFSET, off), (''location'', p)]
                @ (if fo_closed opts then [(STREAM_CLOSED, ''true'')] else [])) [])))))"

definition create_fork :: "'j ext \<Rightarrow> rpc \<Rightarrow> string \<Rightarrow> fork_create_options \<Rightarrow> resp act" where
  "create_fork E R p opts =
     (if fo_parent_path opts = p then lift_result (text_response 404 ''Source stream not found'' [])
      else
        let params_key = params_to_json E (fo_parent_path opts, fo_fork_offset opts)
        in and_then (fork_intent_edge E p (fo_parent_path opts) params_key) (\<lambda>edge_id.
           and_then (remote (rpc_acquire R (fo_parent_path opts)
               \<lparr>fa_edge_id = edge_id, fa_fork_offset = fo_fork_offset opts,
                fa_content_type_provided = fo_content_type opts\<rparr>)) (\<lambda>acquired.
             if \<not> far_ok acquired then acquire_refused p edge_id acquired
             else case far_fork_offset acquired of
                 None \<Rightarrow> throw ''source omitted acquired fork offset''
               | Some fork_off \<Rightarrow>
                   (case far_source_generation acquired of
                      None \<Rightarrow> throw ''source omitted generation''
                    | Some gen \<Rightarrow> finish_fork E R p opts edge_id fork_off gen acquired))))"

end
