(* ===== verification/Write.thy ===== *)
theory Write
  imports Fork
begin

text \<open>
  \<open>src/actor/write.rs\<close>: creating a stream (PUT), appending to it and closing it (POST).
\<close>

record put_options =
  po_forked_from :: "string option"
  po_fork_offset :: "string option"
  po_fork_sub_offset :: "nat option"
  po_content_type :: "string option"
  po_ttl_seconds :: "int option"
  po_expires_at :: "string option"
  po_closed :: bool

definition early :: "nat \<Rightarrow> string \<Rightarrow> (resp + 'a) result" where
  "early st msg = result_bind (text_response st msg []) (\<lambda>r. Inr (Inl r))"

subsection \<open>PUT\<close>

text \<open>The checks of \<open>handle_put\<close> before it takes the lock.\<close>

definition put_checks :: "'j ext \<Rightarrow> request \<Rightarrow> (resp + put_options) result" where
  "put_checks E req =
     (if MAX_BODY_BYTES < length (req_body req) then early 413 ''Payload too large''
      else
        result_bind (public_header_text E req STREAM_FORKED_FROM) (\<lambda>ff.
        result_bind (public_header_text E req STREAM_FORK_OFFSET) (\<lambda>foff.
        result_bind (public_header_text E req STREAM_FORK_SUB_OFFSET) (\<lambda>sub_header.
          if ff = None \<and> (foff \<noteq> None \<or> sub_header \<noteq> None)
          then early 400 ''Stream-Fork-Offset and Stream-Fork-Sub-Offset require Stream-Forked-From''
          else if (case foff of None \<Rightarrow> False | Some o' \<Rightarrow> \<not> is_concrete_offset o')
          then early 400 ''Invalid Stream-Fork-Offset format''
          else case (case sub_header of
                       None \<Rightarrow> Inr None
                     | Some v \<Rightarrow> result_bind (parse_non_negative_safe_integer v ''fork sub-offset'')
                                   (\<lambda>n. Inr (Some (nat n)))) of
            Inl _ \<Rightarrow> early 400 ''Invalid Stream-Fork-Sub-Offset format''
          | Inr fsub \<Rightarrow>
              result_bind (public_header_text E req ''content-type'') (\<lambda>ct_header.
              result_bind (public_header_text E req STREAM_TTL) (\<lambda>ttl_header.
              result_bind (public_header_text E req STREAM_EXPIRES_AT) (\<lambda>exp_at.
                if ttl_header \<noteq> None \<and> exp_at \<noteq> None
                then early 400 ''Cannot specify both Stream-TTL and Stream-Expires-At''
                else case (case ttl_header of
                             None \<Rightarrow> Some None | Some v \<Rightarrow> map_option Some (parse_ttl v)) of
                  None \<Rightarrow> early 400 ''Invalid Stream-TTL value''
                | Some ttl \<Rightarrow>
                    if (case exp_at of None \<Rightarrow> False | Some v \<Rightarrow> parse_from_rfc3339 E v = None)
                    then early 400 ''Invalid Stream-Expires-At timestamp''
                    else result_bind (header_is_true E req STREAM_CLOSED) (\<lambda>cl.
                      Inr (Inr \<lparr>po_forked_from = ff, po_fork_offset = foff,
                        po_fork_sub_offset = fsub,
                        po_content_type = sanitize_content_type ct_header (ff \<noteq> None),
                        po_ttl_seconds = ttl, po_expires_at = exp_at, po_closed = cl\<rparr>)))))))))"

text \<open>Whether a repeated PUT asks for the stream that is there.\<close>

definition put_matches :: "put_options \<Rightarrow> meta \<Rightarrow> bool" where
  "put_matches o' existing \<longleftrightarrow>
     (if po_forked_from o' \<noteq> None \<and> po_content_type o' = None \<and> po_forked_from o' = forked_from existing
      then True
      else normalize_content_type (po_content_type o') = normalize_content_type (content_type existing))
     \<and> po_ttl_seconds o' = ttl_seconds existing
     \<and> po_expires_at o' = expires_at existing
     \<and> po_closed o' = closed existing
     \<and> po_forked_from o' = forked_from existing
     \<and> (case po_fork_offset o' of None \<Rightarrow> True | Some f \<Rightarrow> Some f = fork_offset existing)
     \<and> (case po_fork_sub_offset o' of None \<Rightarrow> 0 | Some n \<Rightarrow> n)
         = nat (max 0 (case fork_sub_offset existing of None \<Rightarrow> 0 | Some n \<Rightarrow> n))"

text \<open>The UTF-8 bytes of the dash in the message below.\<close>

definition EM_DASH :: string where "EM_DASH = [CHR 0xE2, CHR 0x80, CHR 0x94]"

definition put_existing :: "put_options \<Rightarrow> meta \<Rightarrow> resp result" where
  "put_existing o' existing =
     (if soft_deleted existing
      then text_response 409 (''stream was deleted but still has active forks '' @ EM_DASH @ '' path cannot be reused until all forks are removed'') []
      else if \<not> put_matches o' existing
      then text_response 409 ''Stream already exists with different configuration'' []
      else response 200
        ([(''content-type'', case content_type existing of Some c \<Rightarrow> c | None \<Rightarrow> octet_stream),
          (STREAM_OFFSET, current_offset existing)]
         @ (if closed existing then [(STREAM_CLOSED, ''true'')] else [])) [])"

text \<open>The first message of a new stream, or the response that refuses it.\<close>

definition put_payload :: "'j ext \<Rightarrow> string \<Rightarrow> bytes \<Rightarrow> (resp + bytes) result" where
  "put_payload E ct body =
     (if body = [] then Inr (Inr [])
      else if normalize_content_type (Some ct) = json_type then
        (case process_json_append E body True of
           Inr payload \<Rightarrow>
             if length payload \<le> MAX_BODY_BYTES then Inr (Inr payload) else early 413 ''Payload too large''
         | Inl e \<Rightarrow> early 400 e)
      else Inr (Inr body))"

text \<open>The statements of the transaction that creates a stream: its new state and end offset.\<close>

definition create_statements ::
  "db \<Rightarrow> string \<Rightarrow> put_options \<Rightarrow> string \<Rightarrow> bytes \<Rightarrow> int \<Rightarrow> (db \<times> string) result" where
  "create_statements tx g o' ct payload now =
     result_bind (create_meta tx g (Some ct) (po_ttl_seconds o') (po_expires_at o') (po_closed o') now
                    None None None None None) (\<lambda>tx1.
       if payload = [] then Inr (tx1, ZERO_OFFSET) else append_message tx1 ZERO_OFFSET payload now)"

definition create_stream :: "'j ext \<Rightarrow> string \<Rightarrow> put_options \<Rightarrow> string \<Rightarrow> bytes \<Rightarrow> int \<Rightarrow> resp act" where
  "create_stream E p o' ct payload now =
     and_then (begin_mutation p) (\<lambda>tx.
       if get_meta_tx tx \<noteq> None
       then and_then (rollback tx) (\<lambda>_. lift_result (text_response 409 ''Stream already exists'' []))
       else
         and_then (new_uuid E) (\<lambda>g.
         and_then (lift_result (create_statements tx g o' ct payload now)) (\<lambda>(tx', off).
         and_then (commit p tx') (\<lambda>_.
           announce E p (response 201
             ([(''content-type'', ct), (STREAM_OFFSET, off), (''location'', p)]
              @ (if po_closed o' then [(STREAM_CLOSED, ''true'')] else [])) [])))))"

definition put_new :: "'j ext \<Rightarrow> string \<Rightarrow> put_options \<Rightarrow> bytes \<Rightarrow> int \<Rightarrow> resp act" where
  "put_new E p o' body now =
     (let ct = (case po_content_type o' of Some c \<Rightarrow> c | None \<Rightarrow> octet_stream)
      in and_then (lift_result (put_payload E ct body)) (\<lambda>pl.
         case pl of Inl r \<Rightarrow> ret r | Inr payload \<Rightarrow> create_stream E p o' ct payload now))"

definition handle_put :: "'j ext \<Rightarrow> rpc \<Rightarrow> string \<Rightarrow> request \<Rightarrow> resp act" where
  "handle_put E R p req =
     and_then (lift_result (put_checks E req)) (\<lambda>po.
     case po of Inl r \<Rightarrow> ret r | Inr o' \<Rightarrow>
     and_then now_ms (\<lambda>now.
     and_then (visible_meta_while_locked E R p now) (\<lambda>mo.
       case mo of
         Some existing \<Rightarrow> lift_result (put_existing o' existing)
       | None \<Rightarrow>
           (case po_forked_from o' of
              Some parent \<Rightarrow>
                create_fork E R p
                  \<lparr>fo_parent_path = parent, fo_fork_offset = po_fork_offset o',
                   fo_fork_sub_offset = po_fork_sub_offset o', fo_content_type = po_content_type o',
                   fo_ttl_seconds = po_ttl_seconds o', fo_expires_at = po_expires_at o',
                   fo_closed = po_closed o', fo_body = req_body req, fo_now_ms = now\<rparr>
            | None \<Rightarrow> put_new E p o' (req_body req) now))))"

subsection \<open>POST\<close>

definition stream_closed_response :: "meta \<Rightarrow> resp result" where
  "stream_closed_response m =
     text_response 409 ''Stream is closed'' [(STREAM_CLOSED, ''true''), (STREAM_OFFSET, current_offset m)]"

text \<open>The transaction that closes a stream for a producer.\<close>

definition close_tx :: "'j ext \<Rightarrow> string \<Rightarrow> meta \<Rightarrow> producer_headers \<Rightarrow> int \<Rightarrow> resp act" where
  "close_tx E p m ph now =
     and_then (begin_mutation p) (\<lambda>tx.
       let (prior, tx1) = get_producer_state tx (ph_id ph) (saturating_sub_i64 now PRODUCER_STATE_TTL_MS)
       in case validate_producer prior ph now of
            Accepted st \<Rightarrow>
              and_then (commit p (touch (set_closed (commit_producer_state tx1 (ph_id ph) st)
                  (Some (closed_by_to_json E (closed_by_of ph)))) now)) (\<lambda>_.
              and_then (notify_change p) (\<lambda>_.
                lift_result (close_success (current_offset m) (Some ph))))
          | failure \<Rightarrow>
              and_then (rollback tx1) (\<lambda>_. lift_result (producer_failure failure ph m True)))"

definition handle_close_only :: "'j ext \<Rightarrow> rpc \<Rightarrow> string \<Rightarrow> producer_headers option \<Rightarrow> resp act" where
  "handle_close_only E R p producer =
     and_then now_ms (\<lambda>now.
     and_then (visible_meta_while_locked E R p now) (\<lambda>mo.
     case mo of
       None \<Rightarrow> lift_result (text_response 404 ''Stream not found'' [])
     | Some m \<Rightarrow>
         if soft_deleted m then lift_result (text_response 410 ''Stream is gone'' [])
         else case producer of
           None \<Rightarrow>
             and_then (begin_mutation p) (\<lambda>tx.
             and_then (commit p (touch (set_closed tx None) now)) (\<lambda>_.
             and_then (notify_change p) (\<lambda>_.
               lift_result (close_success (current_offset m) None))))
         | Some ph \<Rightarrow>
             if closed m then
               (if closed_by_matches E m ph then lift_result (close_success (current_offset m) (Some ph))
                else lift_result (stream_closed_response m))
             else
               close_tx E p m ph now))"

text \<open>The payload of an append, or the response that refuses it.\<close>

definition post_payload :: "'j ext \<Rightarrow> meta \<Rightarrow> bytes \<Rightarrow> (resp + bytes) result" where
  "post_payload E m body =
     (if normalize_content_type (content_type m) = json_type then
        (case process_json_append E body False of
           Inr payload \<Rightarrow>
             if length payload \<le> MAX_BODY_BYTES then Inr (Inr payload) else early 413 ''Payload too large''
         | Inl e \<Rightarrow> early 400 e)
      else Inr (Inr body))"

text \<open>\<open>Stream-Seq\<close> must grow: \<open>Inr True\<close> for a conflict.\<close>

definition seq_conflict :: "'j ext \<Rightarrow> string option \<Rightarrow> string option \<Rightarrow> bool result" where
  "seq_conflict E stored_seq seq =
     (case (stored_seq, seq) of
        (Some l, Some s) \<Rightarrow>
          (case (b64url_decode E l, b64url_decode E s) of
             (Some l', Some s') \<Rightarrow> Inr (s' \<le> l')
           | _ \<Rightarrow> Inl ''invalid base64'')
      | _ \<Rightarrow> Inr False)"

text \<open>
  The transaction of an append. A producer is validated before \<open>Stream-Seq\<close>: a retry that carries
  both is answered as the producer's duplicate.
\<close>

definition check_producer ::
  "producer_headers option \<Rightarrow> db \<Rightarrow> meta \<Rightarrow> int
     \<Rightarrow> (resp result + (producer_headers \<times> producer_state) option) \<times> db" where
  "check_producer producer tx fresh now =
     (case producer of
        None \<Rightarrow> (Inr None, tx)
      | Some ph \<Rightarrow>
          let (prior, tx1) = get_producer_state tx (ph_id ph) (saturating_sub_i64 now PRODUCER_STATE_TTL_MS)
          in (case validate_producer prior ph now of
                Accepted st \<Rightarrow> Inr (Some (ph, st))
              | failure \<Rightarrow> Inl (producer_failure failure ph fresh False), tx1))"

text \<open>The statements after the checks: the producer's state, the sequence, the closing, the access time.\<close>

definition finish_append ::
  "'j ext \<Rightarrow> db \<Rightarrow> (producer_headers \<times> producer_state) option \<Rightarrow> producer_headers option \<Rightarrow> string option
     \<Rightarrow> bool \<Rightarrow> int \<Rightarrow> db" where
  "finish_append E tx accepted producer seq close_stream now =
     (let tx1 = (case accepted of None \<Rightarrow> tx | Some (ph, st) \<Rightarrow> commit_producer_state tx (ph_id ph) st);
          tx2 = (case seq of None \<Rightarrow> tx1 | Some s \<Rightarrow> set_last_seq tx1 s);
          tx3 = (if close_stream
                 then set_closed tx2 (map_option (\<lambda>ph. closed_by_to_json E (closed_by_of ph)) producer)
                 else tx2)
      in touch tx3 now)"

definition append_tx ::
  "'j ext \<Rightarrow> string \<Rightarrow> producer_headers option \<Rightarrow> string option \<Rightarrow> bytes \<Rightarrow> bool \<Rightarrow> int \<Rightarrow> resp act" where
  "append_tx E p producer seq payload close_stream now =
     and_then (begin_mutation p) (\<lambda>tx.
     case get_meta_tx tx of
       None \<Rightarrow> and_then (rollback tx) (\<lambda>_. lift_result (text_response 404 ''Stream not found'' []))
     | Some fresh \<Rightarrow>
         (case check_producer producer tx fresh now of
            (Inl refused, tx1) \<Rightarrow> and_then (rollback tx1) (\<lambda>_. lift_result refused)
          | (Inr accepted, tx1) \<Rightarrow>
              and_then (lift_result (seq_conflict E (Store.last_seq fresh) seq)) (\<lambda>conflict.
              if conflict
              then and_then (rollback tx1) (\<lambda>_. lift_result (text_response 409 ''Sequence conflict'' []))
              else
                and_then (lift_result (append_message tx1 (current_offset fresh) payload now)) (\<lambda>(tx2, off).
                and_then (commit p (finish_append E tx2 accepted producer seq close_stream now)) (\<lambda>_.
                and_then (notify_change p) (\<lambda>_.
                  lift_result (producer_success off producer close_stream)))))))"

text \<open>The checks of \<open>handle_post\<close> under the lock.\<close>

definition post_locked ::
  "'j ext \<Rightarrow> rpc \<Rightarrow> string \<Rightarrow> producer_headers option \<Rightarrow> string \<Rightarrow> bytes option \<Rightarrow> bytes \<Rightarrow> bool \<Rightarrow> resp act" where
  "post_locked E R p producer ct seq body close_stream =
     and_then now_ms (\<lambda>now.
     and_then (visible_meta_while_locked E R p now) (\<lambda>mo.
     case mo of
       None \<Rightarrow> lift_result (text_response 404 ''Stream not found'' [])
     | Some m \<Rightarrow>
         if soft_deleted m then lift_result (text_response 410 ''Stream is gone'' [])
         else if closed m then
           (if (case producer of None \<Rightarrow> False | Some ph \<Rightarrow> closed_by_matches E m ph)
            then lift_result (close_success (current_offset m) producer)
            else lift_result (stream_closed_response m))
         else if normalize_content_type (Some ct) \<noteq> normalize_content_type (content_type m)
         then lift_result (text_response 409 ''Content-type mismatch'' [])
         else
           and_then (lift_result (post_payload E m body)) (\<lambda>pl.
           case pl of
             Inl r \<Rightarrow> ret r
           | Inr payload \<Rightarrow>
               append_tx E p producer (map_option (b64url_encode E) seq) payload close_stream now)))"

definition handle_post :: "'j ext \<Rightarrow> rpc \<Rightarrow> string \<Rightarrow> request \<Rightarrow> resp act" where
  "handle_post E R p req =
     (if MAX_BODY_BYTES < length (req_body req) then lift_result (text_response 413 ''Payload too large'' [])
      else
        and_then (lift_result (header_is_true E req STREAM_CLOSED)) (\<lambda>close_stream.
        case parse_producer E req of
          Inl message \<Rightarrow> lift_result (text_response 400 message [])
        | Inr producer \<Rightarrow>
            if req_body req = [] \<and> close_stream then handle_close_only E R p producer
            else if req_body req = [] then lift_result (text_response 400 ''Empty body'' [])
            else
              and_then (lift_result (public_header_text E req ''content-type'')) (\<lambda>cto.
              case cto of
                None \<Rightarrow> lift_result (text_response 400 ''Content-Type header is required'' [])
              | Some ct \<Rightarrow>
                  and_then (lift_result (public_header_bytes E req STREAM_SEQ)) (\<lambda>seq.
                    post_locked E R p producer ct seq (req_body req) close_stream))))"

end
