(* ===== verification/Read.thy ===== *)
theory Read
  imports Write
begin

text \<open>
  \<open>src/actor/read.rs\<close>: reading a stream, its inherited part included, as a catch-up read, a long
  poll or a live stream of server-sent events.

  Reads do not hold the actor's lock, so other handlers run at their \<open>await\<close> points. \<open>read_env\<close>
  says what they do at each: an arbitrary action per point. \<open>quiet\<close> is the environment in which
  nothing happens.
\<close>

record read_env =
  env_before_query :: "unit act"
  env_between_queries :: "unit act"
  env_after_source :: "unit act"
  env_before_batch :: "unit act"
  env_after_batch :: "unit act"
  env_before_touch :: "unit act"

definition quiet :: read_env where
  "quiet = \<lparr>env_before_query = ret (), env_between_queries = ret (), env_after_source = ret (),
            env_before_batch = ret (), env_after_batch = ret (), env_before_touch = ret ()\<rparr>"

subsection \<open>The stitched read\<close>

text \<open>
  The part inherited from the source: \<open>Inr None\<close> when the stream is gone, \<open>Inr (Some m)\<close> when its
  row changed generation meanwhile and the read starts over, \<open>Inl\<close> the batch otherwise.
\<close>

definition needs_source :: "meta \<Rightarrow> string option \<Rightarrow> (string \<times> string) option" where
  "needs_source m after =
     (case (forked_from m, fork_offset m) of
        (Some parent, Some fork_off) \<Rightarrow>
          if (case after of None \<Rightarrow> True | Some a \<Rightarrow> a < fork_off) then Some (parent, fork_off) else None
      | _ \<Rightarrow> None)"

definition inherited_cap :: "string option \<Rightarrow> string \<Rightarrow> string" where
  "inherited_cap cap fork_off =
     (case cap of None \<Rightarrow> fork_off | Some c \<Rightarrow> if c < fork_off then c else fork_off)"

definition batch_bytes :: "stored_message list \<Rightarrow> nat" where
  "batch_bytes ms = (\<Sum>m \<leftarrow> ms. length (sm_data m))"

definition read_own ::
  "read_env \<Rightarrow> string \<Rightarrow> string option \<Rightarrow> string option \<Rightarrow> nat \<Rightarrow> nat \<Rightarrow> bool \<Rightarrow> read_batch act" where
  "read_own Y p after cap limit budget allow_first =
     and_then (env_before_query Y) (\<lambda>_.
     and_then (get_db p) (\<lambda>d1.
     and_then (env_between_queries Y) (\<lambda>_.
     and_then (get_db p) (\<lambda>d2.
       ret (read_messages_range d1 d2 after cap limit budget allow_first)))))"

text \<open>
  The first argument bounds how often the read starts over because the stream was replaced under
  it; only a replacement uses one up.
\<close>

fun read_stitched ::
  "nat \<Rightarrow> rpc \<Rightarrow> read_env \<Rightarrow> string \<Rightarrow> meta \<Rightarrow> string option \<Rightarrow> string option \<Rightarrow> nat \<Rightarrow> nat \<Rightarrow> read_batch act" where
  "read_stitched restarts R Y p m after_offset cap limit0 budget0 =
     (let after = (if after_offset = Some ''-1'' then None else after_offset);
          limit = min limit0 MAX_READ_ROWS;
          budget = min budget0 MAX_READ_BYTES
      in case needs_source m after of
           None \<Rightarrow>
             and_then (read_own Y p after cap limit budget True) (\<lambda>own.
               ret \<lparr>rb_messages = rb_messages own, rb_capped = rb_capped own\<rparr>)
         | Some (parent, fork_off) \<Rightarrow>
             and_then (remote (rpc_read R parent
                 \<lparr>rr_after_offset = after, rr_cap_offset = inherited_cap cap fork_off,
                  rr_limit = Some limit, rr_byte_budget = Some budget\<rparr>)) (\<lambda>inherited.
             and_then (env_after_source Y) (\<lambda>_.
             and_then (get_meta p) (\<lambda>mo.
               case mo of
                 None \<Rightarrow> ret empty_batch
               | Some current \<Rightarrow>
                   if generation current \<noteq> generation m then
                     (case restarts of
                        0 \<Rightarrow> throw ''stream replaced too often during read''
                      | Suc n \<Rightarrow> read_stitched n R Y p current after_offset cap limit budget)
                   else
                     let messages = rb_messages inherited;
                         remaining = budget - batch_bytes messages
                     in if rb_capped inherited \<or> limit \<le> length messages
                           \<or> (remaining = 0 \<and> messages \<noteq> [])
                        then ret \<lparr>rb_messages = messages, rb_capped = True\<rparr>
                        else
                          and_then (read_own Y p after cap (limit - length messages) remaining
                              (messages = [])) (\<lambda>own.
                            ret \<lparr>rb_messages = messages @ rb_messages own, rb_capped = rb_capped own\<rparr>)))))"

declare read_stitched.simps [simp del]

text \<open>The handler of the \<open>ReadRange\<close> action.\<close>

definition handle_read_range ::
  "nat \<Rightarrow> rpc \<Rightarrow> read_env \<Rightarrow> string \<Rightarrow> read_range \<Rightarrow> read_batch act" where
  "handle_read_range restarts R Y p action =
     and_then (get_meta p) (\<lambda>mo.
       case mo of
         None \<Rightarrow> ret empty_batch
       | Some m \<Rightarrow>
           read_stitched restarts R Y p m (rr_after_offset action) (Some (rr_cap_offset action))
             (case rr_limit action of None \<Rightarrow> MAX_READ_ROWS | Some n \<Rightarrow> n)
             (case rr_byte_budget action of None \<Rightarrow> MAX_READ_BYTES | Some n \<Rightarrow> n))"

subsection \<open>Snapshots\<close>

record read_snapshot =
  snap_meta :: meta
  snap_batch :: read_batch

text \<open>A semaphore without a free permit is a fault of the world.\<close>

definition try_acquire :: "string \<Rightarrow> unit act" where
  "try_acquire msg = and_then next_fault (\<lambda>f. if f = Ok then ret () else throw msg)"

definition take_snapshot ::
  "'j ext \<Rightarrow> nat \<Rightarrow> rpc \<Rightarrow> read_env \<Rightarrow> string \<Rightarrow> string option \<Rightarrow> string option \<Rightarrow> read_snapshot option act" where
  "take_snapshot E restarts R Y p off expected_generation =
     and_then (try_acquire ''too many concurrent reads'') (\<lambda>_.
     and_then now_ms (\<lambda>now.
     and_then (visible_meta E R p now) (\<lambda>mo.
       case mo of
         None \<Rightarrow> ret None
       | Some m \<Rightarrow>
           if (case expected_generation of None \<Rightarrow> False | Some g \<Rightarrow> g \<noteq> generation m) then ret None
           else
             and_then (env_before_batch Y) (\<lambda>_.
             and_then (read_stitched restarts R Y p m off None MAX_READ_ROWS MAX_READ_BYTES) (\<lambda>batch.
             and_then (env_after_batch Y) (\<lambda>_.
             and_then (get_meta p) (\<lambda>fo.
               case fo of
                 None \<Rightarrow> ret None
               | Some fresh \<Rightarrow>
                   if generation fresh \<noteq> generation m then ret None
                   else
                     and_then (env_before_touch Y) (\<lambda>_.
                     and_then now_ms (\<lambda>now'.
                     and_then (touch_access p now') (\<lambda>_.
                       ret (Some \<lparr>snap_meta = fresh, snap_batch = batch\<rparr>)))))))))))"

subsection \<open>The response to a read\<close>

definition batch_offset :: "read_snapshot \<Rightarrow> string" where
  "batch_offset s =
     (if rb_messages (snap_batch s) = [] then current_offset (snap_meta s)
      else sm_offset (last (rb_messages (snap_batch s))))"

definition snap_closed :: "read_snapshot \<Rightarrow> bool" where
  "snap_closed s \<longleftrightarrow>
     closed (snap_meta s) \<and> batch_offset s = current_offset (snap_meta s) \<and> \<not> rb_capped (snap_batch s)"

definition is_json_stream :: "meta \<Rightarrow> bool" where
  "is_json_stream m \<longleftrightarrow> normalize_content_type (content_type m) = json_type"

definition read_body :: "meta \<Rightarrow> stored_message list \<Rightarrow> bytes" where
  "read_body m ms =
     (if is_json_stream m then format_json_messages (map sm_data ms) else concatenate (map sm_data ms))"

definition build_read_response ::
  "'j ext \<Rightarrow> int \<Rightarrow> nat \<Rightarrow> string \<Rightarrow> request \<Rightarrow> string option \<Rightarrow> string option \<Rightarrow> string option
     \<Rightarrow> read_snapshot \<Rightarrow> resp result" where
  "build_read_response E now random actor_id req off live cursor s =
     (let ms = rb_messages (snap_batch s);
          response_offset = batch_offset s;
          up_to_date = \<not> rb_capped (snap_batch s);
          cl = snap_closed s
      in if live = Some ''long-poll'' \<and> ms = [] \<and> cl then
           response 204 [(STREAM_OFFSET, response_offset), (STREAM_UP_TO_DATE, ''true''), (STREAM_CLOSED, ''true'')] []
         else
           let h1 = (metadata_headers (snap_meta s))(STREAM_OFFSET \<mapsto> response_offset);
               h2 = (if live = Some ''long-poll'' then h1(STREAM_CURSOR \<mapsto> response_cursor now random cursor) else h1);
               h3 = (if up_to_date then h2(STREAM_UP_TO_DATE \<mapsto> ''true'') else h2);
               h4 = (if cl then h3 else h3(STREAM_CLOSED := None));
               etag = make_etag E actor_id (case off of None \<Rightarrow> ''-1'' | Some o' \<Rightarrow> o') response_offset cl
           in result_bind (public_header_text E req ''if-none-match'') (\<lambda>inm.
                if inm = Some etag then response 304 [(''etag'', etag)] []
                else
                  let h5 = h4(''etag'' \<mapsto> etag);
                      h6 = (if live = Some ''long-poll'' then h5
                            else h5(''cache-control'' \<mapsto> ''public, max-age=60, stale-while-revalidate=300''))
                  in from_parts 200 h6 (read_body (snap_meta s) ms)))"

subsection \<open>GET\<close>

text \<open>
  What the request asks for. \<open>Inl\<close> is the response that refuses it; a live stream takes its
  starting offset from the request, or \<open>-1\<close>.
\<close>

datatype get_plan =
    StartSse string "string option"
  | ReadOnce "string option" "string option" "string option"

definition get_checks :: "'j ext \<Rightarrow> request \<Rightarrow> (resp + get_plan) result" where
  "get_checks E req =
     (let offsets = query_values E req ''offset'';
          off = (case offsets of [] \<Rightarrow> None | o' # _ \<Rightarrow> Some o');
          live = (case query_values E req ''live'' of [] \<Rightarrow> None | l # _ \<Rightarrow> Some l);
          cursor = (case query_values E req ''cursor'' of [] \<Rightarrow> None | c # _ \<Rightarrow> Some c)
      in if 1 < length offsets then early 400 ''Multiple offset parameters not allowed''
         else if off = Some [] then early 400 ''Empty offset parameter''
         else if (case off of None \<Rightarrow> False | Some v \<Rightarrow> \<not> validate_offset v)
         then early 400 ''Invalid offset format''
         else if (live = Some ''long-poll'' \<or> live = Some ''sse'') \<and> off = None
         then early 400 ((if live = Some ''sse'' then ''SSE'' else ''Long-poll'') @ '' requires offset parameter'')
         else if live = Some ''sse''
         then Inr (Inr (StartSse (case off of None \<Rightarrow> ''-1'' | Some v \<Rightarrow> v) cursor))
         else Inr (Inr (ReadOnce off live cursor)))"

text \<open>
  How the wait for a change ends. Other handlers run meanwhile (\<open>lp_meanwhile\<close>); the watch channel
  fires only if the counter moved since the subscription, else the timer does.
\<close>

record long_poll =
  lp_meanwhile :: "unit act"
  lp_aborted :: bool
  lp_timer_first :: bool

datatype wake = Changed | TimedOut | Aborted

definition wait_for_change :: "string \<Rightarrow> 64 word \<Rightarrow> long_poll \<Rightarrow> wake act" where
  "wait_for_change p seen L =
     and_then (lp_meanwhile L) (\<lambda>_ w.
       (Inr (if lp_aborted L then Aborted
             else if lp_timer_first L \<or> a_changes (w_actors w p) = seen then TimedOut
             else Changed), w))"

definition subscribe :: "string \<Rightarrow> 64 word act" where
  "subscribe p w = (Inr (a_changes (w_actors w p)), w)"

definition now_body :: "meta \<Rightarrow> bytes" where
  "now_body m = (if is_json_stream m then ''[]'' else [])"

definition long_poll_timeout ::
  "int \<Rightarrow> nat \<Rightarrow> string \<Rightarrow> meta \<Rightarrow> string option \<Rightarrow> resp act" where
  "long_poll_timeout now random p initial cursor =
     and_then (get_meta p) (\<lambda>mo.
       let hs = hash_map [(STREAM_OFFSET, current_offset initial), (STREAM_UP_TO_DATE, ''true''),
                  (STREAM_CURSOR, response_cursor now random cursor)]
       in lift_result (from_parts 204
            (if (case mo of None \<Rightarrow> False | Some m \<Rightarrow> closed m) then hs(STREAM_CLOSED \<mapsto> ''true'') else hs) []))"

definition read_once ::
  "'j ext \<Rightarrow> nat \<Rightarrow> rpc \<Rightarrow> read_env \<Rightarrow> long_poll \<Rightarrow> read_env \<Rightarrow> nat \<Rightarrow> string \<Rightarrow> string \<Rightarrow> request
     \<Rightarrow> string option \<Rightarrow> string option \<Rightarrow> string option \<Rightarrow> resp act" where
  "read_once E restarts R Y L Y' random actor_id p req off live cursor =
     and_then (subscribe p) (\<lambda>seen.
     and_then now_ms (\<lambda>now.
     and_then (visible_meta E R p now) (\<lambda>mo.
     case mo of
       None \<Rightarrow> lift_result (text_response 404 ''Stream not found'' [])
     | Some initial \<Rightarrow>
         if soft_deleted initial then lift_result (text_response 410 ''Stream is gone'' [])
         else if off = Some ''now'' \<and> live \<noteq> Some ''long-poll'' then
           and_then (touch_access p now) (\<lambda>_.
             lift_result (from_parts 200
               ((metadata_headers initial)(STREAM_UP_TO_DATE \<mapsto> ''true'', ''cache-control'' \<mapsto> ''no-store''))
               (now_body initial)))
         else
           let effective = (if off = Some ''now'' then Some (current_offset initial) else off)
           in and_then (take_snapshot E restarts R Y p effective (Some (generation initial))) (\<lambda>so.
              case so of
                None \<Rightarrow> throw ''stream generation changed during read''
              | Some snapshot \<Rightarrow>
                  if live = Some ''long-poll'' \<and> effective = Some (current_offset initial)
                     \<and> rb_messages (snap_batch snapshot) = [] \<and> \<not> closed (snap_meta snapshot)
                  then
                    and_then (wait_for_change p seen L) (\<lambda>wake.
                    case wake of
                      Aborted \<Rightarrow> throw ''actor stopping''
                    | TimedOut \<Rightarrow> and_then now_ms (\<lambda>t. long_poll_timeout t random p initial cursor)
                    | Changed \<Rightarrow>
                        and_then (take_snapshot E restarts R Y' p (Some (current_offset initial))
                            (Some (generation initial))) (\<lambda>so'.
                        case so' of
                          None \<Rightarrow> lift_result (text_response 404 ''Stream not found'' [])
                        | Some s \<Rightarrow>
                            and_then now_ms (\<lambda>t.
                              lift_result (build_read_response E t random actor_id req off live cursor s))))
                  else
                    and_then now_ms (\<lambda>t.
                      lift_result (build_read_response E t random actor_id req off live cursor snapshot))))))"

subsection \<open>Server-sent events\<close>

definition starts_with :: "string \<Rightarrow> string \<Rightarrow> bool" where
  "starts_with s pre \<longleftrightarrow> take (length pre) s = pre"

definition sse_base64 :: "meta \<Rightarrow> bool" where
  "sse_base64 m \<longleftrightarrow>
     \<not> (case content_type m of None \<Rightarrow> False
        | Some c \<Rightarrow> starts_with (normalize_content_type (Some c)) ''text/'')
     \<and> \<not> is_json_stream m"

text \<open>One frame: the data event when there are messages, then the control event.\<close>

definition sse_data :: "'j ext \<Rightarrow> bool \<Rightarrow> bool \<Rightarrow> stored_message list \<Rightarrow> string" where
  "sse_data E use_base64 is_json ms =
     (let b = (if is_json then format_json_messages (map sm_data ms) else concatenate (map sm_data ms))
      in if use_base64 then b64_encode E b else from_utf8_lossy b)"

definition sse_control_of :: "int \<Rightarrow> nat \<Rightarrow> string option \<Rightarrow> read_snapshot \<Rightarrow> sse_control" where
  "sse_control_of now random cursor s =
     (if snap_closed s then StreamEnd (batch_offset s)
      else StreamNext (batch_offset s) (response_cursor now random cursor) (\<not> rb_capped (snap_batch s)))"

definition sse_frame ::
  "'j ext \<Rightarrow> int \<Rightarrow> nat \<Rightarrow> bool \<Rightarrow> bool \<Rightarrow> string option \<Rightarrow> read_snapshot \<Rightarrow> bytes" where
  "sse_frame E now random use_base64 is_json cursor s =
     (if rb_messages (snap_batch s) = [] then []
      else ''event: data'' @ [LF]
        @ encode_sse_data (sse_data E use_base64 is_json (rb_messages (snap_batch s))))
     @ ''event: control'' @ [LF] @ encode_sse_data (control_to_json E (sse_control_of now random cursor s))"

datatype chunk = Data bytes bool | Failed string

text \<open>
  What happens around one turn of the loop: the environment of its read, whether the client has
  gone when the frame is sent, whether the lifetime is over, and whether the actor stops during the
  wait. The loop is modelled over a list of turns: it has run as many turns as the list holds. An
  error of a turn is the chunk \<open>Failed\<close> that the task sends before it ends.
\<close>

record sse_turn =
  turn_env :: read_env
  turn_random :: nat
  turn_client_gone :: bool
  turn_lifetime_over :: bool
  turn_wait :: "unit act"
  turn_abort :: bool

fun pump_sse ::
  "'j ext \<Rightarrow> nat \<Rightarrow> rpc \<Rightarrow> string \<Rightarrow> string \<Rightarrow> string \<Rightarrow> string option \<Rightarrow> bool \<Rightarrow> bool \<Rightarrow> sse_turn list
     \<Rightarrow> chunk list act" where
  "pump_sse E restarts R p gen off cursor use_base64 is_json [] = ret []"
| "pump_sse E restarts R p gen off cursor use_base64 is_json (T # Ts) =
     and_then (attempt (take_snapshot E restarts R (turn_env T) p (Some off) (Some gen))) (\<lambda>so.
     case so of
       Inl e \<Rightarrow> ret [Failed e]
     | Inr None \<Rightarrow> ret [Data [] True]
     | Inr (Some s) \<Rightarrow>
         and_then now_ms (\<lambda>now.
         let frame = sse_frame E now (turn_random T) use_base64 is_json cursor s
         in if snap_closed s then ret [Data frame True]
            else if turn_client_gone T then ret []
            else
              and_then
                (if rb_capped (snap_batch s)
                 then pump_sse E restarts R p gen (batch_offset s) cursor use_base64 is_json Ts
                 else if turn_lifetime_over T then ret [Data [] True]
                 else and_then (turn_wait T) (\<lambda>_.
                        if turn_abort T then ret []
                        else pump_sse E restarts R p gen (batch_offset s) cursor use_base64 is_json Ts))
                (\<lambda>rest. ret (Data frame False # rest))))"

record sse_stream =
  sse_generation :: string
  sse_offset :: string
  sse_cursor :: "string option"
  sse_use_base64 :: bool
  sse_is_json :: bool

text \<open>\<open>Inl\<close> a finite response; \<open>Inr\<close> the headers of the event stream and what its pump starts from.\<close>

definition start_sse ::
  "'j ext \<Rightarrow> rpc \<Rightarrow> string \<Rightarrow> string \<Rightarrow> string option \<Rightarrow> (resp + (string \<rightharpoonup> string) \<times> sse_stream) act" where
  "start_sse E R p off cursor =
     and_then now_ms (\<lambda>now.
     and_then (visible_meta E R p now) (\<lambda>mo.
     case mo of
       None \<Rightarrow> and_then (lift_result (text_response 404 ''Stream not found'' [])) (\<lambda>r. ret (Inl r))
     | Some m \<Rightarrow>
         if soft_deleted m then and_then (lift_result (text_response 410 ''Stream is gone'' [])) (\<lambda>r. ret (Inl r))
         else
           and_then (attempt (try_acquire ''no permit'')) (\<lambda>permit.
           case permit of
             Inl _ \<Rightarrow>
               and_then (lift_result (text_response 429 ''Too many live readers'' [(''retry-after'', ''1'')]))
                 (\<lambda>r. ret (Inl r))
           | Inr _ \<Rightarrow>
               let hs = hash_map ([(''content-type'', ''text/event-stream''), (''cache-control'', ''no-cache, no-store''),
                          (''connection'', ''keep-alive''), (''content-encoding'', ''identity'')]
                          @ (if sse_base64 m then [(SSE_DATA_ENCODING, ''base64'')] else []))
               in ret (Inr (hs, \<lparr>sse_generation = generation m,
                    sse_offset = (if off = ''now'' then current_offset m else off), sse_cursor = cursor,
                    sse_use_base64 = sse_base64 m, sse_is_json = is_json_stream m\<rparr>)))))"

text \<open>The whole of a live response: its headers and the chunks of the given turns.\<close>

datatype reply = Finite (finite_resp: resp) | Streaming "string \<rightharpoonup> string" "chunk list"

definition run_sse ::
  "'j ext \<Rightarrow> nat \<Rightarrow> rpc \<Rightarrow> string \<Rightarrow> string \<Rightarrow> string option \<Rightarrow> sse_turn list \<Rightarrow> reply act" where
  "run_sse E restarts R p off cursor Ts =
     and_then (start_sse E R p off cursor) (\<lambda>r.
     case r of
       Inl resp \<Rightarrow> ret (Finite resp)
     | Inr (hs, st) \<Rightarrow>
         and_then (pump_sse E restarts R p (sse_generation st) (sse_offset st) (sse_cursor st)
             (sse_use_base64 st) (sse_is_json st) Ts) (\<lambda>cs.
           ret (Streaming hs cs)))"

definition handle_get ::
  "'j ext \<Rightarrow> nat \<Rightarrow> rpc \<Rightarrow> read_env \<Rightarrow> long_poll \<Rightarrow> read_env \<Rightarrow> sse_turn list \<Rightarrow> nat \<Rightarrow> string \<Rightarrow> string
     \<Rightarrow> request \<Rightarrow> reply act" where
  "handle_get E restarts R Y L Y' Ts random actor_id p req =
     and_then (lift_result (get_checks E req)) (\<lambda>plan.
     case plan of
       Inl r \<Rightarrow> ret (Finite r)
     | Inr (StartSse off cursor) \<Rightarrow> run_sse E restarts R p off cursor Ts
     | Inr (ReadOnce off live cursor) \<Rightarrow>
         and_then (read_once E restarts R Y L Y' random actor_id p req off live cursor) (\<lambda>r. ret (Finite r)))"

subsection \<open>Dispatch\<close>

datatype callback_class = Live | Standard

definition classify_http_request :: "'j ext \<Rightarrow> request \<Rightarrow> callback_class" where
  "classify_http_request E req =
     (if req_method req = GET \<and> (case query_values E req ''live'' of [] \<Rightarrow> False | l # _ \<Rightarrow> l = ''sse'')
      then Live else Standard)"

definition on_fetch_response ::
  "'j ext \<Rightarrow> nat \<Rightarrow> rpc \<Rightarrow> read_env \<Rightarrow> long_poll \<Rightarrow> read_env \<Rightarrow> sse_turn list \<Rightarrow> nat \<Rightarrow> string \<Rightarrow> string
     \<Rightarrow> request \<Rightarrow> reply act" where
  "on_fetch_response E restarts R Y L Y' Ts random actor_id p req =
     (let finite = (\<lambda>m. and_then m (\<lambda>r. ret (Finite r)))
      in case req_method req of
           PUT \<Rightarrow> finite (handle_put E R p req)
         | POST \<Rightarrow> finite (handle_post E R p req)
         | GET \<Rightarrow> handle_get E restarts R Y L Y' Ts random actor_id p req
         | HEAD \<Rightarrow> finite (handle_head E R actor_id p)
         | DELETE \<Rightarrow> finite (handle_delete E R p)
         | _ \<Rightarrow> finite (lift_result (response 405 [(''allow'', ''GET, POST, PUT, DELETE, HEAD, OPTIONS'')] [])))"

end
