(* ===== verification/Network.thy ===== *)
theory Network
  imports Read
begin

text \<open>
  The actors calling one another. A fork reaches its source, which may be a fork itself, so the
  calls nest as deep as the chain of forks: \<open>rpc_at\<close> answers calls with the handlers of
  \<open>src/actor.rs\<close> up to a depth, and \<open>fork_depth\<close> is the depth a stream needs.
\<close>

fun rpc_at :: "'j ext \<Rightarrow> nat \<Rightarrow> read_env \<Rightarrow> nat \<Rightarrow> rpc" where
  "rpc_at E restarts Y 0 =
     \<lparr>rpc_acquire = (\<lambda>q action. throw ''call depth exceeded''),
      rpc_release = (\<lambda>q action. throw ''call depth exceeded''),
      rpc_read = (\<lambda>q action. throw ''call depth exceeded'')\<rparr>"
| "rpc_at E restarts Y (Suc depth) =
     \<lparr>rpc_acquire = fork_acquire E (rpc_at E restarts Y depth),
      rpc_release = fork_release (rpc_at E restarts Y depth),
      rpc_read = handle_read_range restarts (rpc_at E restarts Y depth) Y\<rparr>"

end
