(* ===== verification/Keeping.thy ===== *)
theory Keeping
  imports Network
begin

text \<open>
  Invariants of the world that reads keep. The two locales state what a proof about the reading side
  needs of an invariant and of the actions a read calls: \<open>keeper\<close>, that the invariant is one of the
  databases; \<open>reader\<close>, that looking a stream up, touching it and reading another stream keep it.
  What follows holds of every such invariant. What runs at the \<open>await\<close> points of a read is assumed
  to keep it too.
\<close>

definition env_in :: "(unit act \<Rightarrow> bool) \<Rightarrow> read_env \<Rightarrow> bool" where
  "env_in A Y \<longleftrightarrow>
     A (env_before_query Y) \<and> A (env_between_queries Y) \<and> A (env_after_source Y)
     \<and> A (env_before_batch Y) \<and> A (env_after_batch Y) \<and> A (env_before_touch Y)"

definition turns_in :: "(unit act \<Rightarrow> bool) \<Rightarrow> sse_turn list \<Rightarrow> bool" where
  "turns_in A Ts \<longleftrightarrow> list_all (\<lambda>T. env_in A (turn_env T) \<and> A (turn_wait T)) Ts"

lemma env_in_mono [mono]: "A \<le> B \<Longrightarrow> env_in A Y \<longrightarrow> env_in B Y"
  by (auto simp: env_in_def)

lemma turns_in_mono [mono]: "A \<le> B \<Longrightarrow> turns_in A Ts \<longrightarrow> turns_in B Ts"
  by (auto simp: turns_in_def list_all_iff env_in_def le_fun_def)

lemma env_inD:
  assumes "env_in A Y"
  shows "A (env_before_query Y)" "A (env_between_queries Y)" "A (env_after_source Y)"
    "A (env_before_batch Y)" "A (env_after_batch Y)" "A (env_before_touch Y)"
  using assms by (simp_all add: env_in_def)

lemma quiet_env [simp]: "A (ret ()) \<Longrightarrow> env_in A quiet"
  by (simp add: env_in_def quiet_def)

lemma keeps_quiet [simp]: "env_in (keeps I) quiet"
  by (simp add: gives_pure)

text \<open>The row that \<open>visible_meta\<close> hands out is the committed one.\<close>

lemma visible_meta_Some:
  assumes "visible_meta_while_locked E R p now w = (Inr (Some m), w')"
  shows "db_meta (db_of w' p) = Some m"
proof (cases "db_meta (db_of w p)")
  case None
  with assms show ?thesis by (simp add: visible_meta_while_locked_def and_then_def get_meta_def ret_def)
next
  case (Some m0)
  obtain r w1 where s: "schedule_maintenance_after p MAINTENANCE_RETRY_MS w = (r, w1)"
    by (cases "schedule_maintenance_after p MAINTENANCE_RETRY_MS w")
  then have "db_of w1 p = db_of w p"
    using schedule_dbs [of p _ w p] by (metis schedule_maintenance_after_def snd_conv)
  with Some assms s show ?thesis
    by (auto simp: visible_meta_while_locked_def and_then_def get_meta_def ret_def get_meta_tx_def
        rollback_def begin_mutation_cases commit_def update_actor_def notify_change_def
        set_soft_deleted_def update_meta_def split: if_splits sum.splits prod.splits)
qed

subsection \<open>Keepers\<close>

locale keeper =
  fixes I :: "world \<Rightarrow> bool"
  assumes frugal: "frugal I"
begin

lemma effects:
  "keeps I (get_meta p)" "keeps I (get_db p)" "keeps I (begin_mutation p)" "keeps I (new_uuid E)"
  "keeps I (notify_change p)" "keeps I (schedule p al)" "keeps I next_fault"
  by (simp_all add: keeps_frugal [OF frugal])
    (auto simp: gives_def act_simps begin_mutation_cases elim: frugalD [OF frugal])

lemma maintenance_event: "keeps I (schedule_maintenance_after p n)"
  by (simp add: schedule_maintenance_after_def effects)

lemma expiry_event: "keeps I (schedule_expiry E p m)"
  by (auto simp: schedule_expiry_def intro: effects gives_pure split: option.split)

lemma remote: "gives I m Q \<Longrightarrow> gives I (remote m) Q"
  by (rule keeps_remote [OF frugal])

lemma try_acquire: "keeps I (try_acquire msg)"
  unfolding try_acquire_def by (rule gives_and_then_keeps [OF effects(7)] gives_branches gives_pure TrueI)+

lemma subscribe: "keeps I (subscribe p)"
  by (simp add: gives_def subscribe_def)

lemma wait: "keeps I (lp_meanwhile L) \<Longrightarrow> keeps I (wait_for_change p seen L)"
  unfolding wait_for_change_def by (rule gives_and_then_keeps, assumption) (simp add: gives_def)

lemma lifted_then: "(\<And>x. r = Inr x \<Longrightarrow> gives I (f x) Q) \<Longrightarrow> gives I (and_then (lift_result r) f) Q"
  by (cases r) (simp_all add: gives_pure)

lemmas steps_then = gives_and_then_keeps [OF effects(1)] gives_and_then_keeps [OF effects(2)]
  gives_and_then_keeps [OF effects(4)] gives_and_then_keeps [OF effects(5)] gives_and_then_keeps [OF maintenance_event]
  gives_and_then_keeps [OF expiry_event] gives_and_then_keeps [OF gives_pure(3)] gives_and_then_keeps [OF gives_pure(4)]
  lifted_then

lemmas steps = steps_then gives_branches gives_pure TrueI keeps_lift

end

subsection \<open>Recorders\<close>

text \<open>
  An invariant that every transaction of a kind keeps. A handler that holds the lock of a stream
  commits to it a transaction that starts from the database it has begun with.
\<close>

locale recorder = keeper +
  fixes step :: "db \<Rightarrow> db \<Rightarrow> bool"
  assumes commits: "I w \<Longrightarrow> step (db_of w p) d \<Longrightarrow> I (snd (commit p d w))"
begin

lemma commit_last: "step d d' \<Longrightarrow> triple I (\<lambda>w. db_of w p = d) (commit p d') (\<lambda>x w. True)"
  using commits by (auto simp: triple_def)

lemma commit_then:
  "step d d' \<Longrightarrow> gives I (f ()) Q \<Longrightarrow> triple I (\<lambda>w. db_of w p = d) (and_then (commit p d') f) (\<lambda>x w. Q x)"
  by (rule triple_and_then [OF commit_last]) (auto intro: triple_of_gives)

lemma begin_then:
  "triple I (\<lambda>w. db_of w p = d) (f d) Q \<Longrightarrow> triple I (\<lambda>w. db_of w p = d) (and_then (begin_mutation p) f) Q"
  by (rule triple_and_then [OF triple_begin_mutation [OF frugal]]) (auto simp: triple_def)

lemma tx_then:
  assumes "\<And>d. triple I (\<lambda>w. db_of w p = d) (f d) (\<lambda>x w. Q x)"
  shows "gives I (and_then (begin_mutation p) f) Q"
proof -
  have "triple I (\<lambda>w. db_of w p = d) (and_then (begin_mutation p) f) (\<lambda>x w. Q x)" for d
    by (rule begin_then) (rule assms)
  then show ?thesis by (auto simp: triple_def gives_def)
qed

lemma event_then:
  "triple I (\<lambda>w. db_of w p = d) (f ()) Q
    \<Longrightarrow> triple I (\<lambda>w. db_of w p = d) (and_then (schedule_maintenance_after q n) f) Q"
  unfolding schedule_maintenance_after_def
  by (rule triple_and_then [OF triple_schedule [OF frugal]]) (auto simp: triple_def)

lemma event_if_then:
  "triple I (\<lambda>w. db_of w p = d) (f ()) Q
    \<Longrightarrow> triple I (\<lambda>w. db_of w p = d) (and_then (if b then schedule_maintenance_after q n else ret ()) f) Q"
  by (cases b) (simp_all add: event_then)

lemma rollback_then: "gives I (f ()) Q \<Longrightarrow> triple I P (and_then (rollback d) f) (\<lambda>x w. Q x)"
  by (simp add: triple_of_gives rollback_def)

text \<open>A handler that reads the row of a stream and acts on it.\<close>

lemma meta_then:
  assumes "\<And>d. triple I (\<lambda>w. db_of w p = d) (f (db_meta d)) (\<lambda>x w. Q x)"
  shows "gives I (and_then (get_meta p) f) Q"
  using assms by (auto simp: gives_def triple_def and_then_def get_meta_def)

lemma visible_lock:
  assumes "keeps I (visible_meta_while_locked E R p now)" and "gives I g Q"
    and "\<And>d m. db_meta d = Some m \<Longrightarrow> triple I (\<lambda>w. db_of w p = d) (h m) (\<lambda>x w. Q x)"
  shows "gives I (and_then (visible_meta_while_locked E R p now) (case_option g h)) Q"
proof (rule gives_of_triple, rule triple_and_then)
  show "triple I (\<lambda>w. True) (visible_meta_while_locked E R p now)
      (\<lambda>mo w. \<forall>m. mo = Some m \<longrightarrow> db_meta (db_of w p) = Some m)"
    using assms(1) unfolding triple_def gives_def by (metis prod.collapse visible_meta_Some)
  fix mo
  show "triple I (\<lambda>w. \<forall>m. mo = Some m \<longrightarrow> db_meta (db_of w p) = Some m) (case_option g h mo) (\<lambda>x w. Q x)"
    using assms(2,3) by (cases mo) (auto simp: triple_def gives_def)
qed

end

subsection \<open>Readers\<close>

locale reader = keeper +
  fixes E :: "'j ext" and R :: rpc
  assumes visible: "keeps I (visible_meta_while_locked E R p now)"
    and touch: "keeps I (touch_access p now)"
    and read: "keeps I (rpc_read R q a)"
begin

lemma visible_then: "(\<And>x. gives I (f x) Q) \<Longrightarrow> gives I (and_then (visible_meta E R p now) f) Q"
  unfolding visible_meta_def by (rule gives_and_then_keeps [OF visible])

lemma read_own: "env_in (keeps I) Y \<Longrightarrow> keeps I (read_own Y p after cap limit budget first)"
  unfolding read_own_def
  by (rule gives_and_then_keeps [OF env_inD(1)] gives_and_then_keeps [OF env_inD(2)] steps | assumption)+

lemma stitched:
  assumes "env_in (keeps I) Y"
  shows "keeps I (read_stitched n R Y p m after cap limit budget)"
proof (induction n arbitrary: m limit budget)
  case 0
  show ?case
    unfolding read_stitched.simps [of 0] Let_def
    by (rule gives_and_then_keeps [OF read_own [OF assms]] gives_and_then_keeps [OF remote [OF read]]
        gives_and_then_keeps [OF env_inD(3) [OF assms]] steps | simp add: gives_pure)+
next
  case (Suc n)
  show ?case
    unfolding read_stitched.simps [of "Suc n"] Let_def nat.case
    by (rule gives_and_then_keeps [OF read_own [OF assms]] gives_and_then_keeps [OF remote [OF read]]
        gives_and_then_keeps [OF env_inD(3) [OF assms]] steps Suc.IH)+
qed

lemma read_range: "env_in (keeps I) Y \<Longrightarrow> keeps I (handle_read_range n R Y p a)"
  unfolding handle_read_range_def by (rule steps stitched | assumption)+

lemma snapshot:
  assumes "env_in (keeps I) Y"
  shows "keeps I (take_snapshot E n R Y p off gen)"
  unfolding take_snapshot_def
  by (rule gives_and_then_keeps [OF try_acquire] visible_then gives_and_then_keeps [OF env_inD(4) [OF assms]]
      gives_and_then_keeps [OF env_inD(5) [OF assms]] gives_and_then_keeps [OF env_inD(6) [OF assms]]
      gives_and_then_keeps [OF stitched [OF assms]] gives_and_then_keeps [OF touch] steps)+

lemma once:
  assumes "env_in (keeps I) Y" "env_in (keeps I) Y'" "keeps I (lp_meanwhile L)"
  shows "keeps I (read_once E n R Y L Y' rnd aid p req off live cursor)"
proof -
  have timeout: "keeps I (long_poll_timeout t rnd p m c)" for t m c
    unfolding long_poll_timeout_def Let_def by (rule steps)+
  have answer: "keeps I (and_then now_ms (\<lambda>t. lift_result (r t)))" for r :: "int \<Rightarrow> resp result"
    by (rule steps)+
  have wake: "keeps I (case wk of Aborted \<Rightarrow> a | TimedOut \<Rightarrow> b | Changed \<Rightarrow> c)"
    if "keeps I a" "keeps I b" "keeps I c" for wk and a b c :: "resp act"
    using that by (cases wk) simp_all
  show ?thesis
    unfolding read_once_def Let_def
    by (rule gives_and_then_keeps [OF subscribe] wake answer timeout visible_then gives_and_then_keeps [OF wait [OF assms(3)]]
        gives_and_then_keeps [OF snapshot [OF assms(1)]] gives_and_then_keeps [OF snapshot [OF assms(2)]]
        gives_and_then_keeps [OF touch] steps)+
qed

lemma pump:
  assumes "turns_in (keeps I) Ts"
  shows "keeps I (pump_sse E n R p gen off cursor b64 js Ts)"
  using assms
proof (induction Ts arbitrary: off)
  case (Cons T Ts)
  then have T: "env_in (keeps I) (turn_env T)" "keeps I (turn_wait T)"
    and Ts: "keeps I (pump_sse E n R p gen off cursor b64 js Ts)" for off
    by (auto simp: turns_in_def)
  have snap: "keeps I (attempt (take_snapshot E n R (turn_env T) p (Some off) (Some gen)))"
    by (intro keeps_attempt snapshot T)
  have rest: "keeps I
      (if c then pump_sse E n R p gen o2 cursor b64 js Ts
       else if turn_lifetime_over T then ret [Data [] True]
       else and_then (turn_wait T) (\<lambda>_. if turn_abort T then ret []
              else pump_sse E n R p gen o2 cursor b64 js Ts))" for c o2
    by (rule gives_branches Ts gives_pure TrueI gives_and_then_keeps [OF T(2)])+
  show ?case
    unfolding pump_sse.simps Let_def
    by (rule gives_and_then_keeps [OF snap] gives_and_then_keeps [OF rest] steps)+
qed (simp add: gives_pure)

lemma start: "keeps I (start_sse E R p off cursor)"
  unfolding start_sse_def Let_def
  by (rule gives_and_then_keeps [OF keeps_attempt [OF try_acquire]] visible_then steps)+

lemma get:
  assumes "env_in (keeps I) Y" "env_in (keeps I) Y'" "keeps I (lp_meanwhile L)" "turns_in (keeps I) Ts"
  shows "keeps I (handle_get E n R Y L Y' Ts rnd aid p req)"
proof -
  have plan: "keeps I (case q of StartSse off c \<Rightarrow> f off c | ReadOnce off live c \<Rightarrow> g off live c)"
    if "\<And>off c. keeps I (f off c)" "\<And>off live c. keeps I (g off live c)"
    for q and f :: "string \<Rightarrow> string option \<Rightarrow> reply act" and g
    using that by (cases q) simp_all
  show ?thesis
    unfolding handle_get_def run_sse_def
    by (rule plan gives_and_then_keeps [OF start] gives_and_then_keeps [OF once [OF assms(1-3)]]
        gives_and_then_keeps [OF pump [OF assms(4)]] steps)+
qed

lemma head: "keeps I (handle_head E R actor_id p)"
  unfolding handle_head_def by (rule visible_then steps)+

text \<open>The dispatch, given what the writing handlers keep.\<close>

lemma dispatch:
  assumes "keeps I (handle_put E R p req)" "keeps I (handle_post E R p req)" "keeps I (handle_delete E R p)"
    and "env_in (keeps I) Y" "env_in (keeps I) Y'" "keeps I (lp_meanwhile L)" "turns_in (keeps I) Ts"
  shows "keeps I (on_fetch_response E n R Y L Y' Ts rnd aid p req)"
proof -
  have finite: "keeps I (and_then m (\<lambda>r. ret (Finite r)))" if "keeps I m" for m
    by (rule gives_and_then_keeps [OF that] steps)+
  show ?thesis
    unfolding on_fetch_response_def Let_def
    by (cases "req_method req") (simp_all add: finite head get assms keeps_lift)
qed

end

end
