(* ===== verification/Invariant.thy ===== *)
theory Invariant
  imports Keeping
begin

text \<open>
  The well-formedness of a stream's database and its preservation by every statement, every
  transaction and every handler, whatever fails and wherever it is cut off.
\<close>

subsection \<open>Well-formed databases\<close>

definition safe_integer :: "int \<Rightarrow> bool" where
  "safe_integer n \<longleftrightarrow> 0 \<le> n \<and> n \<le> 9007199254740991"

definition wf_tables :: "db \<Rightarrow> bool" where
  "wf_tables d \<longleftrightarrow>
     distinct (map fst (db_producers d)) \<and> distinct (map fst (db_fork_edges d))
     \<and> distinct (map fi_edge_id (db_fork_intents d)) \<and> distinct (map gr_edge_id (db_gc_releases d))
     \<and> (\<forall>(i, st) \<in> set (db_producers d). safe_integer (ps_epoch st) \<and> safe_integer (ps_last_seq st))
     \<and> (\<forall>(e, off) \<in> set (db_fork_edges d). stream_offset off)"

text \<open>Without a stream there is nothing for producers and forks to refer to, and a soft-deleted
  stream is kept for its forks.\<close>

definition wf_rows :: "db \<Rightarrow> bool" where
  "wf_rows d \<longleftrightarrow>
     (case db_meta d of
        None \<Rightarrow> db_producers d = [] \<and> db_fork_edges d = []
      | Some m \<Rightarrow> soft_deleted m \<longrightarrow> db_fork_edges d \<noteq> [])"

definition wf_db :: "db \<Rightarrow> bool" where
  "wf_db d \<longleftrightarrow> wf_log d \<and> wf_tables d \<and> wf_rows d"

lemma wf_empty_db [simp]: "wf_db empty_db"
  by (simp add: wf_db_def wf_log_def wf_tables_def wf_rows_def empty_db_def)

lemma wf_db_log: "wf_db d \<Longrightarrow> wf_log d"
  by (simp add: wf_db_def)

subsection \<open>Statements\<close>

lemma wf_db_update_meta:
  assumes "wf_db d" and "\<And>m. base_offset (f m) = base_offset m"
    and "\<And>m. current_offset (f m) = current_offset m" and "\<And>m. soft_deleted (f m) = soft_deleted m"
  shows "wf_db (update_meta f d)"
  using assms wf_log_update_meta [of d f]
  by (auto simp: wf_db_def wf_tables_def wf_rows_def update_meta_def split: option.splits)

lemma wf_db_meta_ops [keeps_intros]:
  assumes "wf_db d"
  shows "wf_db (touch d now)" "wf_db (set_last_seq d s)" "wf_db (set_closed d by')"
  unfolding touch_def set_last_seq_def set_closed_def
  by (rule wf_db_update_meta [OF assms]; simp)+

lemma wf_db_set_soft_deleted [keeps_intros]:
  assumes "wf_db d" and "0 < fork_edge_count d"
  shows "wf_db (set_soft_deleted d)"
  using assms wf_log_update_meta [of d "\<lambda>m. m\<lparr>soft_deleted := True\<rparr>"]
  by (auto simp: wf_db_def wf_tables_def wf_rows_def update_meta_def set_soft_deleted_def
      fork_edge_count_def split: option.splits)

lemma wf_tables_frame:
  "wf_db d \<Longrightarrow> wf_db (d\<lparr>db_fork_intents := is\<rparr>) \<longleftrightarrow> distinct (map fi_edge_id is)"
  "wf_db d \<Longrightarrow> wf_db (d\<lparr>db_gc_releases := gs\<rparr>) \<longleftrightarrow> distinct (map gr_edge_id gs)"
  by (auto simp: wf_db_def wf_tables_def wf_rows_def wf_log_def split: option.splits)

lemma wf_distinct:
  assumes "wf_db d"
  shows "distinct (map fi_edge_id (db_fork_intents d))" "distinct (map gr_edge_id (db_gc_releases d))"
    "distinct (map fst (db_producers d))" "distinct (map fst (db_fork_edges d))"
  using assms by (simp_all add: wf_db_def wf_tables_def)

lemma wf_db_queues [keeps_intros]:
  assumes "wf_db d"
  shows "wf_db (put_fork_intent d e parent key)" "wf_db (delete_fork_intent d e)"
    "wf_db (enqueue_gc_release d e parent gen)" "wf_db (dequeue_gc_release d e)"
  using assms wf_distinct [OF assms]
  by (auto simp: put_fork_intent_def delete_fork_intent_def enqueue_gc_release_def
      dequeue_gc_release_def wf_tables_frame distinct_map_filter)

lemma wf_db_purge_stream_tx [keeps_intros]: "wf_db d \<Longrightarrow> wf_db (purge_stream_tx d m)"
proof -
  have purge: "wf_db (purge d)" if "wf_db d" for d
    using that by (auto simp: wf_db_def wf_tables_def wf_rows_def wf_log_def purge_def)
  assume "wf_db d"
  then show ?thesis
    by (auto simp: purge_stream_tx_def split: option.split intro: purge wf_db_queues)
qed

lemma wf_db_insert_fork_edge:
  assumes "wf_db d" and "db_meta d \<noteq> None" and "stream_offset off"
    and "insert_fork_edge d e off = Inr (d', recorded)"
  shows "wf_db d'" and "stream_offset recorded"
  using assms
  by (auto simp: insert_fork_edge_Inr get_fork_edge_tx_def wf_db_def wf_tables_def wf_rows_def
      wf_log_def map_of_eq_None_iff split: option.splits dest!: map_of_SomeD)

text \<open>A soft-deleted stream that loses its last edge has to go with it.\<close>

lemma wf_db_delete_fork_edge:
  assumes "wf_db d" and "db_meta d = Some m"
    and "soft_deleted m \<Longrightarrow> fork_edge_count (delete_fork_edge d e) \<noteq> 0"
  shows "wf_db (delete_fork_edge d e)"
  using assms
  by (auto simp: wf_db_def wf_tables_def wf_rows_def wf_log_def delete_fork_edge_def
      fork_edge_count_def distinct_map_filter split: option.splits)

lemma wf_db_purged:
  assumes "wf_db d"
  shows "wf_db (purge_stream_tx (delete_fork_edge d e) m)"
proof -
  have "purge_stream_tx (delete_fork_edge d e) m = purge_stream_tx d m"
    by (simp add: purge_stream_tx_def purge_def delete_fork_edge_def enqueue_gc_release_def
        split: option.split)
  with assms show ?thesis by (simp add: wf_db_purge_stream_tx)
qed

lemma get_producer_state_frame:
  assumes "get_producer_state d i before = (st, d')"
  shows "db_meta d' = db_meta d" "db_messages d' = db_messages d" "db_fork_edges d' = db_fork_edges d"
    "db_fork_intents d' = db_fork_intents d" "db_gc_releases d' = db_gc_releases d"
    "\<exists>P. db_producers d' = filter P (db_producers d)" "st = map_of (db_producers d') i"
  using assms
  by (auto simp: get_producer_state_def sweep_producers_def delete_expired_producer_def Let_def filter_filter)

lemma wf_db_get_producer_state:
  assumes "wf_db d" and "get_producer_state d i before = (st, d')"
  shows "wf_db d'"
  using get_producer_state_frame [OF assms(2)] assms(1)
  by (auto simp: wf_db_def wf_tables_def wf_rows_def wf_log_def distinct_map_filter split: option.splits)

lemma wf_db_commit_producer_state [keeps_intros]:
  assumes "wf_db d" and "db_meta d \<noteq> None" and "safe_integer (ps_epoch st)" "safe_integer (ps_last_seq st)"
  shows "wf_db (commit_producer_state d i st)"
proof -
  have "fst \<circ> (\<lambda>(p, old). (p, if p = i then st else old)) = fst"
    by (auto simp: fun_eq_iff)
  with assms show ?thesis
    by (auto simp: wf_db_def wf_tables_def wf_rows_def wf_log_def commit_producer_state_def
        split: option.splits)
qed

lemma wf_db_append_message:
  assumes "wf_db d" and "db_meta d = Some m"
    and "append_message d (current_offset m) payload now = Inr (d', nxt)"
  shows "wf_db d'"
    and "db_meta d' = Some (m\<lparr>current_offset := nxt\<rparr>)"
proof -
  note log = wf_db_log [OF assms(1)]
  note eq = assms(3) [unfolded append_message_wf [OF log assms(2)] result_bind_Inr_iff]
  show "db_meta d' = Some (m\<lparr>current_offset := nxt\<rparr>)" using eq by auto
  show "wf_db d'"
    using append_message_keeps_wf_log [OF log assms(2,3)] eq assms(1,2)
    by (auto simp: wf_db_def wf_tables_def wf_rows_def)
qed

lemma wf_db_create_meta:
  assumes "wf_db d" and "(if ff \<noteq> None then (case fo of Some f \<Rightarrow> stream_offset f | None \<Rightarrow> True) else True)"
    and "create_meta d g ct ttl ex cl now ff fo fso fe fsg = Inr d'"
  shows "wf_db d'" and "\<exists>m. db_meta d' = Some m \<and> current_offset m = (if ff \<noteq> None then (case fo of Some f \<Rightarrow> f | None \<Rightarrow> ZERO_OFFSET) else ZERO_OFFSET)"
  using assms
  by (auto simp: create_meta_def Let_def wf_db_def wf_tables_def wf_rows_def wf_log_def base_offset_def
      split: option.splits if_splits)

subsection \<open>Worlds\<close>

definition wf_world :: "world \<Rightarrow> bool" where
  "wf_world w \<longleftrightarrow> (\<forall>p. wf_db (db_of w p))"

lemma frugal_wf_world: "frugal wf_world"
  by (simp add: frugal_def wf_world_def)

interpretation wf: recorder wf_world "\<lambda>d d'. wf_db d \<longrightarrow> wf_db d'"
  by unfold_locales (auto simp: frugal_wf_world wf_world_def commit_def update_actor_def)

lemmas wf_frugal = keeps_frugal [OF frugal_wf_world]

lemma wf_effects [keeps_intros]:
  "gives wf_world (get_db p) wf_db"
  "gives wf_world (begin_mutation p) wf_db"
  "keeps wf_world (get_meta p)"
  "wf_db d \<Longrightarrow> keeps wf_world (commit p d)"
  "keeps wf_world (notify_change p)"
  "keeps wf_world (schedule p al)"
  "keeps wf_world (new_uuid E)"
  by (auto simp: gives_def wf_world_def act_simps begin_mutation_cases commit_def update_actor_def
      notify_change_def schedule_dbs new_uuid_def)

lemma wf_commit: "wf_db d \<Longrightarrow> gives wf_world (commit p d) (\<lambda>_. True)"
  by (rule wf_effects)

lemma wf_schedule [keeps_intros]:
  "keeps wf_world (schedule_maintenance_after p n)" "keeps wf_world (schedule_expiry E p m)"
  by (auto simp: schedule_maintenance_after_def schedule_expiry_def
      intro: wf_effects gives_pure split: option.split)

text \<open>The rules for sequencing a transaction, and a handler that acts on the row it has read.\<close>

lemma wf_tx: "(\<And>tx. wf_db tx \<Longrightarrow> gives wf_world (f tx) Q) \<Longrightarrow> gives wf_world (and_then (begin_mutation p) f) Q"
  by (rule gives_and_then [OF wf_effects(2)])

lemma wf_db_read: "(\<And>d. wf_db d \<Longrightarrow> gives wf_world (f d) Q) \<Longrightarrow> gives wf_world (and_then (get_db p) f) Q"
  by (rule gives_and_then [OF wf_effects(1)])

lemma wf_commit_then:
  "wf_db d \<Longrightarrow> gives wf_world (f ()) Q \<Longrightarrow> gives wf_world (and_then (commit p d) f) Q"
  by (rule gives_and_then [OF wf_commit]) simp_all

lemma wf_meta_read:
  assumes "\<And>d. wf_db d \<Longrightarrow> triple wf_world (\<lambda>w. db_of w p = d) (f (db_meta d)) (\<lambda>x w. Q x)"
  shows "gives wf_world (and_then (get_meta p) f) Q"
  using assms by (auto simp: gives_def triple_def and_then_def get_meta_def wf_world_def)

lemma wf_lifted_tx: "(\<And>x. r = Inr x \<Longrightarrow> gives wf_world (f x) Q) \<Longrightarrow> gives wf_world (and_then (lift_result r) f) Q"
  by (cases r) (simp_all add: gives_pure)

lemma wf_keep_then: "keeps wf_world m \<Longrightarrow> (\<And>x. gives wf_world (f x) Q) \<Longrightarrow> gives wf_world (and_then m f) Q"
  by (rule gives_and_then_keeps)

lemma wf_remote: "gives wf_world m Q \<Longrightarrow> gives wf_world (remote m) Q"
  by (rule keeps_remote [OF frugal_wf_world])

text \<open>What a stream relies on of the other streams' answers.\<close>

definition wf_rpc :: "rpc \<Rightarrow> bool" where
  "wf_rpc R \<longleftrightarrow>
     (\<forall>q a. gives wf_world (rpc_acquire R q a)
        (\<lambda>r. far_ok r \<longrightarrow> (case far_fork_offset r of None \<Rightarrow> True | Some off \<Rightarrow> stream_offset off)))
     \<and> (\<forall>q a. keeps wf_world (rpc_release R q a)) \<and> (\<forall>q a. keeps wf_world (rpc_read R q a))"

end
