(* ===== verification/Preservation.thy ===== *)
theory Preservation
  imports Invariant
begin

text \<open>
  Every handler keeps every stream's database well formed, provided the streams it calls do; the
  recursion over the call depth then discharges that proviso.
\<close>

lemmas wf_steps = gives_branches wf_tx wf_db_read wf_commit_then wf_lifted_tx gives_pure keeps_lift

lemma flush_loop_wf: "wf_rpc R \<Longrightarrow> keeps wf_world (flush_loop R p gs retry)"
proof (induction R p gs retry rule: flush_loop.induct)
  case (2 R p g gs retry)
  have "keeps wf_world (attempt (remote (rpc_release R (gr_parent_path g)
      \<lparr>fr_edge_id = gr_edge_id g, fr_source_generation = gr_source_gen g\<rparr>)))"
    using 2(3) by (intro keeps_attempt wf_remote) (simp add: wf_rpc_def)
  then show ?case
    unfolding flush_loop.simps
    by (rule wf_keep_then) (rule gives_branches wf_tx wf_commit_then wf_db_queues 2 | assumption)+
qed (simp add: gives_pure)

lemma flush_wf: "wf_rpc R \<Longrightarrow> keeps wf_world (flush_gc_releases R p)"
  unfolding flush_gc_releases_def Let_def
  by (rule wf_db_read gives_branches gives_pure TrueI wf_keep_then flush_loop_wf wf_schedule | assumption)+

lemma visible_meta_wf: "wf_rpc R \<Longrightarrow> keeps wf_world (visible_meta_while_locked E R p now)"
  unfolding visible_meta_while_locked_def get_meta_tx_def
  by (rule wf_keep_then [OF wf_effects(3)] wf_keep_then [OF wf_schedule(1)] wf_keep_then [OF wf_effects(5)]
      wf_keep_then [OF gives_pure(4)] wf_keep_then [OF flush_wf] wf_steps wf_db_set_soft_deleted
      wf_db_purge_stream_tx TrueI | assumption)+

lemma triple_tx:
  assumes "gives wf_world (f d) Q"
  shows "triple wf_world (\<lambda>w. db_of w p = d) (and_then (begin_mutation p) f) (\<lambda>x w. Q x)"
proof (rule triple_and_then [OF triple_begin_mutation [OF frugal_wf_world]])
  fix tx
  show "triple wf_world (\<lambda>w. tx = d \<and> db_of w p = d) (f tx) (\<lambda>x w. Q x)"
    using assms by (auto simp: triple_def gives_def)
qed

lemma wf_visible:
  assumes "wf_rpc R"
    and "gives wf_world (f None) Q"
    and "\<And>d m. wf_db d \<Longrightarrow> db_meta d = Some m \<Longrightarrow> triple wf_world (\<lambda>w. db_of w p = d) (f (Some m)) (\<lambda>x w. Q x)"
  shows "gives wf_world (and_then (visible_meta_while_locked E R p now) f) Q"
proof (rule gives_of_triple, rule triple_and_then)
  show "triple wf_world (\<lambda>w. True) (visible_meta_while_locked E R p now)
      (\<lambda>mo w. \<forall>m. mo = Some m \<longrightarrow> db_meta (db_of w p) = Some m)"
    using visible_meta_wf [OF assms(1)] unfolding triple_def gives_def
    by (metis prod.collapse visible_meta_Some)
  fix mo
  show "triple wf_world (\<lambda>w. \<forall>m. mo = Some m \<longrightarrow> db_meta (db_of w p) = Some m) (f mo) (\<lambda>x w. Q x)"
  proof (cases mo)
    case None
    with assms(2) show ?thesis by (simp add: triple_def gives_def)
  next
    case (Some m)
    show ?thesis
      unfolding triple_def
    proof (intro allI impI)
      fix w
      assume w: "wf_world w" "\<forall>m. mo = Some m \<longrightarrow> db_meta (db_of w p) = Some m"
      with Some have "wf_db (db_of w p)" "db_meta (db_of w p) = Some m" by (auto simp: wf_world_def)
      from assms(3) [OF this] w Some
      show "wf_world (snd (f mo w)) \<and> (\<forall>x. fst (f mo w) = Inr x \<longrightarrow> Q x)"
        by (auto simp: triple_def)
    qed
  qed
qed

subsection \<open>Lifecycle and maintenance\<close>

lemma touch_access_wf: "keeps wf_world (touch_access p now)"
  unfolding touch_access_def by (rule wf_tx wf_commit wf_db_meta_ops | assumption)+

lemma visible_wf: "wf_rpc R \<Longrightarrow> keeps wf_world (visible_meta E R p now)"
  by (simp add: visible_meta_def visible_meta_wf)

lemmas wf_then = wf_keep_then [OF wf_effects(3)] wf_keep_then [OF wf_schedule(1)] wf_keep_then [OF wf_schedule(2)]
  wf_keep_then [OF wf_effects(5)] wf_keep_then [OF wf_effects(7)] wf_keep_then [OF gives_pure(3)]
  wf_keep_then [OF gives_pure(4)] wf_keep_then [OF flush_wf] wf_keep_then [OF visible_wf]
  wf_keep_then [OF visible_meta_wf] wf_keep_then [OF touch_access_wf]

lemma delete_wf: "wf_rpc R \<Longrightarrow> keeps wf_world (handle_delete E R p)"
  unfolding handle_delete_def Let_def
proof (rule wf_then wf_keep_then [OF visible_meta_wf] gives_branches keeps_lift wf_tx | assumption)+
  fix tx :: db and m
  assume R: "wf_rpc R" and tx: "wf_db tx"
  let ?d = "if 0 < fork_edge_count tx then set_soft_deleted tx else purge_stream_tx tx m"
  have "wf_db ?d" using tx by (simp add: wf_db_set_soft_deleted wf_db_purge_stream_tx)
  then show "keeps wf_world (and_then (commit p ?d) (\<lambda>_. and_then (notify_change p) (\<lambda>_.
      and_then (if 0 < fork_edge_count tx then ret () else flush_gc_releases R p) (\<lambda>_.
        lift_result (response 204 [] [])))))"
    using R by (intro wf_commit_then wf_then wf_keep_then [OF gives_branches(1)] gives_pure flush_wf keeps_lift) auto
qed

lemma reconcile_loop_wf: "wf_rpc R \<Longrightarrow> keeps wf_world (reconcile_loop E R p is)"
proof (induction E R p "is" rule: reconcile_loop.induct)
  case (2 E R p i "is")
  have "keeps wf_world (attempt (remote (rpc_acquire R q a)))" for q a
    using 2(3) by (intro keeps_attempt wf_remote gives_keeps) (auto simp: wf_rpc_def)
  then show ?case
    unfolding reconcile_loop.simps Let_def
    by (cases "params_from_json E (fi_params_key i)")
      (auto simp: gives_pure split: prod.split sum.split if_split
        intro!: wf_keep_then wf_tx wf_commit_then wf_schedule wf_db_queues 2)
qed (simp add: gives_pure)

lemma reconcile_wf: "wf_rpc R \<Longrightarrow> keeps wf_world (reconcile_fork_intents E R p)"
  unfolding reconcile_fork_intents_def
  by (intro wf_db_read wf_keep_then reconcile_loop_wf flush_wf)

lemma maintenance_wf: "wf_rpc R \<Longrightarrow> keeps wf_world (run_maintenance E R p)"
  unfolding run_maintenance_def
  apply (rule wf_then)
  apply (rule wf_keep_then, rule gives_branches, erule reconcile_wf, rule gives_pure, rule TrueI)
  apply (rule wf_then gives_branches gives_pure TrueI wf_schedule | assumption)+
  done

subsection \<open>The source's side of a fork\<close>

definition good_acquire :: "fork_acquire_result \<Rightarrow> bool" where
  "good_acquire r \<longleftrightarrow>
     (far_ok r \<longrightarrow> (case far_fork_offset r of None \<Rightarrow> True | Some off \<Rightarrow> stream_offset off))"

lemma good_acquire_simps [simp]:
  "good_acquire (far_failure e)" "stream_offset off \<Longrightarrow> good_acquire (far_success off m)"
  by (simp_all add: good_acquire_def far_failure_def far_success_def)

lemma wf_rpcD:
  assumes "wf_rpc R"
  shows "gives wf_world (rpc_acquire R q a) good_acquire" "keeps wf_world (rpc_release R q f)"
    "keeps wf_world (rpc_read R q r)"
  using assms by (auto simp: wf_rpc_def good_acquire_def [abs_def])

lemma wf_recorded_edge:
  "wf_db d \<Longrightarrow> get_fork_edge_tx d e = Some off \<Longrightarrow> stream_offset off"
  by (auto simp: wf_db_def wf_tables_def get_fork_edge_tx_def dest: map_of_SomeD)

lemma acquire_insert_wf:
  assumes d: "wf_db d" "db_meta d = Some m"
    and off: "is_concrete_offset off" "\<not> off < ZERO_OFFSET" "\<not> current_offset m < off"
  shows "triple wf_world (\<lambda>w. db_of w q = d)
    (and_then (begin_mutation q) (\<lambda>tx. and_then (lift_result (insert_fork_edge tx e off)) (\<lambda>(tx', recorded).
       and_then (commit q tx') (\<lambda>_. ret (far_success recorded m))))) (\<lambda>x w. good_acquire x)"
proof (rule triple_tx, rule wf_lifted_tx, clarify)
  fix d' recorded
  assume ins: "insert_fork_edge d e off = Inr (d', recorded)"
  have "stream_offset off"
    using concrete_between_stream_offset [of off "current_offset m"] off
      wf_log_Some(1) [OF wf_db_log [OF d(1)] d(2)] by (simp add: not_less)
  with wf_db_insert_fork_edge [OF d(1) _ _ ins] d(2)
  show "gives wf_world (and_then (commit q d') (\<lambda>_. ret (far_success recorded m))) good_acquire"
    by (intro wf_commit_then gives_pure) simp_all
qed

lemma acquire_fresh_wf:
  assumes "wf_rpc R"
  shows "gives wf_world (acquire_fresh E R q a) good_acquire"
  unfolding acquire_fresh_def Let_def
  by (rule wf_then wf_visible [OF assms] gives_pure good_acquire_simps)+
    (auto simp: triple_of_gives gives_pure intro!: triple_branches acquire_insert_wf)

lemma recorded_good: "wf_db d \<Longrightarrow> get_fork_edge_tx d e = Some off \<Longrightarrow> good_acquire (far_success off m)"
  by (simp add: wf_recorded_edge)

lemma acquire_wf:
  assumes "wf_rpc R"
  shows "gives wf_world (fork_acquire E R q a) good_acquire"
proof -
  have "gives wf_world (and_then (rollback tx) (\<lambda>_. acquire_fresh E R q a)) good_acquire" for tx
    by (rule wf_then acquire_fresh_wf assms)+
  then show ?thesis
    unfolding fork_acquire_def get_meta_tx_def
    by (auto simp: gives_pure split: option.split intro!: wf_tx wf_commit_then gives_pure recorded_good)
qed

lemma release_wf:
  assumes "wf_rpc R"
  shows "keeps wf_world (fork_release R q a)"
proof -
  have commit: "triple wf_world (\<lambda>w. db_of w q = d) (and_then (begin_mutation q) (\<lambda>tx.
        if get_fork_edge_tx tx (fr_edge_id a) = None then and_then (rollback tx) (\<lambda>_. ret ())
        else
          let tx1 = delete_fork_edge tx (fr_edge_id a);
              purge_after_release = soft_deleted m \<and> fork_edge_count tx1 = 0
          in and_then (commit q (if purge_after_release then purge_stream_tx tx1 m else tx1)) (\<lambda>_.
             and_then (notify_change q) (\<lambda>_.
               if purge_after_release then flush_gc_releases R q else ret ())))) (\<lambda>x w. True)"
    if "wf_db d" "db_meta d = Some m" for d m
    unfolding Let_def using that
    by (intro triple_tx gives_branches wf_then wf_commit_then gives_pure flush_wf [OF assms])
      (auto simp: wf_db_purged intro: wf_db_delete_fork_edge)
  show ?thesis
    unfolding fork_release_def
    apply (rule gives_branches gives_pure)+
    apply (rule wf_meta_read)
    apply (rule triple_branches triple_pure)+
    apply (rule triple_and_then [where Q = "\<lambda>_ w. db_of w q = d" for d])
    apply (rule triple_branches)
    unfolding schedule_maintenance_after_def
    apply (rule triple_schedule [OF frugal_wf_world])
    apply (simp add: triple_def act_simps)
    apply (rule commit; assumption)
    done
qed

subsection \<open>The new stream's side of a fork\<close>

lemma release_acquired_wf: "wf_rpc R \<Longrightarrow> keeps wf_world (release_acquired R p e parent gen)"
  unfolding release_acquired_def
  by (rule wf_then wf_tx wf_commit_then wf_db_queues flush_wf | assumption)+

lemma respond_early_wf: "keeps wf_world (respond_early st msg)"
  unfolding respond_early_def by (rule wf_lifted_tx gives_pure TrueI)+

lemma fork_intent_edge_wf: "keeps wf_world (fork_intent_edge E p parent key)"
  unfolding fork_intent_edge_def
  by (rule wf_then wf_steps wf_db_queues TrueI | assumption)+

lemma acquire_refused_wf: "keeps wf_world (acquire_refused p e a)"
  unfolding acquire_refused_def
  by (rule wf_tx wf_commit_then wf_db_queues gives_branches gives_pure keeps_lift TrueI | assumption)+

lemma sub_offset_prefix_wf: "wf_rpc R \<Longrightarrow> keeps wf_world (sub_offset_prefix E R p opts e off gen j)"
  unfolding sub_offset_prefix_def
  apply (rule gives_branches gives_pure TrueI)+
  apply (rule wf_keep_then, rule wf_remote, erule wf_rpcD)
  apply (rule wf_keep_then [OF release_acquired_wf] gives_branches gives_pure TrueI respond_early_wf | assumption)+
  done

lemma initial_payload_wf: "wf_rpc R \<Longrightarrow> keeps wf_world (initial_payload E R p opts e gen j)"
  unfolding initial_payload_def
  by (rule gives_branches gives_pure TrueI wf_keep_then [OF release_acquired_wf] respond_early_wf | assumption)+

text \<open>A transaction in the middle of creating a stream: well formed, at offset \<open>off\<close>.\<close>

definition at_offset :: "string \<Rightarrow> db \<Rightarrow> bool" where
  "at_offset off d \<longleftrightarrow> wf_db d \<and> (\<exists>m. db_meta d = Some m \<and> current_offset m = off)"

lemma append_message_at:
  assumes "at_offset off d" and "append_message d off b now = Inr (d', off')"
  shows "at_offset off' d'"
  using assms wf_db_append_message [of d _ b now d' off'] by (auto simp: at_offset_def)

lemma append_optional_at:
  "at_offset off d \<Longrightarrow> append_optional d off b now = Inr (d', off') \<Longrightarrow> at_offset off' d'"
  by (auto simp: append_optional_def append_message_at split: option.splits if_splits)

lemma fork_creation_wf:
  assumes "stream_offset off"
  shows "keeps wf_world (fork_creation E p opts e off gen ct expiry prefix payload)"
  unfolding fork_creation_def
proof (rule wf_tx gives_branches wf_then gives_pure)+
  fix tx :: db and g
  let ?create = "create_meta tx g (Some ct) (fst expiry) (snd expiry) (fo_closed opts) (fo_now_ms opts)
      (Some (fo_parent_path opts)) (Some off) (case fo_fork_sub_offset opts of
         None \<Rightarrow> None | Some s \<Rightarrow> if 0 < s then Some (int s) else None) (Some e) (Some gen)"
  assume tx: "wf_db tx"
  have 1: "at_offset off d" if "?create = Inr d" for d
    using wf_db_create_meta [OF tx _ that] assms by (auto simp: at_offset_def)
  show "keeps wf_world (and_then (lift_result ?create) (\<lambda>tx1.
      and_then (lift_result (append_optional tx1 off prefix (fo_now_ms opts))) (\<lambda>(tx2, off2).
      and_then (lift_result (append_optional tx2 off2 payload (fo_now_ms opts))) (\<lambda>(tx3, off3).
      and_then (commit p (delete_fork_intent tx3 e)) (\<lambda>_. ret off3)))))"
  proof (rule wf_lifted_tx, rule wf_lifted_tx, clarify, rule wf_lifted_tx, clarify)
    fix d1 d2 off2 d3 off3
    assume "?create = Inr d1" "append_optional d1 off prefix (fo_now_ms opts) = Inr (d2, off2)"
      "append_optional d2 off2 payload (fo_now_ms opts) = Inr (d3, off3)"
    then have "at_offset off3 d3" by (blast intro: 1 append_optional_at)
    then show "keeps wf_world (and_then (commit p (delete_fork_intent d3 e)) (\<lambda>_. ret off3))"
      by (intro wf_commit_then wf_db_queues gives_pure) (simp_all add: at_offset_def)
  qed
qed

lemma announce_wf: "keeps wf_world (announce E p r)"
  unfolding announce_def
  by (rule wf_then)+ (rule wf_keep_then gives_branches gives_pure TrueI wf_schedule keeps_lift)+

lemma finish_fork_wf:
  assumes "wf_rpc R" and "stream_offset off"
  shows "keeps wf_world (finish_fork E R p opts e off gen acquired)"
proof -
  have creation: "keeps wf_world (attempt (fork_creation E p opts e off gen ct x pre pay))" for ct x pre pay
    by (intro keeps_attempt fork_creation_wf assms)
  show ?thesis
    unfolding finish_fork_def Let_def
    by (rule announce_wf wf_keep_then [OF sub_offset_prefix_wf [OF assms(1)]] wf_keep_then [OF creation]
        wf_keep_then [OF initial_payload_wf [OF assms(1)]] wf_keep_then [OF release_acquired_wf [OF assms(1)]]
        wf_then gives_branches gives_pure TrueI)+
qed

lemma create_fork_wf:
  assumes "wf_rpc R"
  shows "keeps wf_world (create_fork E R p opts)"
proof -
  have acq: "gives wf_world (remote (rpc_acquire R q a)) good_acquire" for q a
    by (rule wf_remote wf_rpcD assms)+
  show ?thesis
    unfolding create_fork_def Let_def
    apply (rule gives_branches keeps_lift wf_keep_then [OF fork_intent_edge_wf])+
    apply (rule gives_and_then [OF acq])
    apply (rule gives_branches acquire_refused_wf gives_pure finish_fork_wf assms)+
    apply (auto simp: good_acquire_def)
    done
qed

subsection \<open>PUT\<close>

lemma at_zero:
  assumes "wf_db tx" and "create_meta tx g ct ttl ex cl now None fo fso fe fsg = Inr d"
  shows "at_offset ZERO_OFFSET d"
  using wf_db_create_meta [OF assms(1) _ assms(2)] by (simp add: at_offset_def)

lemma create_statements_wf:
  assumes "wf_db tx" and "create_statements tx g po ct b now = Inr (d, off)"
  shows "wf_db d"
proof -
  from assms(2) obtain tx1 where tx1: "create_meta tx g (Some ct) (po_ttl_seconds po) (po_expires_at po)
      (po_closed po) now None None None None None = Inr tx1"
    and d: "(if b = [] then Inr (tx1, ZERO_OFFSET) else append_message tx1 ZERO_OFFSET b now) = Inr (d, off)"
    by (auto simp: create_statements_def result_bind_Inr_iff)
  note at = at_zero [OF assms(1) tx1]
  from d show ?thesis
    using at append_message_at [OF at] by (auto simp: at_offset_def split: if_splits)
qed

lemma create_stream_wf: "keeps wf_world (create_stream E p po ct b now)"
  unfolding create_stream_def get_meta_tx_def
  apply (rule wf_lifted_tx gives_branches wf_tx wf_then keeps_lift wf_commit_then announce_wf)+
  apply (rule create_statements_wf, assumption, simp)
  apply (rule announce_wf)
  done

lemma put_new_wf: "keeps wf_world (put_new E p po body now)"
  unfolding put_new_def Let_def
  by (rule wf_lifted_tx gives_branches gives_pure TrueI create_stream_wf)+

lemma handle_put_wf:
  assumes "wf_rpc R"
  shows "keeps wf_world (handle_put E R p req)"
  unfolding handle_put_def
  by (rule wf_lifted_tx wf_keep_then [OF visible_meta_wf [OF assms]] wf_then gives_branches gives_pure TrueI
      keeps_lift create_fork_wf [OF assms] put_new_wf)+

subsection \<open>POST\<close>

lemma parse_safe_integer:
  "parse_non_negative_safe_integer v f = Inr n \<Longrightarrow> safe_integer n"
  by (auto simp: parse_non_negative_safe_integer_def safe_integer_def Let_def parse_i64_digits
      split: if_splits option.splits)

definition safe_producer :: "producer_headers \<Rightarrow> bool" where
  "safe_producer ph \<longleftrightarrow> safe_integer (ph_epoch ph) \<and> safe_integer (ph_seq ph)"

lemma combine_producer_safe:
  assumes "combine_producer E i e s = Inr (Some ph)"
  shows "safe_producer ph"
proof (cases i; cases e; cases s)
  fix i' e' s'
  assume "is": "i = Some i'" "e = Some e'" "s = Some s'"
  with assms have "i' \<noteq> []" by (auto simp: combine_producer_def)
  with assms "is" obtain n k where "parse_non_negative_safe_integer e' ''Producer-Epoch'' = Inr n"
    "parse_non_negative_safe_integer s' ''Producer-Seq'' = Inr k"
    "ph = \<lparr>ph_id = b64url_encode E i', ph_epoch = n, ph_seq = k\<rparr>"
    by (simp add: combine_producer_def result_bind_Inr_iff) blast
  then show ?thesis by (simp add: safe_producer_def parse_safe_integer)
qed (use assms in \<open>simp_all add: combine_producer_def\<close>)

lemma parse_producer_safe: "parse_producer E req = Inr (Some ph) \<Longrightarrow> safe_producer ph"
  by (auto simp only: parse_producer_def result_bind_Inr_iff intro: combine_producer_safe)

lemma accepted_safe:
  assumes "validate_producer prior ph now = Accepted st" and "safe_producer ph"
  shows "safe_integer (ps_epoch st)" "safe_integer (ps_last_seq st)"
  using validate_accepted(1) [OF assms(1)] assms(2) by (simp_all add: safe_producer_def)

lemma close_commit_wf:
  assumes "wf_db d" "db_meta d \<noteq> None" "get_producer_state d i before = (prior, d')"
    "validate_producer prior ph now = Accepted st" "safe_producer ph"
  shows "wf_db (touch (set_closed (commit_producer_state d' i st) by') now)"
  using accepted_safe [OF assms(4,5)] wf_db_get_producer_state [OF assms(1,3)]
    get_producer_state_frame(1) [OF assms(3)] assms(2)
  by (intro wf_db_meta_ops wf_db_commit_producer_state) simp_all

lemma triple_close_tx:
  assumes "wf_db d" "db_meta d \<noteq> None" "safe_producer ph"
  shows "triple wf_world (\<lambda>w. db_of w p = d) (close_tx E p m ph now) (\<lambda>x w. True)"
  unfolding close_tx_def Let_def
  by (rule triple_tx)
    (auto split: prod.split producer_validation.split
      intro!: wf_commit_then wf_then keeps_lift close_commit_wf [OF assms(1,2) _ _ assms(3)])

lemma close_only_wf:
  assumes "wf_rpc R" and "\<And>ph. producer = Some ph \<Longrightarrow> safe_producer ph"
  shows "keeps wf_world (handle_close_only E R p producer)"
  unfolding handle_close_only_def
  apply (rule wf_then)
  apply (rule wf_visible [OF assms(1)])
   apply (simp add: keeps_lift)
  apply (auto intro!: triple_branches triple_pure triple_tx wf_commit_then wf_db_meta_ops wf_then keeps_lift
      triple_close_tx assms(2))
  done

lemma check_producer_frame:
  assumes "check_producer producer tx fresh now = (r, tx1)"
  shows "db_meta tx1 = db_meta tx" "db_messages tx1 = db_messages tx" "db_fork_edges tx1 = db_fork_edges tx"
    "db_fork_intents tx1 = db_fork_intents tx" "db_gc_releases tx1 = db_gc_releases tx"
  using assms
  by (auto simp: check_producer_def Let_def split: option.splits prod.splits dest: get_producer_state_frame)

lemma check_producer_wf:
  assumes "check_producer producer tx fresh now = (r, tx1)" and "wf_db tx"
  shows "wf_db tx1"
  using assms by (auto simp: check_producer_def Let_def split: option.splits prod.splits
      dest: wf_db_get_producer_state)

lemma check_producer_accepted:
  assumes "check_producer producer tx fresh now = (Inr accepted, tx1)"
  shows "case accepted of None \<Rightarrow> producer = None
         | Some (ph, st) \<Rightarrow> producer = Some ph
             \<and> validate_producer (map_of (db_producers tx1) (ph_id ph)) ph now = Accepted st"
  using assms
  by (auto simp: check_producer_def Let_def split: option.splits prod.splits producer_validation.splits
      dest: get_producer_state_frame(7))

lemma finish_append_wf:
  assumes "wf_db tx" "db_meta tx \<noteq> None"
    "\<And>ph st. accepted = Some (ph, st) \<Longrightarrow> safe_integer (ps_epoch st) \<and> safe_integer (ps_last_seq st)"
  shows "wf_db (finish_append E tx accepted producer seq close_stream now)"
proof -
  let ?tx1 = "case accepted of None \<Rightarrow> tx | Some (ph, st) \<Rightarrow> commit_producer_state tx (ph_id ph) st"
  have "wf_db ?tx1"
    using assms by (cases accepted) (auto simp: wf_db_commit_producer_state)
  then show ?thesis
    by (auto simp: finish_append_def Let_def intro!: wf_db_meta_ops split: option.split)
qed

lemma append_tx_wf:
  assumes "\<And>ph. producer = Some ph \<Longrightarrow> safe_producer ph"
  shows "keeps wf_world (append_tx E p producer seq payload close_stream now)"
  unfolding append_tx_def get_meta_tx_def
proof (rule wf_tx gives_branches wf_then keeps_lift wf_lifted_tx)+
  fix tx fresh r tx1 accepted conflict y tx2 off
  assume tx: "wf_db tx" "db_meta tx = Some fresh"
    and check: "check_producer producer tx fresh now = (r, tx1)" "r = Inr accepted"
    and app: "append_message tx1 (current_offset fresh) payload now = Inr y" "y = (tx2, off)"
  have tx1: "wf_db tx1" "db_meta tx1 = Some fresh"
    using check_producer_wf [OF check(1) tx(1)] check_producer_frame(1) [OF check(1)] tx(2) by simp_all
  note tx2 = wf_db_append_message [OF tx1 app(1) [unfolded app(2)]]
  have "wf_db (finish_append E tx2 accepted producer seq close_stream now)"
    using check_producer_accepted [OF check(1) [unfolded check(2)]] assms tx2
    by (intro finish_append_wf) (auto dest: accepted_safe)
  then show "keeps wf_world (and_then (commit p (finish_append E tx2 accepted producer seq close_stream now))
      (\<lambda>_. and_then (notify_change p) (\<lambda>_. lift_result (producer_success off producer close_stream))))"
    by (intro wf_commit_then wf_then keeps_lift)
qed

lemma post_locked_wf:
  assumes "wf_rpc R" and "\<And>ph. producer = Some ph \<Longrightarrow> safe_producer ph"
  shows "keeps wf_world (post_locked E R p producer ct seq body close_stream)"
  unfolding post_locked_def
  by (rule wf_lifted_tx wf_keep_then [OF visible_meta_wf [OF assms(1)]] wf_then gives_branches gives_pure
      TrueI keeps_lift append_tx_wf assms(2))+

lemma handle_post_wf:
  assumes "wf_rpc R"
  shows "keeps wf_world (handle_post E R p req)"
  unfolding handle_post_def
  by (rule wf_lifted_tx wf_then gives_branches gives_pure TrueI keeps_lift close_only_wf [OF assms]
      post_locked_wf [OF assms] parse_producer_safe | simp)+

subsection \<open>GET and the dispatch\<close>

text \<open>The reading handlers keep every invariant of theory \<open>Keeping\<close>; this is one.\<close>

lemma wf_reader: "wf_rpc R \<Longrightarrow> reader wf_world E R"
  by unfold_locales (simp_all add: visible_meta_wf touch_access_wf wf_rpcD)

lemma on_fetch_response_wf:
  assumes "wf_rpc R" "env_in (keeps wf_world) Y" "env_in (keeps wf_world) Y'" "keeps wf_world (lp_meanwhile L)"
    "turns_in (keeps wf_world) Ts"
  shows "keeps wf_world (on_fetch_response E n R Y L Y' Ts rnd aid p req)"
  by (intro reader.dispatch [OF wf_reader] handle_put_wf handle_post_wf delete_wf assms)

text \<open>The streams that call one another, to any depth.\<close>

lemma rpc_at_wf: "env_in (keeps wf_world) Y \<Longrightarrow> wf_rpc (rpc_at E n Y depth)"
proof (induction depth)
  case (Suc depth)
  then have R: "wf_rpc (rpc_at E n Y depth)" by simp
  show ?case
    using acquire_wf [OF R, of E] release_wf [OF R] reader.read_range [OF wf_reader [OF R] Suc.prems]
    by (simp add: wf_rpc_def good_acquire_def [abs_def])
qed (simp add: wf_rpc_def gives_pure)

interpretation wf_reads: reader wf_world E "rpc_at E n quiet depth" for E n depth
  by (rule wf_reader [OF rpc_at_wf]) simp

end
