(* ===== verification/System.thy ===== *)
theory System
  imports Preservation
begin

text \<open>
  The whole system: any number of streams, serving requests, running maintenance and calling one
  another, while the clock advances, calls fail and messages are lost. What runs at the \<open>await\<close>
  points of a read is again such an activity.
\<close>

definition tick :: "nat \<Rightarrow> unit act" where
  "tick n w = (Inr (), w\<lparr>w_clock := w_clock w + int n\<rparr>)"

definition set_faults :: "fault list \<Rightarrow> unit act" where
  "set_faults fs w = (Inr (), w\<lparr>w_faults := fs\<rparr>)"

text \<open>
  Activities are sequences of steps. A request is served to its end, with other activities at the
  points where it waits; an error ends the request and nothing else.
\<close>

inductive activity :: "'j ext \<Rightarrow> unit act \<Rightarrow> bool" for E :: "'j ext" where
  idle: "activity E (ret ())"
| serve: "activity E a \<Longrightarrow> env_in (activity E) Y \<Longrightarrow> env_in (activity E) Y1 \<Longrightarrow> env_in (activity E) Y2
    \<Longrightarrow> activity E (lp_meanwhile L) \<Longrightarrow> turns_in (activity E) Ts
    \<Longrightarrow> activity E (and_then (attempt (on_fetch_response E n (rpc_at E n Y depth) Y1 L Y2 Ts rnd aid p req)) (\<lambda>_. a))"
| maintain: "activity E a \<Longrightarrow> env_in (activity E) Y
    \<Longrightarrow> activity E (and_then (attempt (run_maintenance E (rpc_at E n Y depth) p)) (\<lambda>_. a))"
| pass: "activity E a \<Longrightarrow> activity E (and_then (tick k) (\<lambda>_. a))"
| fail: "activity E a \<Longrightarrow> activity E (and_then (set_faults fs) (\<lambda>_. a))"

definition empty_actor :: actor where
  "empty_actor = \<lparr>a_db = empty_db, a_changes = 0, a_alarms = []\<rparr>"

definition initial_world :: "int \<Rightarrow> world" where
  "initial_world t = \<lparr>w_actors = (\<lambda>p. empty_actor), w_clock = t, w_uuids = 0, w_faults = []\<rparr>"

definition reachable :: "'j ext \<Rightarrow> world \<Rightarrow> bool" where
  "reachable E w \<longleftrightarrow> (\<exists>a t. activity E a \<and> w = snd (a (initial_world t)))"

subsection \<open>Reachable worlds are well formed\<close>

lemma env_in_conj: "env_in (\<lambda>a. P a \<and> Q a) Y \<Longrightarrow> env_in Q Y"
  by (simp add: env_in_def)

lemma turns_in_conj: "turns_in (\<lambda>a. P a \<and> Q a) Ts \<Longrightarrow> turns_in Q Ts"
  by (auto simp: turns_in_def list_all_iff env_in_def)

lemma keeps_tick: "keeps wf_world (tick k)" "keeps wf_world (set_faults fs)"
  by (simp_all add: gives_def tick_def set_faults_def wf_world_def)

lemma activity_wf: "activity E a \<Longrightarrow> keeps wf_world a"
proof (induction a rule: activity.induct)
  case (serve a Y Y1 Y2 L Ts n depth rnd aid p req)
  then have "keeps wf_world (on_fetch_response E n (rpc_at E n Y depth) Y1 L Y2 Ts rnd aid p req)"
    by (intro on_fetch_response_wf rpc_at_wf) (auto dest: env_in_conj turns_in_conj)
  with serve show ?case by (intro wf_keep_then keeps_attempt) auto
next
  case (maintain a Y n depth p)
  then have "keeps wf_world (run_maintenance E (rpc_at E n Y depth) p)"
    by (intro maintenance_wf rpc_at_wf) (auto dest: env_in_conj)
  with maintain show ?case by (intro wf_keep_then keeps_attempt) auto
qed (auto intro!: wf_keep_then gives_pure keeps_tick)

lemma wf_initial [simp]: "wf_world (initial_world t)"
  by (simp add: wf_world_def initial_world_def empty_actor_def)

lemma reachable_wf_world: "reachable E w \<Longrightarrow> wf_world w"
  by (auto simp: reachable_def dest!: activity_wf intro: givesD)

lemma reachable_wf_db: "reachable E w \<Longrightarrow> wf_db (db_of w p)"
  using reachable_wf_world by (auto simp: wf_world_def)

text \<open>Reaching further: activities follow one another.\<close>

lemma env_in_activity: "env_in (\<lambda>a. activity E a \<and> Q a) Y \<Longrightarrow> env_in (activity E) Y"
  by (simp add: env_in_def)

lemma turns_in_activity: "turns_in (\<lambda>a. activity E a \<and> Q a) Ts \<Longrightarrow> turns_in (activity E) Ts"
  by (auto simp: turns_in_def list_all_iff env_in_def)

lemma activity_then: "activity E a \<Longrightarrow> activity E b \<Longrightarrow> activity E (and_then a (\<lambda>_. b))"
proof (induction a rule: activity.induct)
  case (serve a Y Y1 Y2 L Ts n depth rnd aid p req)
  then show ?case
    unfolding and_then_assoc by (intro activity.serve) (auto dest: env_in_activity turns_in_activity)
next
  case (maintain a Y n depth p)
  then show ?case
    unfolding and_then_assoc by (intro activity.maintain) (auto dest: env_in_activity)
next
  case (pass a k)
  then show ?case unfolding and_then_assoc by (intro activity.pass) simp
next
  case (fail a fs)
  then show ?case unfolding and_then_assoc by (intro activity.fail) simp
qed simp

lemma activity_Inr: "activity E a \<Longrightarrow> fst (a w) = Inr ()"
proof (induction a arbitrary: w rule: activity.induct)
  case idle
  show ?case by (simp add: ret_def)
qed (simp_all add: and_then_def attempt_def tick_def set_faults_def split: prod.split)

lemma reachable_initial: "reachable E (initial_world t)"
  unfolding reachable_def using activity.idle by (metis act_run(1) snd_conv)

lemma reachable_then:
  assumes "reachable E w" and "activity E b"
  shows "reachable E (snd (b w))"
proof -
  obtain a t where a: "activity E a" "w = snd (a (initial_world t))"
    using assms(1) by (auto simp: reachable_def)
  have "a (initial_world t) = (Inr (), w)"
    using activity_Inr [OF a(1), of "initial_world t"] a(2) by (metis prod.collapse)
  then have "snd (and_then a (\<lambda>_. b) (initial_world t)) = snd (b w)"
    by (simp add: and_then_def)
  with activity_then [OF a(1) assms(2)] show ?thesis
    unfolding reachable_def by metis
qed

lemma quiet_in [simp]: "env_in (activity E) quiet"
  by (simp add: env_in_def quiet_def activity.idle)

end
