(* ===== verification/Reading.thy ===== *)
theory Reading
  imports System
begin

text \<open>
  What a read returns. The log a reader sees of a fork is the source's log up to the fork offset
  followed by the fork's own messages, through any number of forks. A read in a quiet world
  returns a page of it: a prefix of what was asked for, complete unless it says it was capped, and
  never empty if it was. Reading page after page gives the whole log.
\<close>

subsection \<open>The stitched log\<close>

definition fork_point :: "meta \<Rightarrow> (string \<times> string) option" where
  "fork_point m =
     (case (forked_from m, fork_offset m) of (Some parent, Some off) \<Rightarrow> Some (parent, off) | _ \<Rightarrow> None)"

fun stitched_log :: "nat \<Rightarrow> world \<Rightarrow> string \<Rightarrow> message list" where
  "stitched_log 0 w p = []"
| "stitched_log (Suc n) w p =
     (case db_meta (db_of w p) of
        None \<Rightarrow> []
      | Some m \<Rightarrow>
          (case fork_point m of
             None \<Rightarrow> []
           | Some (parent, off) \<Rightarrow> filter (\<lambda>x. msg_offset x \<le> off) (stitched_log n w parent))
          @ db_messages (db_of w p))"

text \<open>
  The chain of sources of a stream is at most \<open>n\<close> long, its logs are shorter than ten petabytes
  and its fork offsets have the sixteen digits the program prints.
\<close>

fun regular_chain :: "nat \<Rightarrow> world \<Rightarrow> string \<Rightarrow> bool" where
  "regular_chain 0 w p \<longleftrightarrow> False"
| "regular_chain (Suc n) w p \<longleftrightarrow>
     (case db_meta (db_of w p) of
        None \<Rightarrow> True
      | Some m \<Rightarrow>
          offset_val (current_offset m) < 10 ^ 16
          \<and> (case fork_point m of
               None \<Rightarrow> True
             | Some (parent, off) \<Rightarrow> canonical_offset off \<and> regular_chain n w parent))"

lemma own_log_sorted:
  assumes "wf_db (db_of w p)" and "regular_chain n w p"
  shows "sorted_db (db_of w p)"
proof (cases "db_meta (db_of w p)")
  case None
  with wf_db_log [OF assms(1)] show ?thesis by (simp add: wf_log_def sorted_db_def)
next
  case (Some m)
  note wf = wf_log_Some [OF wf_db_log [OF assms(1)] Some]
  from assms(2) Some have "offset_val (current_offset m) < 10 ^ 16" by (cases n) auto
  with framed_strictly_sorted [OF wf(3)] wf(2) show ?thesis by (simp add: sorted_db_def)
qed

text \<open>A fork's own messages come after its fork offset.\<close>

lemma own_after_fork:
  assumes "wf_db (db_of w p)" and "regular_chain n w p" and "db_meta (db_of w p) = Some m"
    and "fork_point m = Some (parent, off)" and "x \<in> set (db_messages (db_of w p))"
  shows "off < msg_offset x"
proof -
  note wf = wf_log_Some [OF wf_db_log [OF assms(1)] assms(3)]
  from assms(4) have base: "base_offset m = off"
    by (auto simp: fork_point_def base_offset_def split: option.splits)
  from assms(2-4) have canon: "canonical_offset off" and small: "offset_val (current_offset m) < 10 ^ 16"
    by (cases n; auto)+
  from framed_offset_val [OF wf(3) assms(5)] wf(2) small base
  have x: "msg_offset x = offset_text (offset_val (msg_offset x))" "offset_val off < offset_val (msg_offset x)"
    "offset_val (msg_offset x) < 10 ^ 16" by auto
  then have "canonical_offset (msg_offset x)" using canonical_offset_text by metis
  with canonical_offset_less_iff [OF canon] x(2) show ?thesis by simp
qed

subsection \<open>Pages\<close>

definition page_of :: "message list \<Rightarrow> nat \<Rightarrow> nat \<Rightarrow> read_batch \<Rightarrow> bool" where
  "page_of rows limit budget b \<longleftrightarrow>
     (\<exists>j \<le> length rows. rb_messages b = map stored (take j rows) \<and> j \<le> limit
        \<and> (\<not> rb_capped b \<longrightarrow> j = length rows) \<and> (rb_capped b \<and> 0 < limit \<longrightarrow> 0 < j)
        \<and> (batch_bytes (rb_messages b) \<le> budget \<or> j = 1))"

text \<open>The rows a reader asks for.\<close>

definition asked :: "string option \<Rightarrow> string option \<Rightarrow> message list \<Rightarrow> message list" where
  "asked after cap ms =
     filter (\<lambda>m. (case after of None \<Rightarrow> True | Some a \<Rightarrow> a < msg_offset m)
                 \<and> (case cap of None \<Rightarrow> True | Some c \<Rightarrow> msg_offset m \<le> c)) ms"

lemma asked_append [simp]: "asked after cap (ms @ ns) = asked after cap ms @ asked after cap ns"
  by (simp add: asked_def)

lemma batch_bytes_stored: "batch_bytes (map stored ms) = data_size ms"
  by (simp add: batch_bytes_def stored_def comp_def)

lemma batch_bytes_append [simp]: "batch_bytes (xs @ ys) = batch_bytes xs + batch_bytes ys"
  by (simp add: batch_bytes_def)

lemma framed_nonempty_offset: "wf_log d \<Longrightarrow> x \<in> set (db_messages d) \<Longrightarrow> msg_offset x \<noteq> []"
  by (cases "db_meta d")
    (auto simp: wf_log_def offset_text_def dest!: framed_offset_val split: if_splits)

lemma lex_nonempty: "[] < s \<longleftrightarrow> s \<noteq> ([] :: 'a::linorder list)"
  by (cases s) auto

lemma rows_asked:
  assumes "wf_log d" and "after \<noteq> Some ''-1''"
  shows "rows_between d (normalize_after after) cap = asked after cap (db_messages d)"
  using framed_nonempty_offset [OF assms(1)] assms(2)
  by (auto simp: rows_between_def asked_def normalize_after_def lex_nonempty split: option.split
      intro!: filter_cong)

text \<open>The own part of a read, which may follow \<open>n\<close> bytes of inherited messages.\<close>

lemma read_own_page:
  assumes "wf_db (db_of w p)" and "sorted_db (db_of w p)" and "after \<noteq> Some ''-1''" and "limit \<le> MAX_READ_ROWS"
  obtains k where "read_own quiet p after cap limit budget first w
      = (Inr \<lparr>rb_messages = map stored (take k (asked after cap (db_messages (db_of w p)))),
             rb_capped = k < length (asked after cap (db_messages (db_of w p)))\<rparr>, w)"
    "k \<le> length (asked after cap (db_messages (db_of w p)))" "k \<le> limit"
    "data_size (take k (asked after cap (db_messages (db_of w p)))) \<le> budget \<or> (first \<and> k = 1)"
    "k < length (asked after cap (db_messages (db_of w p))) \<Longrightarrow> 0 < limit \<Longrightarrow> first \<Longrightarrow> 0 < k"
proof -
  let ?rows = "asked after cap (db_messages (db_of w p))"
  note rows = rows_asked [OF wf_db_log [OF assms(1)] assms(3), of cap]
  let ?k = "fit_count limit budget first ?rows"
  have "read_own quiet p after cap limit budget first w
      = (Inr \<lparr>rb_messages = map stored (take ?k ?rows), rb_capped = ?k < length ?rows\<rparr>, w)"
    using read_messages_range_eq [OF assms(2,4), of after cap budget first]
    by (simp add: read_own_def quiet_def rows act_simps and_then_def)
  with fit_count_spec [of limit budget first ?rows] show thesis by (intro that [of ?k]) auto
qed

definition norm_after :: "string option \<Rightarrow> string option" where
  "norm_after a = (if a = Some ''-1'' then None else a)"

lemma norm_after_simps [simp]: "norm_after a \<noteq> Some ''-1''" "norm_after (norm_after a) = norm_after a"
  by (auto simp: norm_after_def)

text \<open>What the source is asked for is the inherited part of the answer.\<close>

lemma asked_inherited:
  assumes "fork_point m = Some (parent, off)"
  shows "asked after cap (filter (\<lambda>x. msg_offset x \<le> off) ms)
    = (if needs_source m after = None then [] else asked after (Some (inherited_cap cap off)) ms)"
  using assms
  by (auto simp: asked_def fork_point_def needs_source_def inherited_cap_def filter_empty_conv
      split: option.splits if_splits intro!: filter_cong) 

lemma needs_source_Some:
  "needs_source m after = Some x \<Longrightarrow> fork_point m = Some x"
  by (auto simp: needs_source_def fork_point_def split: option.splits if_splits)

text \<open>Joining a page of the inherited part and a page of the own part.\<close>

lemma page_of_inherited_only:
  assumes "page_of rows limit budget b" "0 < length (rb_messages b) \<or> limit = 0"
  shows "page_of (rows @ own) limit budget \<lparr>rb_messages = rb_messages b, rb_capped = True\<rparr>"
proof -
  from assms(1) obtain j where "j \<le> length rows" "rb_messages b = map stored (take j rows)" "j \<le> limit"
    "batch_bytes (rb_messages b) \<le> budget \<or> j = 1"
    unfolding page_of_def by blast
  with assms(2) show ?thesis
    unfolding page_of_def by (intro exI [of _ j]) auto
qed

lemma quiet_run [act_simps]:
  "env_before_query quiet = ret ()" "env_between_queries quiet = ret ()" "env_after_source quiet = ret ()"
  "env_before_batch quiet = ret ()" "env_after_batch quiet = ret ()" "env_before_touch quiet = ret ()"
  by (simp_all add: quiet_def)

lemma page_of_joined:
  assumes "page_of rows limit budget b" "\<not> rb_capped b" "length (rb_messages b) < limit"
    and "0 < budget - batch_bytes (rb_messages b) \<or> rb_messages b = []"
    and "k \<le> length own" "k \<le> limit - length (rb_messages b)"
    and "data_size (take k own) \<le> budget - batch_bytes (rb_messages b) \<or> (rb_messages b = [] \<and> k = 1)"
    and "k < length own \<Longrightarrow> rb_messages b = [] \<Longrightarrow> 0 < k"
  shows "page_of (rows @ own) limit budget
    \<lparr>rb_messages = rb_messages b @ map stored (take k own), rb_capped = k < length own\<rparr>"
proof -
  from assms(1,2) have b: "rb_messages b = map stored rows" by (auto simp: page_of_def)
  have "batch_bytes (map stored (rows @ take k own)) \<le> budget \<or> length rows + k = 1"
    using assms(4,7) by (auto simp: batch_bytes_stored b)
  with assms b show ?thesis
    unfolding page_of_def by (intro exI [of _ "length rows + k"]) auto
qed

lemmas read_stitched_run = read_stitched.simps [unfolded Let_def, folded norm_after_def]

lemma read_stitched_own:
  assumes wf: "wf_db (db_of w p)" "sorted_db (db_of w p)" and "needs_source m (norm_after after) = None"
  shows "\<exists>b. read_stitched restarts R quiet p m after cap lim bud w = (Inr b, w)
    \<and> page_of (asked (norm_after after) cap (db_messages (db_of w p))) (min lim MAX_READ_ROWS) (min bud MAX_READ_BYTES) b"
proof -
  let ?own = "asked (norm_after after) cap (db_messages (db_of w p))"
  define l where "l = min lim MAX_READ_ROWS"
  define u where "u = min bud MAX_READ_BYTES"
  have l: "l \<le> MAX_READ_ROWS" by (simp add: l_def)
  obtain k where "read_own quiet p (norm_after after) cap l u True w
      = (Inr \<lparr>rb_messages = map stored (take k ?own), rb_capped = k < length ?own\<rparr>, w)"
    "k \<le> length ?own" "k \<le> l" "data_size (take k ?own) \<le> u \<or> k = 1" "k < length ?own \<Longrightarrow> 0 < l \<Longrightarrow> 0 < k"
    by (rule read_own_page [OF wf norm_after_simps(1) l, of after cap u True]) auto
  then show ?thesis
    unfolding l_def [symmetric] u_def [symmetric] read_stitched_run [of restarts R quiet p m after cap lim bud]
    by (simp add: assms(3) act_simps and_then_def page_of_def batch_bytes_stored) (rule exI [of _ k], simp)
qed

lemma read_stitched_fork:
  assumes wf: "wf_db (db_of w p)" "sorted_db (db_of w p)" and ok: "w_faults w = []" and m: "db_meta (db_of w p) = Some m"
    and fork: "needs_source m (norm_after after) = Some (parent, off)"
    and l: "l = min lim MAX_READ_ROWS" and u: "u = min bud MAX_READ_BYTES"
    and b: "rpc_read R parent \<lparr>rr_after_offset = norm_after after, rr_cap_offset = inherited_cap cap off,
        rr_limit = Some l, rr_byte_budget = Some u\<rparr> w = (Inr b, w)" "page_of src l u b"
  shows "\<exists>b. read_stitched restarts R quiet p m after cap lim bud w = (Inr b, w)
    \<and> page_of (src @ asked (norm_after after) cap (db_messages (db_of w p))) l u b"
proof -
  let ?own = "asked (norm_after after) cap (db_messages (db_of w p))"
  note run = read_stitched_run [of restarts R quiet p m after cap lim bud, folded l u]
  show ?thesis
  proof (cases "rb_capped b \<or> l \<le> length (rb_messages b) \<or> (u - batch_bytes (rb_messages b) = 0 \<and> rb_messages b \<noteq> [])")
    case True
    have "0 < length (rb_messages b) \<or> l = 0" using b(2) True by (auto simp: page_of_def)
    from page_of_inherited_only [OF b(2) this, of ?own] True show ?thesis
      by (simp add: run fork and_then_def no_fault_run [OF ok] b(1) act_simps m)
  next
    case False
    have l': "l - length (rb_messages b) \<le> MAX_READ_ROWS" by (simp add: l)
    obtain k where "read_own quiet p (norm_after after) cap (l - length (rb_messages b)) (u - batch_bytes (rb_messages b))
        (rb_messages b = []) w = (Inr \<lparr>rb_messages = map stored (take k ?own), rb_capped = k < length ?own\<rparr>, w)"
      "k \<le> length ?own" "k \<le> l - length (rb_messages b)"
      "data_size (take k ?own) \<le> u - batch_bytes (rb_messages b) \<or> (rb_messages b = [] \<and> k = 1)"
      "k < length ?own \<Longrightarrow> 0 < l - length (rb_messages b) \<Longrightarrow> rb_messages b = [] \<Longrightarrow> 0 < k"
      by (rule read_own_page [OF wf norm_after_simps(1) l', of after cap "u - batch_bytes (rb_messages b)" "rb_messages b = []"]) auto
    moreover from this have "page_of (src @ ?own) l u \<lparr>rb_messages = rb_messages b @ map stored (take k ?own),
        rb_capped = k < length ?own\<rparr>"
      using False by (intro page_of_joined [OF b(2)]) auto
    ultimately show ?thesis
      using False by (auto simp: run fork and_then_def no_fault_run [OF ok] b(1) m act_simps)
  qed
qed

lemma read_stitched_page:
  assumes wf: "wf_db (db_of w p)" "sorted_db (db_of w p)" and ok: "w_faults w = []"
    and m: "db_meta (db_of w p) = Some m"
    and source: "\<And>parent off r. fork_point m = Some (parent, off) \<Longrightarrow>
        \<exists>b. rpc_read R parent r w = (Inr b, w)
          \<and> page_of (asked (norm_after (rr_after_offset r)) (Some (rr_cap_offset r)) (src parent))
              (min (case rr_limit r of None \<Rightarrow> MAX_READ_ROWS | Some n \<Rightarrow> n) MAX_READ_ROWS)
              (min (case rr_byte_budget r of None \<Rightarrow> MAX_READ_BYTES | Some n \<Rightarrow> n) MAX_READ_BYTES) b"
    and log: "log = (case fork_point m of None \<Rightarrow> [] | Some (parent, off) \<Rightarrow> filter (\<lambda>x. msg_offset x \<le> off) (src parent))
        @ db_messages (db_of w p)"
  shows "\<exists>b. read_stitched restarts R quiet p m after cap lim bud w = (Inr b, w)
    \<and> page_of (asked (norm_after after) cap log) (min lim MAX_READ_ROWS) (min bud MAX_READ_BYTES) b"
proof (cases "needs_source m (norm_after after)")
  case None
  have "asked (norm_after after) cap log = asked (norm_after after) cap (db_messages (db_of w p))"
    using None asked_inherited [of m] by (auto simp: log asked_def split: option.split)
  then show ?thesis using read_stitched_own [OF wf None] by metis
next
  case (Some x)
  obtain parent off where x: "x = (parent, off)" by (cases x)
  note fork = needs_source_Some [OF Some, unfolded x]
  define l where "l = min lim MAX_READ_ROWS"
  define u where "u = min bud MAX_READ_BYTES"
  have "l \<le> MAX_READ_ROWS" "u \<le> MAX_READ_BYTES" by (simp_all add: l_def u_def)
  with source [OF fork, of "\<lparr>rr_after_offset = norm_after after, rr_cap_offset = inherited_cap cap off,
      rr_limit = Some l, rr_byte_budget = Some u\<rparr>"] obtain b where
    "rpc_read R parent \<lparr>rr_after_offset = norm_after after, rr_cap_offset = inherited_cap cap off,
        rr_limit = Some l, rr_byte_budget = Some u\<rparr> w = (Inr b, w)"
    "page_of (asked (norm_after after) (Some (inherited_cap cap off)) (src parent)) l u b" by auto
  from read_stitched_fork [OF wf ok m Some [unfolded x] l_def u_def this] show ?thesis
    using asked_inherited [OF fork, of "norm_after after" cap "src parent"] Some by (simp add: log fork l_def u_def)
qed

subsection \<open>Any depth of forks\<close>

lemma chain_Suc:
  "regular_chain n w p \<Longrightarrow> regular_chain (Suc n) w p \<and> stitched_log (Suc n) w p = stitched_log n w p"
proof (induction n arbitrary: p)
  case (Suc n)
  show ?case
  proof (cases "db_meta (db_of w p)")
    case (Some m)
    show ?thesis
    proof (cases "fork_point m")
      case fork: (Some x)
      obtain parent off where x: "x = (parent, off)" by (cases x)
      with Suc.prems Some fork have "regular_chain n w parent" by simp
      from Suc.IH [OF this] Suc.prems Some fork x show ?thesis
        by (simp only: regular_chain.simps(2) [of "Suc n" w p] stitched_log.simps(2) [of "Suc n" w p]
            regular_chain.simps(2) [of n w p] stitched_log.simps(2) [of n w p] option.case prod.case)
    qed (use Suc.prems Some in simp)
  qed simp
qed simp

lemmas regular_chain_Suc = conjunct1 [OF chain_Suc] and stitched_log_Suc = conjunct2 [OF chain_Suc]

lemma regular_chain_mono:
  "regular_chain n w p \<Longrightarrow> n \<le> k \<Longrightarrow> regular_chain k w p \<and> stitched_log k w p = stitched_log n w p"
proof (induction k)
  case (Suc k)
  show ?case
  proof (cases "n = Suc k")
    case False
    with Suc have "regular_chain k w p" "stitched_log k w p = stitched_log n w p" by auto
    then show ?thesis by (simp only: regular_chain_Suc stitched_log_Suc)
  qed (use Suc in simp)
qed simp

abbreviation requested_rows :: "read_range \<Rightarrow> nat" where
  "requested_rows r \<equiv> min (case rr_limit r of None \<Rightarrow> MAX_READ_ROWS | Some n \<Rightarrow> n) MAX_READ_ROWS"

abbreviation requested_bytes :: "read_range \<Rightarrow> nat" where
  "requested_bytes r \<equiv> min (case rr_byte_budget r of None \<Rightarrow> MAX_READ_BYTES | Some n \<Rightarrow> n) MAX_READ_BYTES"

lemma read_range_page:
  assumes "wf_world w" and "w_faults w = []" and "regular_chain (Suc n) w p"
  shows "\<exists>b. handle_read_range k (rpc_at E k quiet n) quiet p r w = (Inr b, w)
    \<and> page_of (asked (norm_after (rr_after_offset r)) (Some (rr_cap_offset r)) (stitched_log (Suc n) w p))
        (requested_rows r) (requested_bytes r) b"
  using assms(3)
proof (induction n arbitrary: p r)
  case 0
  show ?case
  proof (cases "db_meta (db_of w p)")
    case None
    then show ?thesis
      by (simp add: handle_read_range_def and_then_def get_meta_def ret_def page_of_def empty_batch_def
          asked_def batch_bytes_def)
  next
    case (Some m)
    with 0 have "fork_point m = None" by (auto split: option.splits)
    moreover have "wf_db (db_of w p)" using assms(1) by (simp add: wf_world_def)
    ultimately show ?thesis
      using read_stitched_page [of w p m "rpc_at E k quiet 0" "\<lambda>_. []" "db_messages (db_of w p)"]
        own_log_sorted [OF _ 0] Some assms(2)
      by (simp add: handle_read_range_def and_then_def get_meta_def)
  qed
next
  case (Suc n)
  show ?case
  proof (cases "db_meta (db_of w p)")
    case None
    then show ?thesis
      by (simp add: handle_read_range_def and_then_def get_meta_def ret_def page_of_def empty_batch_def
          asked_def batch_bytes_def)
  next
    case (Some m)
    have wf: "wf_db (db_of w p)" using assms(1) by (simp add: wf_world_def)
    have "\<exists>b. rpc_read (rpc_at E k quiet (Suc n)) parent r w = (Inr b, w)
        \<and> page_of (asked (norm_after (rr_after_offset r)) (Some (rr_cap_offset r)) (stitched_log (Suc n) w parent))
            (requested_rows r) (requested_bytes r) b" if "fork_point m = Some (parent, off)" for parent off r
      using Suc.IH [of parent r] Suc.prems Some that by simp
    from read_stitched_page [OF wf own_log_sorted [OF wf Suc.prems] assms(2) Some this refl] Some
    show ?thesis
      by (simp add: handle_read_range_def and_then_def get_meta_def)
  qed
qed

lemma stitched_page:
  assumes wf: "wf_world w" and ok: "w_faults w = []" and chain: "regular_chain (Suc n) w p" and m: "db_meta (db_of w p) = Some m"
  shows "\<exists>b. read_stitched k (rpc_at E k quiet n) quiet p m off None MAX_READ_ROWS MAX_READ_BYTES w = (Inr b, w)
    \<and> page_of (asked (norm_after off) None (stitched_log (Suc n) w p)) MAX_READ_ROWS MAX_READ_BYTES b"
proof -
  have wfp: "wf_db (db_of w p)" using wf by (simp add: wf_world_def)
  have source: "\<exists>b. rpc_read (rpc_at E k quiet n) parent r w = (Inr b, w)
      \<and> page_of (asked (norm_after (rr_after_offset r)) (Some (rr_cap_offset r)) (stitched_log n w parent))
          (requested_rows r) (requested_bytes r) b"
    if "fork_point m = Some (parent, off)" for parent off r
  proof (cases n)
    case 0
    with chain m that show ?thesis by simp
  next
    case (Suc n')
    with chain m that have "regular_chain (Suc n') w parent" by simp
    from read_range_page [OF wf ok this, of k E r] Suc show ?thesis by simp
  qed
  have "stitched_log (Suc n) w p = (case fork_point m of None \<Rightarrow> [] | Some (parent, off) \<Rightarrow>
      filter (\<lambda>x. msg_offset x \<le> off) (stitched_log n w parent)) @ db_messages (db_of w p)"
    using m by simp
  from read_stitched_page [OF wfp own_log_sorted [OF wfp chain] ok m source this, where restarts = k and after = off and cap = None
      and lim = MAX_READ_ROWS and bud = MAX_READ_BYTES]
  show ?thesis by (simp del: stitched_log.simps)
qed

text \<open>
  C11. A range read of any stream in a world at rest returns a page of the stitched log: the first
  messages of what was asked for, in order, at most as many as requested, within the byte budget
  unless the first alone exceeds it; all of them unless the page says it is capped; and at least
  one if it is. Enough depth of calls is as much as the chain of forks is long.
\<close>

theorem read_range_returns_page:
  assumes "reachable E w" and "w_faults w = []" and "regular_chain (Suc n) w p" and "n \<le> depth"
  shows "\<exists>b. handle_read_range k (rpc_at E k quiet depth) quiet p r w = (Inr b, w)
    \<and> page_of (asked (norm_after (rr_after_offset r)) (Some (rr_cap_offset r)) (stitched_log (Suc n) w p))
        (requested_rows r) (requested_bytes r) b"
proof -
  have "regular_chain (Suc depth) w p" "stitched_log (Suc depth) w p = stitched_log (Suc n) w p"
    using regular_chain_mono [OF assms(3), of "Suc depth"] assms(4) by auto
  with read_range_page [OF reachable_wf_world [OF assms(1)] assms(2), of depth p k E r] show ?thesis
    by metis
qed

subsection \<open>Reading everything\<close>

text \<open>A reader that asks for page after page, each from the end of the one before.\<close>

fun drain :: "nat \<Rightarrow> (string option \<Rightarrow> read_batch act) \<Rightarrow> string option \<Rightarrow> stored_message list act" where
  "drain 0 rd after = throw ''too many pages''"
| "drain (Suc n) rd after =
     and_then (rd after) (\<lambda>b.
       if \<not> rb_capped b then ret (rb_messages b)
       else and_then (drain n rd (Some (sm_offset (last (rb_messages b))))) (\<lambda>rest.
              ret (rb_messages b @ rest)))"

lemma stitched_log_sorted:
  assumes "wf_world w"
  shows "regular_chain n w p \<Longrightarrow> strictly_sorted_by msg_offset (stitched_log n w p)"
proof (induction n arbitrary: p)
  case (Suc n)
  have wf: "wf_db (db_of w p)" using assms by (simp add: wf_world_def)
  note own = own_log_sorted [OF wf Suc.prems, unfolded sorted_db_def]
  show ?case
  proof (cases "db_meta (db_of w p)")
    case (Some m)
    show ?thesis
    proof (cases "fork_point m")
      case fork: (Some x)
      obtain parent off where x: "x = (parent, off)" by (cases x)
      with Suc Some fork have "strictly_sorted_by msg_offset (stitched_log n w parent)" by simp
      then have "strictly_sorted_by msg_offset (filter (\<lambda>x. msg_offset x \<le> off) (stitched_log n w parent))"
        by (rule strictly_sorted_by_filter)
      moreover have "\<forall>q \<in> set (db_messages (db_of w p)). off < msg_offset q"
        using own_after_fork [OF wf Suc.prems Some] fork x by auto
      ultimately show ?thesis
        using Some fork x own by (auto simp: strictly_sorted_by_append)
    qed (use Some own in simp)
  qed simp
qed simp

lemma asked_after_take:
  assumes "strictly_sorted_by msg_offset rows" and "rows = asked after cap ms" and "0 < j" and "j \<le> length rows"
  shows "asked (Some (msg_offset (rows ! (j - 1)))) cap ms = drop j rows"
proof -
  let ?x = "rows ! (j - 1)"
  have x: "?x \<in> set rows" using assms(3,4) by (intro nth_mem) linarith
  have lower: "(case after of None \<Rightarrow> True | Some a \<Rightarrow> a < msg_offset m)" if "msg_offset ?x < msg_offset m" for m
    using x that by (auto simp: assms(2) asked_def split: option.splits)
  have "asked (Some (msg_offset ?x)) cap ms = filter (\<lambda>m. msg_offset ?x < msg_offset m) rows"
    using lower by (auto simp: assms(2) asked_def intro!: filter_cong)
  also have "\<dots> = drop j rows"
  proof -
    have split: "rows = take (j - 1) rows @ ?x # drop j rows"
      using assms(3,4) id_take_nth_drop [of "j - 1" rows] by simp
    have "strictly_sorted_by msg_offset (take (j - 1) rows @ ?x # drop j rows)"
      using assms(1) split by simp
    then have "\<forall>y \<in> set (take (j - 1) rows). \<not> msg_offset ?x < msg_offset y"
      and "\<forall>y \<in> set (drop j rows). msg_offset ?x < msg_offset y"
      by (auto simp: strictly_sorted_by_append)
    then have "filter (\<lambda>m. msg_offset ?x < msg_offset m) (take (j - 1) rows @ ?x # drop j rows) = drop j rows"
      by (simp add: filter_empty_conv filter_id_conv)
    with split show ?thesis by simp
  qed
  finally show ?thesis .
qed

lemma offset_not_minus_one:
  "wf_world w \<Longrightarrow> x \<in> set (stitched_log n w p) \<Longrightarrow> msg_offset x \<noteq> ''-1''"
proof (induction n arbitrary: p)
  case (Suc n)
  have "msg_offset x \<noteq> ''-1''" if "x \<in> set (db_messages (db_of w p))" "db_meta (db_of w p) = Some m" for m
  proof -
    have "wf_log (db_of w p)" using Suc.prems(1) by (simp add: wf_world_def wf_db_log)
    from framed_offset_val [OF wf_log_Some(3) [OF this that(2)] that(1)]
    have "msg_offset x = offset_text (offset_val (msg_offset x))" by simp
    also have "\<dots> \<noteq> ''-1''" by (simp add: offset_text_def show16_zero)
    finally show ?thesis .
  qed
  note own = this
  show ?case
  proof (cases "db_meta (db_of w p)")
    case (Some m)
    with Suc.prems(2) consider "x \<in> set (db_messages (db_of w p))"
      | parent off where "x \<in> set (stitched_log n w parent)"
      by (auto split: option.splits)
    then show ?thesis by cases (use own Some Suc in auto)
  qed (use Suc.prems in simp)
qed simp

lemma last_page_row:
  assumes "0 < j" and "j \<le> length rows"
  shows "sm_offset (last (map stored (take j rows))) = msg_offset (rows ! (j - 1))"
proof -
  have nonempty: "take j rows \<noteq> []" using assms by auto
  moreover have "last (take j rows) = rows ! (j - 1)"
    using assms by (simp add: last_conv_nth [OF nonempty])
  ultimately show ?thesis by (simp add: last_map stored_def)
qed

lemma drain_pages:
  assumes sorted: "strictly_sorted_by msg_offset ms" and names: "\<And>x. x \<in> set ms \<Longrightarrow> msg_offset x \<noteq> ''-1''"
    and rd: "\<And>a. \<exists>b. rd a w = (Inr b, w) \<and> page_of (asked (norm_after a) cap ms) limit budget b"
    and limit: "0 < limit"
  shows "length (asked (norm_after a) cap ms) < fuel
    \<Longrightarrow> drain fuel rd a w = (Inr (map stored (asked (norm_after a) cap ms)), w)"
proof (induction fuel arbitrary: a)
  case (Suc fuel)
  let ?rows = "asked (norm_after a) cap ms"
  obtain b j where b: "rd a w = (Inr b, w)" and j: "j \<le> length ?rows" "rb_messages b = map stored (take j ?rows)"
    "\<not> rb_capped b \<longrightarrow> j = length ?rows" "rb_capped b \<longrightarrow> 0 < j"
    using rd [of a] limit unfolding page_of_def by blast
  show ?case
  proof (cases "rb_capped b")
    case False
    with b j show ?thesis by (simp add: and_then_def ret_def)
  next
    case True
    with j have j0: "0 < j" by simp
    let ?x = "?rows ! (j - 1)"
    have "sm_offset (last (rb_messages b)) = msg_offset ?x"
      using last_page_row [OF j0 j(1)] j(2) by simp
    moreover have "?x \<in> set ms"
    proof -
      have "?x \<in> set ?rows" using j(1) j0 by (intro nth_mem) linarith
      then show ?thesis by (simp add: asked_def)
    qed
    then have "norm_after (Some (msg_offset ?x)) = Some (msg_offset ?x)"
      using names by (simp add: norm_after_def)
    moreover have "strictly_sorted_by msg_offset ?rows"
      unfolding asked_def by (rule strictly_sorted_by_filter [OF sorted])
    from asked_after_take [OF this refl j0 j(1)]
    have "asked (Some (msg_offset ?x)) cap ms = drop j ?rows" .
    ultimately have "drain fuel rd (Some (sm_offset (last (rb_messages b)))) w
        = (Inr (map stored (drop j ?rows)), w)"
      using Suc.IH [of "Some (msg_offset ?x)"] Suc.prems j(1) j0 by simp
    moreover have "map stored (take j ?rows) @ map stored (drop j ?rows) = map stored ?rows"
      by (simp add: map_append [symmetric] del: map_append)
    ultimately show ?thesis
      using True b j(2) by (simp add: and_then_def ret_def)
  qed
qed simp

text \<open>
  C13. Reading page after page, a reader gets every message of the stitched log after its starting
  offset, once and in order, in at most one page more than there are messages.
\<close>

theorem paging_is_complete:
  assumes "reachable E w" and "w_faults w = []" and "regular_chain (Suc n) w p"
    and "length (asked (norm_after a) (Some cap) (stitched_log (Suc n) w p)) < pages"
  shows "drain pages (\<lambda>after. handle_read_range k (rpc_at E k quiet n) quiet p
             \<lparr>rr_after_offset = after, rr_cap_offset = cap, rr_limit = None, rr_byte_budget = None\<rparr>) a w
         = (Inr (map stored (asked (norm_after a) (Some cap) (stitched_log (Suc n) w p))), w)"
proof (rule drain_pages [OF _ _ _ _ assms(4)])
  note wf = reachable_wf_world [OF assms(1)]
  show "strictly_sorted_by msg_offset (stitched_log (Suc n) w p)"
    by (rule stitched_log_sorted [OF wf assms(3)])
  show "msg_offset x \<noteq> ''-1''" if "x \<in> set (stitched_log (Suc n) w p)" for x
    using offset_not_minus_one [OF wf that] .
  show "\<exists>b. handle_read_range k (rpc_at E k quiet n) quiet p \<lparr>rr_after_offset = after, rr_cap_offset = cap,
          rr_limit = None, rr_byte_budget = None\<rparr> w = (Inr b, w)
      \<and> page_of (asked (norm_after after) (Some cap) (stitched_log (Suc n) w p)) MAX_READ_ROWS MAX_READ_BYTES b" for after
    using read_range_page [OF wf assms(2,3), of k E "\<lparr>rr_after_offset = after, rr_cap_offset = cap,
          rr_limit = None, rr_byte_budget = None\<rparr>"] by simp
  show "0 < MAX_READ_ROWS" by (simp add: MAX_READ_ROWS_def)
qed

end
