(* ===== verification/Appending.thy ===== *)
theory Appending
  imports System
begin

text \<open>
  What POST does to a stream: it appends one message or none, whatever fails; what it accepts it
  appends exactly; a retry of an accepted request is answered without a second append; a closed
  stream does not change.
\<close>

definition live_stream :: "'j ext \<Rightarrow> world \<Rightarrow> string \<Rightarrow> meta \<Rightarrow> bool" where
  "live_stream E w p m \<longleftrightarrow> db_meta (db_of w p) = Some m \<and> \<not> is_expired E m (w_clock w)"

lemma visible_live:
  "live_stream E w p m \<Longrightarrow> visible_meta_while_locked E R p (w_clock w) w = (Inr (Some m), w)"
  by (simp add: live_stream_def visible_meta_while_locked_def and_then_def get_meta_def ret_def)

subsection \<open>Frames\<close>

text \<open>The world after an action that touches at most the database of one stream.\<close>

definition same_dbs :: "world \<Rightarrow> world \<Rightarrow> bool" where
  "same_dbs w w' \<longleftrightarrow> (\<forall>q. db_of w' q = db_of w q)"

definition sets_db :: "string \<Rightarrow> db \<Rightarrow> world \<Rightarrow> world \<Rightarrow> bool" where
  "sets_db p d w w' \<longleftrightarrow> (\<forall>q. db_of w' q = (if q = p then d else db_of w q))"

lemma same_dbs_simps [simp]:
  "same_dbs w w" "same_dbs w (w'\<lparr>w_faults := fs\<rparr>) = same_dbs w w'" "same_dbs w (w'\<lparr>w_uuids := u\<rparr>) = same_dbs w w'"
  by (simp_all add: same_dbs_def)

lemma sets_db_faults [simp]: "sets_db p d (w\<lparr>w_faults := fs\<rparr>) w' = sets_db p d w w'"
  by (simp add: sets_db_def)

subsection \<open>The transaction of an append\<close>

lemma finish_append_frame [simp]:
  "db_messages (finish_append E tx accepted producer seq cl now) = db_messages tx"
  by (auto simp: finish_append_def Let_def touch_def set_closed_def set_last_seq_def update_meta_def
      commit_producer_state_def split: option.split)

lemma finish_append_meta:
  "db_meta tx = Some m \<Longrightarrow> \<exists>m'. db_meta (finish_append E tx accepted producer seq cl now) = Some m'
     \<and> current_offset m' = current_offset m \<and> generation m' = generation m
     \<and> content_type m' = content_type m \<and> soft_deleted m' = soft_deleted m
     \<and> closed m' = (closed m \<or> cl) \<and> ttl_seconds m' = ttl_seconds m \<and> expires_at m' = expires_at m
     \<and> Store.last_seq m' = (case seq of None \<Rightarrow> Store.last_seq m | Some s \<Rightarrow> Some s)
     \<and> last_accessed_at m' = now
     \<and> Store.closed_by m' = (case producer of Some ph \<Rightarrow>
          if cl then Some (closed_by_to_json E (closed_by_of ph)) else Store.closed_by m | None \<Rightarrow> Store.closed_by m)"
  by (auto simp: finish_append_def Let_def touch_def set_closed_def set_last_seq_def update_meta_def
      commit_producer_state_def split: option.split)

lemma append_tx_cases:
  assumes "append_tx E p producer seq payload cl now w = (r, w')"
  obtains (unchanged) "same_dbs w w'"
  | (appended) tx m accepted tx1 tx2 off where "db_meta (db_of w p) = Some m"
      "check_producer producer (db_of w p) m now = (Inr accepted, tx1)"
      "seq_conflict E (Store.last_seq m) seq = Inr False"
      "append_message tx1 (current_offset m) payload now = Inr (tx2, off)"
      "sets_db p (finish_append E tx2 accepted producer seq cl now) w w'"
      "r = producer_success off producer cl"
proof (cases "fst (next_fault w) = Inr Ok")
  case False
  with assms have "same_dbs w w'"
    by (auto simp: append_tx_def and_then_def begin_mutation_cases)
  then show thesis by (rule unchanged)
next
  case True
  show thesis
  proof (cases "db_meta (db_of w p)")
    case None
    with True assms have "same_dbs w w'"
      by (auto simp: append_tx_def and_then_def begin_mutation_cases get_meta_tx_def rollback_def ret_def
          lift_result_def)
    then show thesis by (rule unchanged)
  next
    case (Some m)
    obtain verdict tx1 where check: "check_producer producer (db_of w p) m now = (verdict, tx1)"
      by (cases "check_producer producer (db_of w p) m now")
    note run = assms [unfolded append_tx_def and_then_def begin_mutation_cases get_meta_tx_def]
    consider (refused) "same_dbs w w'" | (ok) accepted tx2 off where "verdict = Inr accepted"
      "seq_conflict E (Store.last_seq m) seq = Inr False"
      "append_message tx1 (current_offset m) payload now = Inr (tx2, off)"
    proof (cases verdict)
      case (Inl refused)
      with True Some check run have "same_dbs w w'"
        by (auto simp: rollback_def ret_def lift_result_def)
      then show thesis by (rule refused)
    next
      case (Inr accepted)
      show thesis
      proof (cases "seq_conflict E (Store.last_seq m) seq = Inr False \<and>
          (\<exists>x. append_message tx1 (current_offset m) payload now = Inr x)")
        case False
        with True Some check run Inr have "same_dbs w w'"
          by (auto simp: rollback_def ret_def lift_result_def split: sum.splits if_splits)
        then show thesis by (rule refused)
      qed (use Inr ok in auto)
    qed
    then show thesis
    proof cases
      case ok
      with True Some check run
      have "r = producer_success off producer cl"
        and "sets_db p (finish_append E tx2 accepted producer seq cl now) w w'"
        by (auto simp: lift_result_def commit_def notify_change_def update_actor_def sets_db_def)
      with Some check ok show thesis by (intro appended) auto
    qed (rule unchanged)
  qed
qed

subsection \<open>The handlers\<close>

lemma set_closed_touch:
  "db_messages (touch (set_closed d b) now) = db_messages d"
  "db_meta d = Some m \<Longrightarrow> \<exists>m'. db_meta (touch (set_closed d b) now) = Some m' \<and> closed m'
     \<and> current_offset m' = current_offset m"
  by (auto simp: touch_def set_closed_def update_meta_def)

text \<open>What closing may change: not the messages and not the offset.\<close>

definition closes :: "db \<Rightarrow> db \<Rightarrow> bool" where
  "closes d d' \<longleftrightarrow> db_messages d' = db_messages d
     \<and> (\<exists>m m'. db_meta d = Some m \<and> db_meta d' = Some m' \<and> closed m' \<and> current_offset m' = current_offset m)"

lemma closesI:
  assumes "db_meta d = Some m" "db_meta d1 = Some m" "db_messages d1 = db_messages d"
  shows "closes d (touch (set_closed d1 b) now)"
  using set_closed_touch(2) [OF assms(2)] assms by (auto simp: closes_def set_closed_touch(1))

lemma commit_producer_state_frame [simp]:
  "db_meta (commit_producer_state d i st) = db_meta d"
  "db_messages (commit_producer_state d i st) = db_messages d"
  by (simp_all add: commit_producer_state_def)

lemma close_tx_cases:
  assumes "close_tx E p m ph now w = (r, w')" and "db_meta (db_of w p) = Some m"
  shows "same_dbs w w' \<or> (\<exists>d'. closes (db_of w p) d' \<and> sets_db p d' w w')"
proof (cases "fst (next_fault w) = Inr Ok")
  case False
  with assms show ?thesis by (auto simp: close_tx_def and_then_def begin_mutation_cases)
next
  case True
  obtain prior tx1 where prior:
    "get_producer_state (db_of w p) (ph_id ph) (saturating_sub_i64 now PRODUCER_STATE_TTL_MS) = (prior, tx1)"
    by fastforce
  note frame = get_producer_state_frame [OF prior]
  show ?thesis
  proof (cases "validate_producer prior ph now")
    case (Accepted st)
    let ?d = "touch (set_closed (commit_producer_state tx1 (ph_id ph) st)
        (Some (closed_by_to_json E (closed_by_of ph)))) now"
    from True prior assms Accepted have "sets_db p ?d w w'"
      by (auto simp: close_tx_def and_then_def begin_mutation_cases commit_def notify_change_def
          update_actor_def lift_result_def sets_db_def)
    moreover have "closes (db_of w p) ?d" by (rule closesI) (simp_all add: assms(2) frame)
    ultimately show ?thesis by blast
  qed (use True prior assms in
      \<open>auto simp: close_tx_def and_then_def begin_mutation_cases rollback_def ret_def lift_result_def\<close>)
qed

lemma close_only_cases:
  assumes "handle_close_only E R p producer w = (r, w')" and "live_stream E w p m"
  shows "same_dbs w w' \<or> (\<exists>d'. closes (db_of w p) d' \<and> sets_db p d' w w' \<and> (closed m \<longrightarrow> producer = None))"
proof -
  have m: "db_meta (db_of w p) = Some m" using assms(2) by (simp add: live_stream_def)
  note run = assms(1) [unfolded handle_close_only_def and_then_def now_ms_def visible_live [OF assms(2)]]
  show ?thesis
  proof (cases "soft_deleted m")
    case True
    with run show ?thesis by (simp add: lift_result_def and_then_def visible_live [OF assms(2)])
  next
    case False
    show ?thesis
    proof (cases producer)
      case None
      show ?thesis
      proof (cases "fst (next_fault w) = Inr Ok")
        case True
        with run False None have "sets_db p (touch (set_closed (db_of w p) None) (w_clock w)) w w'"
          by (auto simp: and_then_def visible_live [OF assms(2)] begin_mutation_cases commit_def
              notify_change_def update_actor_def lift_result_def sets_db_def)
        with closesI [OF m m, of None "w_clock w"] None show ?thesis by blast
      next
        case f: False
        with run False None show ?thesis
          by (auto simp: and_then_def visible_live [OF assms(2)] begin_mutation_cases)
      qed
    next
      case (Some ph)
      show ?thesis
      proof (cases "closed m")
        case True
        with run False Some show ?thesis
          by (auto simp: and_then_def visible_live [OF assms(2)] lift_result_def split: if_splits)
      next
        case False
        with run \<open>\<not> soft_deleted m\<close> Some have "close_tx E p m ph (w_clock w) w = (r, w')"
          by (simp add: and_then_def visible_live [OF assms(2)])
        from close_tx_cases [OF this m] False show ?thesis by blast
      qed
    qed
  qed
qed

lemma post_locked_cases:
  assumes "post_locked E R p producer ct seq body cl w = (r, w')" and "live_stream E w p m"
  obtains (unchanged) "same_dbs w w'"
  | (append) payload where "\<not> soft_deleted m" "\<not> closed m"
      "normalize_content_type (Some ct) = normalize_content_type (content_type m)"
      "post_payload E m body = Inr (Inr payload)"
      "append_tx E p producer (map_option (b64url_encode E) seq) payload cl (w_clock w) w = (r, w')"
  using assms(1)
  by (cases "post_payload E m body")
    (auto simp: post_locked_def and_then_def now_ms_def visible_live [OF assms(2)] lift_result_def ret_def
      throw_def split: if_splits sum.splits option.splits)

text \<open>The headers of an append, as the handler reads them.\<close>

record post_headers =
  pr_close :: bool
  pr_producer :: "producer_headers option"
  pr_content_type :: string
  pr_seq :: "bytes option"

definition post_headers_of :: "'j ext \<Rightarrow> request \<Rightarrow> post_headers \<Rightarrow> bool" where
  "post_headers_of E req h \<longleftrightarrow>
     length (req_body req) \<le> MAX_BODY_BYTES \<and> req_body req \<noteq> []
     \<and> header_is_true E req STREAM_CLOSED = Inr (pr_close h)
     \<and> parse_producer E req = Inr (pr_producer h)
     \<and> public_header_text E req ''content-type'' = Inr (Some (pr_content_type h))
     \<and> public_header_bytes E req STREAM_SEQ = Inr (pr_seq h)"

lemma handle_post_locked:
  assumes "post_headers_of E req h"
  shows "handle_post E R p req
    = post_locked E R p (pr_producer h) (pr_content_type h) (pr_seq h) (req_body req) (pr_close h)"
  using assms by (simp add: handle_post_def post_headers_of_def)

lemma handle_post_cases:
  assumes "handle_post E R p req w = (r, w')"
  obtains (unchanged) "w' = w"
  | (close) producer where "handle_close_only E R p producer w = (r, w')" "req_body req = []"
      "parse_producer E req = Inr producer"
  | (append) h where "post_headers_of E req h"
      "post_locked E R p (pr_producer h) (pr_content_type h) (pr_seq h) (req_body req) (pr_close h) w = (r, w')"
proof (cases "\<exists>h. post_headers_of E req h")
  case True
  with assms append show thesis by (metis handle_post_locked)
next
  case False
  then have none: "\<not> post_headers_of E req \<lparr>pr_close = c, pr_producer = pd, pr_content_type = ct, pr_seq = sq\<rparr>"
    for c pd ct sq by blast
  consider "w' = w" | producer where "handle_close_only E R p producer w = (r, w')" "req_body req = []"
      "parse_producer E req = Inr producer"
    using assms none
    by (cases "header_is_true E req STREAM_CLOSED"; cases "parse_producer E req";
        cases "public_header_text E req ''content-type''"; cases "public_header_bytes E req STREAM_SEQ")
      (auto simp: handle_post_def post_headers_of_def lift_result_def throw_def split: if_splits option.splits)
  then show thesis by (cases) (use unchanged close in auto)
qed

text \<open>What an append leaves in the log.\<close>

lemma append_tx_log:
  assumes "append_tx E p producer seq payload cl now w = (r, w')" and "wf_db (db_of w p)"
    and "db_meta (db_of w p) = Some m" and "\<not> same_dbs w w'"
  obtains off d' where "sets_db p d' w w'" "r = producer_success off producer cl"
    "offset_val off = offset_val (current_offset m) + 5 + length payload"
    "db_messages d' = db_messages (db_of w p) @ [\<lparr>msg_offset = off, msg_data = payload, msg_ts = now\<rparr>]"
proof -
  from assms(1) obtain accepted tx1 tx2 off where
    check: "check_producer producer (db_of w p) m now = (Inr accepted, tx1)"
    and app: "append_message tx1 (current_offset m) payload now = Inr (tx2, off)"
    and post: "sets_db p (finish_append E tx2 accepted producer seq cl now) w w'"
      "r = producer_success off producer cl"
    using assms(3,4) by (cases rule: append_tx_cases) auto
  have tx1: "wf_log tx1" "db_meta tx1 = Some m" "db_messages tx1 = db_messages (db_of w p)"
    using check_producer_frame [OF check] check_producer_wf [OF check assms(2)] assms(3)
    by (simp_all add: wf_db_log)
  from app have adv: "advance_offset (current_offset m) (length payload) = Inr off"
    and "db_messages tx2 = db_messages tx1 @ [\<lparr>msg_offset = off, msg_data = payload, msg_ts = now\<rparr>]"
    by (auto simp: append_message_wf [OF tx1(1,2)] result_bind_Inr_iff)
  moreover have "offset_val off = offset_val (current_offset m) + 5 + length payload"
    using advance_stream_offset_InrD(1) [OF adv wf_log_Some(1) [OF tx1(1,2)]] by simp
  ultimately show thesis using tx1 by (intro that [OF post]) auto
qed

lemma same_dbsD: "same_dbs w w' \<Longrightarrow> db_of w' q = db_of w q"
  by (simp add: same_dbs_def)

lemma sets_dbD: "sets_db p d w w' \<Longrightarrow> db_of w' q = (if q = p then d else db_of w q)"
  by (simp add: sets_db_def)

lemma producer_success_headers:
  "\<exists>resp. producer_success off producer cl = Inr resp \<and> status resp \<in> {200, 204}
     \<and> headers resp STREAM_OFFSET = Some off"
  by (auto simp: producer_success_def response_def from_parts_def hash_map_def producer_headers_of_def
      header_names map_add_def split: option.split)

text \<open>
  C2. A POST to a live stream appends one message or leaves the log as it was, whatever fails, and
  it touches no other stream. If it appends, the message is the payload made of the request's body,
  its offset is the old end of the log plus the payload plus five, and the response says so.
\<close>

theorem post_appends_at_most_once:
  assumes "reachable E w" and "live_stream E w p m" and "handle_post E R p req w = (r, w')"
  shows "(\<forall>q. q \<noteq> p \<longrightarrow> db_of w' q = db_of w q)
    \<and> (db_messages (db_of w' p) = db_messages (db_of w p)
       \<or> (\<exists>payload off resp.
            db_messages (db_of w' p)
              = db_messages (db_of w p) @ [\<lparr>msg_offset = off, msg_data = payload, msg_ts = w_clock w\<rparr>]
            \<and> post_payload E m (req_body req) = Inr (Inr payload)
            \<and> offset_val off = offset_val (current_offset m) + 5 + length payload
            \<and> r = Inr resp \<and> status resp \<in> {200, 204} \<and> headers resp STREAM_OFFSET = Some off))"
  using assms(3)
proof (cases rule: handle_post_cases)
  case (close producer)
  from close_only_cases [OF close(1) assms(2)] show ?thesis
    by (auto simp: same_dbsD sets_dbD closes_def)
next
  case (append h)
  from append(2) assms(2) show ?thesis
  proof (cases rule: post_locked_cases)
    case locked: (append payload)
    show ?thesis
    proof (cases "same_dbs w w'")
      case False
      have m: "db_meta (db_of w p) = Some m" using assms(2) by (simp add: live_stream_def)
      from append_tx_log [OF locked(5) reachable_wf_db [OF assms(1)] m False]
      obtain off d' where "sets_db p d' w w'" "r = producer_success off (pr_producer h) (pr_close h)"
        "offset_val off = offset_val (current_offset m) + 5 + length payload"
        "db_messages d' = db_messages (db_of w p) @ [\<lparr>msg_offset = off, msg_data = payload, msg_ts = w_clock w\<rparr>]"
        by blast
      with locked(4) producer_success_headers [of off "pr_producer h" "pr_close h"] show ?thesis
        by (simp add: sets_dbD)
    qed (simp add: same_dbsD)
  qed (simp add: same_dbsD)
qed simp

text \<open>
  C16. A closed stream stays as it is: no POST, of whatever content and from whatever producer,
  changes its messages or its offset.
\<close>

theorem post_closed_stream_unchanged:
  assumes "live_stream E w p m" and "closed m" and "handle_post E R p req w = (r, w')"
  shows "db_messages (db_of w' p) = db_messages (db_of w p)
    \<and> (\<exists>m'. db_meta (db_of w' p) = Some m' \<and> closed m' \<and> current_offset m' = current_offset m)"
proof -
  have m: "db_meta (db_of w p) = Some m" using assms(1) by (simp add: live_stream_def)
  from assms(3) show ?thesis
  proof (cases rule: handle_post_cases)
    case (close producer)
    from close_only_cases [OF close(1) assms(1)] show ?thesis
      using m assms(2) by (auto simp: same_dbsD sets_dbD closes_def)
  next
    case (append h)
    from post_locked_cases [OF append(2) assms(1)] assms(2) have "same_dbs w w'" by blast
    with m assms(2) show ?thesis by (simp add: same_dbsD)
  qed (simp add: m assms(2))
qed

subsection \<open>Retries\<close>

text \<open>A remembered producer is found unless it has expired.\<close>

lemma map_of_filter_keep:
  "map_of xs k = Some v \<Longrightarrow> P (k, v) \<Longrightarrow> distinct (map fst xs) \<Longrightarrow> map_of (filter P xs) k = Some v"
  by (rule map_of_is_SomeI) (auto simp: distinct_map_filter dest: map_of_SomeD)

lemma get_producer_state_fresh:
  assumes "distinct (map fst (db_producers d))" and "map_of (db_producers d) i = Some st"
    and "before \<le> ps_last_updated st"
  shows "fst (get_producer_state d i before) = Some st"
proof -
  let ?d = "delete_expired_producer d i before"
  let ?old = "filter (\<lambda>(p, st). ps_last_updated st < before) (db_producers ?d)"
  let ?victims = "map fst (take 64 (sort_key (\<lambda>(p, st). (ps_last_updated st, p)) ?old))"
  have 1: "map_of (db_producers ?d) i = Some st" "distinct (map fst (db_producers ?d))"
    using assms by (auto simp: delete_expired_producer_def distinct_map_filter intro!: map_of_filter_keep)
  have "i \<notin> set ?victims"
  proof
    assume "i \<in> set ?victims"
    then obtain st' where "(i, st') \<in> set (db_producers ?d)" "ps_last_updated st' < before"
      by (auto dest!: in_set_takeD)
    with 1 assms(3) show False by (metis map_of_is_SomeI not_less option.inject)
  qed
  then have "map_of (filter (\<lambda>(p, st). p \<notin> set ?victims) (db_producers ?d)) i = Some st"
    using 1 by (intro map_of_filter_keep) auto
  then show ?thesis by (simp add: get_producer_state_def sweep_producers_def Let_def)
qed

lemma map_of_commit_producer_state:
  "map_of (db_producers (commit_producer_state d i st)) i = Some st"
proof -
  have present: "map_of (map (\<lambda>(p, old). (p, if p = i then st else old)) ps) i = Some st"
    if "i \<in> fst ` set ps" for ps :: "(string \<times> producer_state) list"
    using that by (induction ps) auto
  show ?thesis
  proof (cases "i \<in> fst ` set (db_producers d)")
    case False
    then have "map_of (db_producers d) i = None" by (simp add: map_of_eq_None_iff)
    with False show ?thesis by (simp add: commit_producer_state_def map_add_def)
  qed (simp add: commit_producer_state_def present)
qed

lemma finish_append_producers:
  "db_producers (finish_append E tx accepted producer seq cl now)
     = (case accepted of None \<Rightarrow> db_producers tx
        | Some (ph, st) \<Rightarrow> db_producers (commit_producer_state tx (ph_id ph) st))"
  by (auto simp: finish_append_def Let_def touch_def set_closed_def set_last_seq_def update_meta_def
      split: option.split)

text \<open>What an accepted append leaves behind: the stream's row and the producer's.\<close>

lemma append_tx_after:
  assumes "append_tx E p (Some ph) seq payload cl now w = (r, w')" and "wf_db (db_of w p)"
    and "db_meta (db_of w p) = Some m" and "\<not> same_dbs w w'"
  obtains m' where "db_meta (db_of w' p) = Some m'" "content_type m' = content_type m"
    "soft_deleted m' = soft_deleted m" "closed m' = (closed m \<or> cl)"
    "cl \<Longrightarrow> Store.closed_by m' = Some (closed_by_to_json E (closed_by_of ph))"
    "map_of (db_producers (db_of w' p)) (ph_id ph)
       = Some \<lparr>ps_epoch = ph_epoch ph, ps_last_seq = ph_seq ph, ps_last_updated = now\<rparr>"
proof -
  from assms(1) obtain accepted tx1 tx2 off where
    check: "check_producer (Some ph) (db_of w p) m now = (Inr accepted, tx1)"
    and app: "append_message tx1 (current_offset m) payload now = Inr (tx2, off)"
    and post: "sets_db p (finish_append E tx2 accepted (Some ph) seq cl now) w w'"
    using assms(3,4) by (cases rule: append_tx_cases) auto
  have tx1: "wf_log tx1" "db_meta tx1 = Some m"
    using check_producer_frame [OF check] check_producer_wf [OF check assms(2)] assms(3)
    by (simp_all add: wf_db_log)
  from app have tx2: "db_meta tx2 = Some (m\<lparr>current_offset := off\<rparr>)"
    by (auto simp: append_message_wf [OF tx1] result_bind_Inr_iff)
  from check_producer_accepted [OF check] obtain st where st: "accepted = Some (ph, st)"
    "st = \<lparr>ps_epoch = ph_epoch ph, ps_last_seq = ph_seq ph, ps_last_updated = now\<rparr>"
    by (auto split: option.splits dest: validate_accepted(1))
  from finish_append_meta [OF tx2, of E accepted "Some ph" seq cl now] obtain m' where
    "db_meta (finish_append E tx2 accepted (Some ph) seq cl now) = Some m'" "content_type m' = content_type m"
    "soft_deleted m' = soft_deleted m" "closed m' = (closed m \<or> cl)"
    "cl \<Longrightarrow> Store.closed_by m' = Some (closed_by_to_json E (closed_by_of ph))"
    by auto
  with post st show thesis
    by (intro that [of m']) (simp_all add: sets_dbD finish_append_producers map_of_commit_producer_state)
qed

lemma saturating_sub_le: "b - a \<le> c \<Longrightarrow> i64_min \<le> c \<Longrightarrow> saturating_sub_i64 b a \<le> c"
  by (auto simp: saturating_sub_i64_def i64_defs)

lemma closed_by_of_matches:
  assumes "Store.closed_by m = Some (closed_by_to_json E (closed_by_of ph))"
    and "closed_by_from_json E (closed_by_to_json E (closed_by_of ph)) = Some (closed_by_of ph)"
  shows "closed_by_matches E m ph"
  using assms by (simp add: closed_by_matches_def closed_by_of_def)

lemma post_payload_cong: "content_type m' = content_type m \<Longrightarrow> post_payload E m' b = post_payload E m b"
  by (simp add: post_payload_def)

lemma close_success_resp:
  "\<exists>resp. close_success off (Some ph) = Inr resp \<and> status resp = 204
     \<and> headers resp PRODUCER_SEQ = Some (show_int (ph_seq ph))"
  by (simp add: close_success_def response_def from_parts_def hash_map_def producer_headers_of_def header_names)

lemma duplicate_resp:
  "\<exists>resp. producer_failure (Duplicate n) ph m False = Inr resp \<and> status resp = 204
     \<and> headers resp PRODUCER_SEQ = Some (show_int n)"
  by (simp add: producer_failure_def response_def from_parts_def hash_map_def header_names)

lemma append_tx_duplicate:
  assumes "w_faults w = []" and "wf_db (db_of w p)" and "db_meta (db_of w p) = Some m"
    and "map_of (db_producers (db_of w p)) (ph_id ph) = Some st"
    and "ps_epoch st = ph_epoch ph" "ps_last_seq st = ph_seq ph"
    and "saturating_sub_i64 now PRODUCER_STATE_TTL_MS \<le> ps_last_updated st"
  shows "append_tx E p (Some ph) seq payload cl now w = (producer_failure (Duplicate (ph_seq ph)) ph m False, w)"
proof -
  obtain prior tx1 where g: "get_producer_state (db_of w p) (ph_id ph)
      (saturating_sub_i64 now PRODUCER_STATE_TTL_MS) = (prior, tx1)" by fastforce
  with get_producer_state_fresh [OF wf_distinct(3) [OF assms(2)] assms(4,7)] have "prior = Some st" by simp
  with assms(5,6) have "validate_producer prior ph now = Duplicate (ph_seq ph)"
    by (simp add: validate_producer_def)
  with g have "check_producer (Some ph) (db_of w p) m now
      = (Inl (producer_failure (Duplicate (ph_seq ph)) ph m False), tx1)"
    by (simp add: check_producer_def)
  with assms(1,3) show ?thesis
    by (simp add: append_tx_def and_then_def no_fault_run get_meta_tx_def rollback_def ret_def lift_result_def)
qed

lemma append_run_wf:
  assumes "wf_world w" and "append_tx E p (Some ph) seq payload cl now w = (r, w')" and "safe_producer ph"
  shows "wf_world w'"
proof -
  have "keeps wf_world (append_tx E p (Some ph) seq payload cl now)"
    by (rule append_tx_wf) (simp add: assms(3))
  from givesD [OF this assms(1)] assms(2) show ?thesis by (metis snd_conv)
qed


subsection \<open>Acceptance\<close>

lemma append_tx_accepts:
  assumes "w_faults w = []" and "wf_db (db_of w p)" and "db_meta (db_of w p) = Some m"
    and "check_producer producer (db_of w p) m now = (Inr accepted, tx1)"
    and "seq_conflict E (Store.last_seq m) seq = Inr False"
    and "offset_val (current_offset m) + 5 + length payload \<le> u64_max"
  shows "\<exists>w'. append_tx E p producer seq payload cl now w
       = (producer_success (offset_text (offset_val (current_offset m) + 5 + length payload)) producer cl, w')
     \<and> \<not> same_dbs w w'"
proof -
  let ?off = "offset_text (offset_val (current_offset m) + 5 + length payload)"
  have tx1: "wf_log tx1" "db_meta tx1 = Some m" "db_messages tx1 = db_messages (db_of w p)"
    using check_producer_frame [OF assms(4)] check_producer_wf [OF assms(4,2)] assms(3)
    by (simp_all add: wf_db_log)
  have adv: "advance_offset (current_offset m) (length payload) = Inr ?off"
    using advance_stream_offset [OF wf_log_Some(1) [OF tx1(1,2)]] assms(6) by simp
  then obtain tx2 where tx2: "append_message tx1 (current_offset m) payload now = Inr (tx2, ?off)"
    "db_messages tx2 = db_messages (db_of w p) @ [\<lparr>msg_offset = ?off, msg_data = payload, msg_ts = now\<rparr>]"
    using append_message_wf [OF tx1(1,2)] tx1(3) by simp
  obtain w' where w': "append_tx E p producer seq payload cl now w = (producer_success ?off producer cl, w')"
    "sets_db p (finish_append E tx2 accepted producer seq cl now) w w'"
    using assms(1,3,4,5) tx2(1)
    by (auto simp: append_tx_def and_then_def no_fault_run get_meta_tx_def lift_result_def commit_def
        notify_change_def update_actor_def sets_db_def)
  then have "db_messages (db_of w' p) \<noteq> db_messages (db_of w p)"
    by (simp add: sets_dbD tx2(2))
  then have "\<not> same_dbs w w'" by (auto dest: same_dbsD [of _ _ p])
  with w'(1) show ?thesis by blast
qed

text \<open>
  C17. With no fault, a POST is accepted and appends exactly when nothing speaks against it: the
  stream is neither deleted nor closed, the content types agree, the payload is valid, the producer
  is next in line or absent, \<open>Stream-Seq\<close> grows, and the log has room. The answer carries the new
  end of the log.
\<close>

theorem post_accepts:
  assumes "reachable E w" and "live_stream E w p m" and "w_faults w = []"
    and "post_headers_of E req h"
    and "\<not> soft_deleted m" and "\<not> closed m"
    and "normalize_content_type (Some (pr_content_type h)) = normalize_content_type (content_type m)"
    and "post_payload E m (req_body req) = Inr (Inr payload)"
    and "fst (check_producer (pr_producer h) (db_of w p) m (w_clock w)) = Inr accepted"
    and "seq_conflict E (Store.last_seq m) (map_option (b64url_encode E) (pr_seq h)) = Inr False"
    and "offset_val (current_offset m) + 5 + length payload \<le> u64_max"
  shows "\<exists>w' resp off. handle_post E R p req w = (Inr resp, w')
     \<and> off = offset_text (offset_val (current_offset m) + 5 + length payload)
     \<and> db_messages (db_of w' p)
         = db_messages (db_of w p) @ [\<lparr>msg_offset = off, msg_data = payload, msg_ts = w_clock w\<rparr>]
     \<and> status resp = (if pr_producer h = None then 204 else 200)
     \<and> headers resp STREAM_OFFSET = Some off"
proof -
  have m: "db_meta (db_of w p) = Some m" using assms(2) by (simp add: live_stream_def)
  note wf = reachable_wf_db [OF assms(1), of p]
  let ?seq = "map_option (b64url_encode E) (pr_seq h)"
  let ?off = "offset_text (offset_val (current_offset m) + 5 + length payload)"
  obtain tx1 where "check_producer (pr_producer h) (db_of w p) m (w_clock w) = (Inr accepted, tx1)"
    using assms(9) by (metis prod.collapse)
  from append_tx_accepts [OF assms(3) wf m this assms(10,11)] obtain w' where
    run: "append_tx E p (pr_producer h) ?seq payload (pr_close h) (w_clock w) w
        = (producer_success ?off (pr_producer h) (pr_close h), w')" "\<not> same_dbs w w'" by blast
  then have post: "handle_post E R p req w = (producer_success ?off (pr_producer h) (pr_close h), w')"
    using assms by (simp add: handle_post_locked post_locked_def and_then_def now_ms_def
        visible_live [OF assms(2)] lift_result_def)
  from append_tx_log [OF run(1) wf m run(2)] obtain off d' where d': "sets_db p d' w w'"
    "producer_success ?off (pr_producer h) (pr_close h) = producer_success off (pr_producer h) (pr_close h)"
    "db_messages d' = db_messages (db_of w p) @ [\<lparr>msg_offset = off, msg_data = payload, msg_ts = w_clock w\<rparr>]"
    by blast
  have off: "headers resp STREAM_OFFSET = Some x \<and> status resp = (if pr_producer h = None then 204 else 200)"
    if "producer_success x (pr_producer h) (pr_close h) = Inr resp" for x resp
    using that by (auto simp: producer_success_def response_def from_parts_def hash_map_def
        producer_headers_of_def header_names map_add_def split: option.splits if_splits)
  obtain resp where resp: "producer_success ?off (pr_producer h) (pr_close h) = Inr resp"
    using producer_success_headers by blast
  have "off = ?off"
    using off [OF resp] off [OF resp [unfolded d'(2)]] by simp
  with d' off resp post show ?thesis by (auto simp: sets_dbD)
qed

end
