(* ===== verification/Snapshots.thy ===== *)
theory Snapshots
  imports Reading Appending
begin

text \<open>
  From the log to the response: the snapshot a read takes, the offset it tells the client to go on
  from, and when it says that a closed stream has been read to its end.
\<close>

lemma last_is_greatest:
  "strictly_sorted_by k xs \<Longrightarrow> x \<in> set xs \<Longrightarrow> k x \<le> k (last xs)"
proof (induction xs)
  case (Cons y ys)
  show ?case
  proof (cases "ys = []")
    case False
    then have "last ys \<in> set ys" by simp
    with Cons False show ?thesis by (auto simp: less_imp_le)
  qed (use Cons in simp)
qed simp

text \<open>The current offset of a stream bounds its stitched log.\<close>

lemma stitched_le_current:
  assumes "wf_db (db_of w p)" and "regular_chain (Suc n) w p" and "db_meta (db_of w p) = Some m"
    and "x \<in> set (stitched_log (Suc n) w p)"
  shows "msg_offset x \<le> current_offset m"
proof -
  note sorted = own_log_sorted [OF assms(1,2), unfolded sorted_db_def]
  have current: "current_offset m = (if db_messages (db_of w p) = [] then base_offset m
      else msg_offset (last (db_messages (db_of w p))))"
    using wf_db_log [OF assms(1)] assms(3) by (simp add: wf_log_def)
  consider (own) "x \<in> set (db_messages (db_of w p))"
    | (inherited) parent off where "fork_point m = Some (parent, off)" "msg_offset x \<le> off"
    using assms(3,4) by (cases "fork_point m") auto
  then show ?thesis
  proof cases
    case own
    with last_is_greatest [OF sorted own] current show ?thesis by auto
  next
    case inherited
    then have "base_offset m = off" by (auto simp: fork_point_def base_offset_def split: option.splits)
    moreover have "off < msg_offset (last (db_messages (db_of w p)))" if "db_messages (db_of w p) \<noteq> []"
      using own_after_fork [OF assms(1-3) inherited(1)] that by simp
    ultimately show ?thesis using inherited(2) current by (auto dest: order.strict_trans1)
  qed
qed

text \<open>The world after a read has marked the stream as accessed.\<close>

definition accessed :: "world \<Rightarrow> string \<Rightarrow> world" where
  "accessed w p = w\<lparr>w_actors := (w_actors w)(p := (w_actors w p)\<lparr>a_db := touch (db_of w p) (w_clock w)\<rparr>)\<rparr>"

lemma take_snapshot_page:
  assumes wf: "wf_world w" and ok: "w_faults w = []" and chain: "regular_chain (Suc n) w p"
    and live: "live_stream E w p m"
  obtains s where "take_snapshot E k (rpc_at E k quiet n) quiet p off (Some (generation m)) w = (Inr (Some s), accessed w p)"
    "snap_meta s = m" "page_of (asked (norm_after off) None (stitched_log (Suc n) w p)) MAX_READ_ROWS MAX_READ_BYTES
       (snap_batch s)"
proof -
  let ?R = "rpc_at E k quiet n"
  have m: "db_meta (db_of w p) = Some m" using live by (simp add: live_stream_def)
  obtain b where b: "read_stitched k ?R quiet p m off None MAX_READ_ROWS MAX_READ_BYTES w = (Inr b, w)"
    "page_of (asked (norm_after off) None (stitched_log (Suc n) w p)) MAX_READ_ROWS MAX_READ_BYTES b"
    using stitched_page [OF wf ok chain m, of k E off] by blast
  have acquire: "try_acquire msg w = (Inr (), w)" for msg
    using ok by (simp add: try_acquire_def and_then_def next_fault_def ret_def)
  have touch: "touch_access p (w_clock w) w = (Inr (), accessed w p)"
    by (simp add: touch_access_def and_then_def no_fault_run [OF ok] commit_def update_actor_def accessed_def)
  have "take_snapshot E k ?R quiet p off (Some (generation m)) w
      = (Inr (Some \<lparr>snap_meta = m, snap_batch = b\<rparr>), accessed w p)"
    by (simp add: take_snapshot_def and_then_def acquire now_ms_def visible_meta_def visible_live [OF live]
        quiet_run b(1) get_meta_def m touch ret_def)
  then show thesis
    by (rule that) (simp_all add: b(2) del: stitched_log.simps)
qed

text \<open>
  C12. In a world at rest the offset a read answers is where the next read goes on: what lies behind
  it is exactly what the read has not delivered. Nothing is skipped and nothing comes twice.
\<close>

theorem next_offset_continues:
  assumes "reachable E w" and "w_faults w = []" and "regular_chain (Suc n) w p" and "live_stream E w p m"
  shows "\<exists>s w'. take_snapshot E k (rpc_at E k quiet n) quiet p off (Some (generation m)) w = (Inr (Some s), w')
    \<and> map stored (asked (norm_after off) None (stitched_log (Suc n) w p))
        = rb_messages (snap_batch s)
          @ map stored (asked (Some (batch_offset s)) None (stitched_log (Suc n) w p))"
proof -
  note wf = reachable_wf_world [OF assms(1)]
  obtain s where s: "take_snapshot E k (rpc_at E k quiet n) quiet p off (Some (generation m)) w = (Inr (Some s), accessed w p)"
    "snap_meta s = m" "page_of (asked (norm_after off) None (stitched_log (Suc n) w p)) MAX_READ_ROWS MAX_READ_BYTES
       (snap_batch s)"
    by (rule take_snapshot_page [OF wf assms(2-4)])
  let ?log = "stitched_log (Suc n) w p"
  let ?rows = "asked (norm_after off) None ?log"
  obtain j where j: "j \<le> length ?rows" "rb_messages (snap_batch s) = map stored (take j ?rows)"
    "\<not> rb_capped (snap_batch s) \<longrightarrow> j = length ?rows" "rb_capped (snap_batch s) \<longrightarrow> 0 < j"
    using s(3) unfolding page_of_def MAX_READ_ROWS_def by auto
  have "asked (Some (batch_offset s)) None ?log = drop j ?rows"
  proof (cases "j = 0")
    case True
    with j have "?rows = []" "batch_offset s = current_offset m" by (auto simp: batch_offset_def s(2))
    moreover have "asked (Some (current_offset m)) None ?log = []"
      using stitched_le_current [OF _ assms(3)] wf assms(4)
      by (auto simp: asked_def filter_empty_conv not_less wf_world_def live_stream_def)
    ultimately show ?thesis by simp
  next
    case False
    then have j0: "0 < j" by simp
    then have "batch_offset s = msg_offset (?rows ! (j - 1))"
      using last_page_row [OF j0 j(1)] j(1,2) by (auto simp: batch_offset_def)
    moreover have "strictly_sorted_by msg_offset ?rows"
      unfolding asked_def by (rule strictly_sorted_by_filter [OF stitched_log_sorted [OF wf assms(3)]])
    from asked_after_take [OF this refl j0 j(1)]
    have "asked (Some (msg_offset (?rows ! (j - 1)))) None ?log = drop j ?rows" .
    ultimately show ?thesis by simp
  qed
  with s(1) j(2) show ?thesis
    by (intro exI [of _ s] exI [of _ "accessed w p"]) (simp add: map_append [symmetric] del: map_append)
qed

subsection \<open>The end of a closed stream\<close>

lemma from_parts_headers: "from_parts st hs b = Inr resp \<Longrightarrow> headers resp = hs"
  by (auto simp: from_parts_def)

lemma build_read_response_closed:
  assumes "build_read_response E now rnd aid req off live cursor s = Inr resp"
    and "headers resp STREAM_CLOSED \<noteq> None"
  shows "snap_closed s"
proof (rule ccontr)
  assume no: "\<not> snap_closed s"
  have "(if b then h(STREAM_UP_TO_DATE \<mapsto> u) else h)(STREAM_CLOSED := None) = f \<Longrightarrow> f STREAM_CLOSED = None"
    for b u and f h :: "string \<rightharpoonup> string" by auto
  from assms no show False
    by (auto simp: build_read_response_def Let_def result_bind_Inr_iff response_def hash_map_def header_names
        split: if_splits dest!: from_parts_headers)
qed

text \<open>
  C19. A response that says the stream is closed is the last one needed: in a world at rest it is
  sent only for a closed stream, and with it the reader has every message after its offset.
\<close>

theorem closed_response_is_complete:
  assumes "reachable E w" and "w_faults w = []" and "regular_chain (Suc n) w p" and "live_stream E w p m"
    and "take_snapshot E k (rpc_at E k quiet n) quiet p off (Some (generation m)) w = (Inr (Some s), w')"
    and "build_read_response E now rnd aid req from_off live cursor s = Inr resp"
    and "headers resp STREAM_CLOSED \<noteq> None"
  shows "closed m \<and> rb_messages (snap_batch s) = map stored (asked (norm_after off) None (stitched_log (Suc n) w p))"
proof -
  note closed = build_read_response_closed [OF assms(6,7)]
  obtain s' where "take_snapshot E k (rpc_at E k quiet n) quiet p off (Some (generation m)) w = (Inr (Some s'), accessed w p)"
    "snap_meta s' = m" "page_of (asked (norm_after off) None (stitched_log (Suc n) w p)) MAX_READ_ROWS MAX_READ_BYTES
       (snap_batch s')"
    by (rule take_snapshot_page [OF reachable_wf_world [OF assms(1)] assms(2-4)])
  with assms(5) closed show ?thesis by (auto simp: page_of_def snap_closed_def)
qed

end
