(* ===== verification/Creating.thy ===== *)
theory Creating
  imports Appending
begin

text \<open>
  What PUT does: it creates a stream once; repeating it finds the stream and changes nothing.
\<close>

lemma early_Inr [simp]: "early st msg \<noteq> Inr (Inr x)" "early st msg \<noteq> Inl e"
  by (auto simp: early_def result_bind_Inr_iff text_response_def from_parts_def)

lemma put_checks_not_fork:
  assumes "put_checks E req = Inr (Inr po)" and "po_forked_from po = None"
  shows "po_fork_offset po = None" "po_fork_sub_offset po = None" "\<exists>ct. po_content_type po = Some ct"
    "length (req_body req) \<le> MAX_BODY_BYTES"
  using assms
  by (auto simp: put_checks_def result_bind_Inr_iff sanitize_content_type_def split: if_splits option.splits sum.splits)

lemma text_response_status: "text_response st msg hs = Inr resp \<Longrightarrow> status resp = st"
  by (auto simp: text_response_def from_parts_def)

lemma response_status: "response st hs b = Inr resp \<Longrightarrow> status resp = st"
  by (auto simp: response_def from_parts_def)

lemma response_headers: "response st hs b = Inr resp \<Longrightarrow> headers resp = hash_map hs"
  by (auto simp: response_def from_parts_def)

lemma early_status: "early st msg = Inr (Inl resp) \<Longrightarrow> status resp = st"
  by (auto simp: early_def result_bind_Inr_iff dest: text_response_status)

lemma put_payload_status: "put_payload E ct body = Inr (Inl resp) \<Longrightarrow> status resp \<in> {400, 413}"
  by (auto simp: put_payload_def split: if_splits sum.splits dest: early_status)

text \<open>The stream that a successful creation leaves.\<close>

definition created_meta :: "put_options \<Rightarrow> string \<Rightarrow> string \<Rightarrow> string \<Rightarrow> int \<Rightarrow> meta" where
  "created_meta po gen ct off now =
     \<lparr>generation = gen, content_type = Some ct, ttl_seconds = po_ttl_seconds po,
      expires_at = po_expires_at po, closed = po_closed po, closed_by = None, current_offset = off,
      last_seq = None, created_at = now, last_accessed_at = now, forked_from = None, fork_offset = None,
      fork_sub_offset = None, fork_edge_id = None, fork_source_gen = None, soft_deleted = False\<rparr>"

lemma create_meta_plain:
  assumes "db_meta tx = None"
  shows "create_meta tx g (Some ct) (po_ttl_seconds po) (po_expires_at po) (po_closed po) now None None None None None
    = Inr (tx\<lparr>db_meta := Some (created_meta po g ct ZERO_OFFSET now)\<rparr>)"
  using assms by (simp add: create_meta_def created_meta_def)

lemma create_statements_eq:
  assumes "wf_db tx" and "db_meta tx = None" and "create_statements tx g po ct b now = Inr (d, off)"
  shows "db_meta d = Some (created_meta po g ct off now)"
    and "db_messages d = (if b = [] then [] else [\<lparr>msg_offset = off, msg_data = b, msg_ts = now\<rparr>])"
    and "off = (if b = [] then ZERO_OFFSET else offset_text (5 + length b))"
proof -
  let ?m = "created_meta po g ct ZERO_OFFSET now"
  let ?d1 = "tx\<lparr>db_meta := Some ?m\<rparr>"
  have d1: "wf_db ?d1"
    using wf_db_create_meta(1) [OF assms(1) _ create_meta_plain [OF assms(2)]] by simp
  have empty: "db_messages tx = []"
    using wf_db_log [OF assms(1)] assms(2) by (simp add: wf_log_def)
  have meta: "db_meta ?d1 = Some ?m" "current_offset ?m = ZERO_OFFSET"
    by (simp_all add: created_meta_def)
  note app = append_message_wf [OF wf_db_log [OF d1] meta(1), of b now, unfolded meta(2)]
  have upd: "?m\<lparr>current_offset := off\<rparr> = created_meta po g ct off now"
    by (simp add: created_meta_def)
  from assms(3) have "(if b = [] then Inr (?d1, ZERO_OFFSET) else append_message ?d1 ZERO_OFFSET b now) = Inr (d, off)"
    by (simp add: create_statements_def create_meta_plain [OF assms(2)])
  with empty advance_stream_offset_InrD(1) [of ZERO_OFFSET "length b" off]
  show "db_meta d = Some (created_meta po g ct off now)"
    and "db_messages d = (if b = [] then [] else [\<lparr>msg_offset = off, msg_data = b, msg_ts = now\<rparr>])"
    and "off = (if b = [] then ZERO_OFFSET else offset_text (5 + length b))"
    by (auto simp: app upd result_bind_Inr_iff split: if_splits)
qed

lemma schedule_expiry_dbs: "db_of (snd (schedule_expiry E p m w)) q = db_of w q"
  by (simp add: schedule_expiry_def schedule_dbs ret_def split: option.split)

text \<open>Actions that leave every database alone.\<close>

definition no_write :: "'a act \<Rightarrow> bool" where
  "no_write m \<longleftrightarrow> (\<forall>w. same_dbs w (snd (m w)))"

lemma no_write_then:
  assumes "no_write m" and "\<And>x. no_write (f x)"
  shows "no_write (and_then m f)"
  unfolding no_write_def
proof
  fix w
  obtain r w1 where m: "m w = (r, w1)" by (cases "m w")
  with assms(1) have "same_dbs w w1" by (auto simp: no_write_def dest: spec [of _ w])
  moreover have "same_dbs w1 (snd (f x w1))" for x using assms(2) by (simp add: no_write_def)
  ultimately show "same_dbs w (snd (and_then m f w))"
    by (cases r) (simp_all add: m and_then_def same_dbs_def)
qed

lemma no_write_basic:
  "no_write (ret x)" "no_write (lift_result r)" "no_write (throw e)" "no_write (notify_change p)"
  "no_write (get_meta p)" "no_write (schedule_expiry E p m)"
  by (simp_all add: no_write_def same_dbs_def schedule_expiry_dbs act_simps notify_change_def update_actor_def)

lemma announce_run:
  assumes "announce E p r w = (Inr resp, w')"
  shows "r = Inr resp" and "same_dbs w w'"
proof -
  have "no_write (announce E p r)"
    unfolding announce_def by (auto intro!: no_write_then no_write_basic split: option.split)
  with assms show "same_dbs w w'" by (metis no_write_def snd_conv)
  from assms show "r = Inr resp"
    by (auto simp: announce_def and_then_def lift_result_def split: prod.splits sum.splits)
qed

lemma create_stream_created:
  assumes "create_stream E p po ct b now w = (Inr resp, w')" and "status resp = 201" and "wf_db (db_of w p)"
  obtains gen off where "db_meta (db_of w' p) = Some (created_meta po gen ct off now)"
    "db_messages (db_of w' p) = (if b = [] then [] else [\<lparr>msg_offset = off, msg_data = b, msg_ts = now\<rparr>])"
    "off = (if b = [] then ZERO_OFFSET else offset_text (5 + length b))"
    "headers resp STREAM_OFFSET = Some off" "\<And>q. q \<noteq> p \<Longrightarrow> db_of w' q = db_of w q"
proof -
  note run = assms(1) [unfolded create_stream_def and_then_def begin_mutation_cases get_meta_tx_def]
  have ok: "fst (next_fault w) = Inr Ok" and none: "db_meta (db_of w p) = None"
    using run assms(2) by (auto simp: rollback_def ret_def lift_result_def split: if_splits
        dest: text_response_status)
  let ?g = "new_v4 E (w_uuids w)"
  obtain d off where d: "create_statements (db_of w p) ?g po ct b now = Inr (d, off)"
    using run by (cases "create_statements (db_of w p) ?g po ct b now")
      (auto simp: ok none new_uuid_def lift_result_def)
  let ?r = "response 201 ([(''content-type'', ct), (STREAM_OFFSET, off), (''location'', p)]
              @ (if po_closed po then [(STREAM_CLOSED, ''true'')] else [])) []"
  obtain w1 where w1: "announce E p ?r w1 = (Inr resp, w')" "sets_db p d w w1"
    using run by (auto simp: ok none new_uuid_def lift_result_def d commit_def update_actor_def sets_db_def
        split: prod.splits)
  have "headers resp STREAM_OFFSET = Some off"
    using response_headers [OF announce_run(1) [OF w1(1)]]
    by (cases "po_closed po") (simp_all add: hash_map_def header_names)
  moreover have "db_of w' q = (if q = p then d else db_of w q)" for q
    using announce_run(2) [OF w1(1)] w1(2) by (simp add: same_dbs_def sets_db_def)
  ultimately show thesis
    using create_statements_eq [OF assms(3) none d] by (intro that) auto
qed

lemma put_matches_created:
  assumes "put_checks E req = Inr (Inr po)" and "po_forked_from po = None"
    and "po_content_type po = Some ct"
  shows "put_matches po (created_meta po gen ct off now)"
  using put_checks_not_fork [OF assms(1,2)] assms(2,3)
  by (simp add: put_matches_def created_meta_def)

lemma visible_absent:
  "db_meta (db_of w p) = None \<Longrightarrow> visible_meta_while_locked E R p now w = (Inr None, w)"
  by (simp add: visible_meta_while_locked_def and_then_def get_meta_def ret_def)

lemma handle_put_new:
  assumes "put_checks E req = Inr (Inr po)" and "po_forked_from po = None" and "db_meta (db_of w p) = None"
    and "po_content_type po = Some ct" and "handle_put E R p req w = (Inr resp, w')" and "status resp = 201"
  obtains payload where "put_payload E ct (req_body req) = Inr (Inr payload)"
    "create_stream E p po ct payload (w_clock w) w = (Inr resp, w')"
proof -
  have run: "put_new E p po (req_body req) (w_clock w) w = (Inr resp, w')"
    using assms by (simp add: handle_put_def and_then_def now_ms_def visible_absent lift_result_def)
  obtain pl where pl: "put_payload E ct (req_body req) = Inr pl"
    using run assms(4) by (cases "put_payload E ct (req_body req)") (auto simp: put_new_def throw_def)
  obtain payload where "pl = Inr payload"
  proof (cases pl)
    case (Inl r)
    with pl run assms(4,6) put_payload_status [of E ct "req_body req" r] show thesis
      by (auto simp: put_new_def ret_def)
  qed (use that in simp)
  with pl run assms(4) that show thesis by (simp add: put_new_def)
qed



text \<open>
  C22. A fork that inherits its source's lifetime is not recognised by the PUT that created it: with
  no lifetime in the request and one on the stream, a repeated PUT is refused with 409.
\<close>

theorem put_inherited_lifetime_conflicts:
  assumes "live_stream E w p m" and "put_checks E req = Inr (Inr po)"
    and "po_ttl_seconds po = None" and "po_expires_at po = None"
    and "ttl_seconds m \<noteq> None \<or> expires_at m \<noteq> None"
  shows "\<exists>resp. handle_put E R p req w = (Inr resp, w) \<and> status resp = 409"
proof -
  have "\<not> put_matches po m" using assms(3-5) by (auto simp: put_matches_def)
  then show ?thesis
    by (simp add: handle_put_def assms(2) and_then_def now_ms_def visible_live [OF assms(1)]
        put_existing_def lift_result_def text_response_def from_parts_def)
qed

end
