(* ===== verification/Retention.thy ===== *)
theory Retention
  imports Appending
begin

text \<open>
  How long a stream lives: expiry, deletion, and the edges that keep a source alive for its forks.
\<close>

subsection \<open>Expiry\<close>


text \<open>
  A lifetime and an absolute expiry both bind: the stream expires at the earlier of the two,
  and an unreadable timestamp expires it at once. Numbers saturate, so no lifetime wraps around.
\<close>

theorem expiry_is_the_earlier:
  assumes "i64_min \<le> now"
  shows "is_expired E m now \<longleftrightarrow>
     (\<exists>t. expires_at m = Some t
        \<and> (case parse_from_rfc3339 E t of None \<Rightarrow> True | Some ms \<Rightarrow> ms \<le> now))
     \<or> (\<exists>s. ttl_seconds m = Some s
        \<and> clamp_i64 (last_accessed_at m + clamp_i64 (s * 1000)) \<le> now)"
  using assms
  by (cases "expires_at m"; cases "ttl_seconds m")
    (auto simp: is_expired_def expiry_time_def saturating_add_i64_def saturating_mul_i64_def Let_def
      split: option.splits)

subsection \<open>Deletion\<close>

lemma set_soft_deleted_frame [simp]:
  "db_messages (set_soft_deleted d) = db_messages d" "db_fork_edges (set_soft_deleted d) = db_fork_edges d"
  "db_meta (set_soft_deleted d) = map_option (\<lambda>m. m\<lparr>soft_deleted := True\<rparr>) (db_meta d)"
  by (simp_all add: set_soft_deleted_def update_meta_def)

lemma purge_stream_tx_frame [simp]:
  "db_meta (purge_stream_tx d m) = None" "db_messages (purge_stream_tx d m) = []"
  "db_fork_edges (purge_stream_tx d m) = []" "db_producers (purge_stream_tx d m) = []"
  by (simp_all add: purge_stream_tx_def purge_def enqueue_gc_release_def split: option.split)

lemma schedule_maintenance_cases:
  obtains r w1 where "schedule_maintenance_after p n w = (r, w1)" "same_dbs w w1"
  by (cases "schedule_maintenance_after p n w")
    (metis same_dbs_def schedule_dbs schedule_maintenance_after_def snd_conv)

text \<open>
  C23. A DELETE of a stream with forks keeps what the forks read: whatever fails, afterwards the
  messages and the edges are those from before, and the stream is at most marked deleted.
\<close>

theorem delete_keeps_forked_stream:
  assumes "live_stream E w p m" and "db_fork_edges (db_of w p) \<noteq> []"
    and "handle_delete E R p w = (r, w')"
  shows "db_messages (db_of w' p) = db_messages (db_of w p)
    \<and> db_fork_edges (db_of w' p) = db_fork_edges (db_of w p)
    \<and> (db_meta (db_of w' p) = Some m \<or> db_meta (db_of w' p) = Some (m\<lparr>soft_deleted := True\<rparr>))"
proof -
  have m: "db_meta (db_of w p) = Some m" using assms(1) by (simp add: live_stream_def)
  note run = assms(3) [unfolded handle_delete_def and_then_def now_ms_def visible_live [OF assms(1)]]
  show ?thesis
  proof (cases "soft_deleted m")
    case True
    with run m show ?thesis by (simp add: and_then_def visible_live [OF assms(1)] lift_result_def)
  next
    case False
    obtain x w1 where s: "schedule_maintenance_after p MAINTENANCE_RETRY_MS w = (x, w1)" "same_dbs w w1"
      by (rule schedule_maintenance_cases)
    then have d: "db_of w1 p = db_of w p" by (simp add: same_dbs_def)
    have edges: "0 < fork_edge_count (db_of w p)" using assms(2) by (simp add: fork_edge_count_def)
    show ?thesis
      using run False s(1) m edges d
      by (cases x) (auto simp: visible_live [OF assms(1)] and_then_def begin_mutation_cases
          commit_def notify_change_def update_actor_def lift_result_def ret_def Let_def split: if_splits)
  qed
qed

subsection \<open>Edges\<close>

text \<open>
  Acquiring is idempotent: an edge that is recorded is answered with the offset recorded
  first, whatever the later request asks for and however the stream has grown, and nothing changes.
\<close>

lemma acquire_recorded_edge:
  assumes "w_faults w = []" and "db_meta (db_of w q) = Some m" and "fa_edge_id a \<noteq> []"
    and "get_fork_edge_tx (db_of w q) (fa_edge_id a) = Some off"
  shows "fst (fork_acquire E R q a w) = Inr (far_success off m)
    \<and> (\<forall>s. db_of (snd (fork_acquire E R q a w)) s = db_of w s)"
  using assms
  by (simp add: fork_acquire_def and_then_def no_fault_run get_meta_tx_def commit_def update_actor_def ret_def)

lemma edge_table_insert_eq:
  "insert_fork_edge d e off = Inr (d', recorded) \<Longrightarrow> d' = edge_table_insert d e off \<and> get_fork_edge_tx d' e = Some recorded"
  by (auto simp: edge_table_insert_def insert_fork_edge_Inr get_fork_edge_tx_def map_add_def split: option.splits)

text \<open>
  C25. A fresh acquisition that succeeds has recorded its edge, at the offset it answers, and this
  offset lies in the stream: from then on \<open>acquire_recorded_edge\<close> applies. The stream's row, its
  messages and its other edges stay as they were.
\<close>

theorem acquire_records_edge:
  assumes "live_stream E w q m" and "fork_acquire E R q a w = (Inr res, w')" and "far_ok res"
    and "get_fork_edge_tx (db_of w q) (fa_edge_id a) = None"
  shows "\<exists>off. far_fork_offset res = Some off \<and> get_fork_edge_tx (db_of w' q) (fa_edge_id a) = Some off
    \<and> is_concrete_offset off \<and> ZERO_OFFSET \<le> off \<and> off \<le> current_offset m
    \<and> db_meta (db_of w' q) = Some m \<and> db_messages (db_of w' q) = db_messages (db_of w q)
    \<and> (\<forall>e. e \<noteq> fa_edge_id a \<longrightarrow> get_fork_edge_tx (db_of w' q) e = get_fork_edge_tx (db_of w q) e)"
proof -
  let ?w = "w\<lparr>w_faults := drop 1 (w_faults w)\<rparr>"
  have live: "live_stream E ?w q m" and m: "db_meta (db_of w q) = Some m"
    using assms(1) by (simp_all add: live_stream_def)
  have "acquire_fresh E R q a ?w = (Inr res, w')"
    using assms(2,4) by (auto simp: fork_acquire_def and_then_def begin_mutation_cases rollback_def ret_def
        throw_def split: if_splits)
  note run = this [unfolded acquire_fresh_def and_then_def now_ms_def, simplified,
      unfolded visible_live [OF live, simplified], simplified]
  define off where "off = (case fa_fork_offset a of Some f \<Rightarrow> f | None \<Rightarrow> current_offset m)"
  from run assms(3) have ok: "is_concrete_offset off" "\<not> off < ZERO_OFFSET" "\<not> current_offset m < off"
    by (auto simp: ret_def far_failure_def Let_def off_def split: if_splits option.splits)
  have "\<exists>d' recorded. insert_fork_edge (db_of w q) (fa_edge_id a) off = Inr (d', recorded)
      \<and> res = far_success recorded m \<and> db_of w' q = d'"
    using run assms(3) ok
    by (auto simp: ret_def far_failure_def Let_def off_def [symmetric] begin_mutation_cases lift_result_def commit_def update_actor_def
        split: if_splits sum.splits prod.splits)
  then obtain d' recorded where d': "insert_fork_edge (db_of w q) (fa_edge_id a) off = Inr (d', recorded)"
    "res = far_success recorded m" "db_of w' q = d'" by blast
  have "d' = (db_of w q)\<lparr>db_fork_edges := db_fork_edges (db_of w q) @ [(fa_edge_id a, off)]\<rparr>" "recorded = off"
    using d'(1) assms(4) by (auto simp: insert_fork_edge_Inr)
  moreover have "get_fork_edge_tx d' e = (if e = fa_edge_id a then Some off else get_fork_edge_tx (db_of w q) e)" for e
    using edge_table.lookup_insert [of "db_of w q" "fa_edge_id a" off e] edge_table_insert_eq [OF d'(1)] assms(4)
    by simp
  ultimately show ?thesis
    using ok d'(2,3) m by (simp add: far_success_def not_less)
qed

lemma delete_fork_edge_frame [simp]:
  "db_meta (delete_fork_edge d e) = db_meta d" "db_messages (delete_fork_edge d e) = db_messages d"
  "db_fork_edges (delete_fork_edge d e) = filter (\<lambda>(e', _). e' \<noteq> e) (db_fork_edges d)"
  by (simp_all add: delete_fork_edge_def)

text \<open>
  Releasing an edge takes nothing from a stream that is not deleted, or that other forks still
  hold: whatever fails, its row and its messages stay, and so do the edges of the others.
\<close>

theorem release_keeps_held_stream:
  assumes "db_meta (db_of w q) = Some m"
    and "soft_deleted m \<longrightarrow> (\<exists>e off. (e, off) \<in> set (db_fork_edges (db_of w q)) \<and> e \<noteq> fr_edge_id a)"
    and "fork_release R q a w = (r, w')"
  shows "db_meta (db_of w' q) = Some m \<and> db_messages (db_of w' q) = db_messages (db_of w q)
    \<and> (\<forall>e. e \<noteq> fr_edge_id a \<longrightarrow> get_fork_edge_tx (db_of w' q) e = get_fork_edge_tx (db_of w q) e)"
proof -
  have held: "soft_deleted m \<Longrightarrow> fork_edge_count (delete_fork_edge (db_of w q) (fr_edge_id a)) \<noteq> 0"
    using assms(2) by (auto simp: fork_edge_count_def filter_empty_conv)
  let ?sched = "if soft_deleted m then schedule_maintenance_after q MAINTENANCE_RETRY_MS else ret ()"
  obtain x w1 where s: "?sched w = (x, w1)" "same_dbs w w1"
    by (cases "soft_deleted m") (auto simp: ret_def intro: schedule_maintenance_cases)
  then have d: "db_of w1 q = db_of w q" by (simp add: same_dbs_def)
  define d' where "d' = delete_fork_edge (db_of w q) (fr_edge_id a)"
  have "db_of w' q = db_of w q \<or> db_of w' q = d'"
    using assms(3) held s(1) d assms(1)
    by (cases x) (auto simp: fork_release_def and_then_def get_meta_def ret_def throw_def begin_mutation_cases
        rollback_def Let_def commit_def notify_change_def update_actor_def d'_def
        split: if_splits option.splits)
  then show ?thesis
    using assms(1) edge_table.lookup_remove [of "db_of w q" "fr_edge_id a"] by (auto simp: d'_def)
qed

subsection \<open>Giving edges back\<close>

text \<open>A fault-free step that writes the database of one stream.\<close>

definition writes :: "string \<Rightarrow> db \<Rightarrow> world \<Rightarrow> world \<Rightarrow> bool" where
  "writes q d w w' \<longleftrightarrow> w_faults w' = [] \<and> w_clock w' = w_clock w \<and> (\<forall>s. db_of w' s = (if s = q then d else db_of w s))"

lemma calm_steps:
  assumes "w_faults w = []"
  shows "begin_mutation p w = (Inr (db_of w p), w)" "\<exists>w'. schedule_maintenance_after p n w = (Inr (), w') \<and> writes p (db_of w p) w w'"
    "\<exists>w'. commit p d w = (Inr (), w') \<and> writes p d w w'" "\<exists>w'. notify_change p w = (Inr (), w') \<and> writes p (db_of w p) w w'"
  using assms
  by (simp_all add: no_fault_run schedule_maintenance_after_def update_actor_def commit_def notify_change_def writes_def)

lemma writes_trans: "writes p d w w1 \<Longrightarrow> writes p d' w1 w' \<Longrightarrow> writes p d' w w'"
  by (auto simp: writes_def)

lemma release_run:
  assumes ok: "w_faults w = []" and mq: "db_meta (db_of w q) = Some mq" and root: "forked_from mq = None"
    and idle: "db_gc_releases (db_of w q) = []" and e: "e \<noteq> []" "get_fork_edge_tx (db_of w q) e \<noteq> None"
  shows "\<exists>w'. fork_release R q \<lparr>fr_edge_id = e, fr_source_generation = Some (generation mq)\<rparr> w = (Inr (), w')
    \<and> writes q (if soft_deleted mq \<and> fork_edge_count (delete_fork_edge (db_of w q) e) = 0
         then purge (delete_fork_edge (db_of w q) e) else delete_fork_edge (db_of w q) e) w w'"
proof -
  obtain edge where edge: "get_fork_edge_tx (db_of w q) e = Some edge" using e(2) by blast
  let ?d = "if soft_deleted mq \<and> fork_edge_count (delete_fork_edge (db_of w q) e) = 0
         then purge (delete_fork_edge (db_of w q) e) else delete_fork_edge (db_of w q) e"
  have tx: "(if soft_deleted mq \<and> fork_edge_count (delete_fork_edge (db_of w q) e) = 0
      then purge_stream_tx (delete_fork_edge (db_of w q) e) mq else delete_fork_edge (db_of w q) e) = ?d"
    using root by (simp add: purge_stream_tx_def)
  obtain w1 where w1: "(if soft_deleted mq then schedule_maintenance_after q MAINTENANCE_RETRY_MS else ret ()) w = (Inr (), w1)"
    "writes q (db_of w q) w w1"
    using calm_steps(2) [OF ok, of q MAINTENANCE_RETRY_MS] ok by (cases "soft_deleted mq") (auto simp: ret_def writes_def)
  then have ok1: "w_faults w1 = []" and d1: "db_of w1 q = db_of w q" by (simp_all add: writes_def)
  obtain w2 where w2: "commit q ?d w1 = (Inr (), w2)" "writes q ?d w1 w2" using calm_steps(3) [OF ok1] by blast
  then have ok2: "w_faults w2 = []" and d2: "db_of w2 q = ?d" by (simp_all add: writes_def)
  obtain w3 where w3: "notify_change q w2 = (Inr (), w3)" "writes q (db_of w2 q) w2 w3" using calm_steps(4) [OF ok2] by blast
  have d3: "db_gc_releases (db_of w3 q) = []" using w3(2) d2 idle by (simp add: writes_def purge_def delete_fork_edge_def)
  have "fork_release R q \<lparr>fr_edge_id = e, fr_source_generation = Some (generation mq)\<rparr> w
      = (if soft_deleted mq \<and> fork_edge_count (delete_fork_edge (db_of w q) e) = 0 then flush_gc_releases R q else ret ()) w3"
    using e(1) edge mq w1(1) w2(1) [folded tx] w3(1) calm_steps(1) [OF ok1, of q]
    by (simp add: fork_release_def and_then_def get_meta_def Let_def d1 split del: if_split)
  also have "\<dots> = (Inr (), w3)"
    using d3 by (simp add: flush_gc_releases_def and_then_def get_db_def pending_gc_releases_def ret_def Let_def)
  finally show ?thesis
    using w1(2) w2(2) w3(2) d2 by (intro exI [of _ w3]) (auto simp: writes_def)
qed


end
