(* ===== verification/Samples.thy ===== *)
theory Samples
  imports Appending Creating Reading
begin

text \<open>
  A concrete instance of the third-party calls, for the witnesses: base64 and JSON texts of the
  bookkeeping rows are the identity or a tagged concatenation, JSON documents are comma-separated
  lists of single characters in brackets, and UUIDs are numbers. Every hypothesis the properties
  make about such a call holds of it.
\<close>

fun json_items :: "string \<Rightarrow> unit json list" where
  "json_items [] = []"
| "json_items (c # s) = (if c = CHR ''x'' then JOther () # json_items s else json_items s)"

definition sample_ext :: "unit ext" where
  "sample_ext = \<lparr>
     json_from_slice = (\<lambda>b. if b = [] then None else if hd b = CHR ''['' then Some (JArray (json_items b))
                            else Some (JOther ())),
     json_to_writer = (\<lambda>_. ''x''),
     closed_by_to_json = (\<lambda>c. show_int (cb_epoch c) @ '','' @ show_int (cb_seq c) @ '','' @ cb_producer_id c),
     closed_by_from_json = (\<lambda>s. case split_once (CHR '','') s of
        None \<Rightarrow> None
      | Some (e, rest) \<Rightarrow> (case split_once (CHR '','') rest of
          None \<Rightarrow> None
        | Some (q, i) \<Rightarrow> (case (parse_i64 e, parse_i64 q) of
            (Some e', Some q') \<Rightarrow> Some \<lparr>cb_producer_id = i, cb_epoch = e', cb_seq = q'\<rparr>
          | _ \<Rightarrow> None))),
     params_to_json = (\<lambda>(parent, off). parent @ [LF] @ (case off of None \<Rightarrow> [] | Some o' \<Rightarrow> o')),
     params_from_json = (\<lambda>s. case split_once LF s of None \<Rightarrow> None
        | Some (parent, off) \<Rightarrow> Some (parent, if off = [] then None else Some off)),
     control_to_json = (\<lambda>c. case c of StreamEnd o' \<Rightarrow> ''end '' @ o' | StreamNext o' cur up \<Rightarrow> ''next '' @ o'),
     b64url_encode = (\<lambda>b. b), b64url_decode = Some, b64_encode = (\<lambda>b. b),
     parse_from_rfc3339 = parse_i64,
     form_urlencoded_parse = (\<lambda>q. map (\<lambda>kv. case split_once (CHR ''='') kv of None \<Rightarrow> (kv, []) | Some kv' \<Rightarrow> kv')
       (split_char (CHR ''&'') q)),
     new_v4 = show_nat\<rparr>"

definition sample_request :: "http_method \<Rightarrow> (string \<times> string) list \<Rightarrow> bytes \<Rightarrow> request" where
  "sample_request m hs b = \<lparr>req_method = m, req_query = None, req_headers = hs, req_body = b\<rparr>"

text \<open>Serving one request on a world, with calls answered to depth two.\<close>

definition sample_wait :: long_poll where
  "sample_wait = \<lparr>lp_meanwhile = ret (), lp_aborted = False, lp_timer_first = False\<rparr>"

definition serving :: "string \<Rightarrow> request \<Rightarrow> unit act" where
  "serving p req = and_then (attempt (on_fetch_response sample_ext 1 (rpc_at sample_ext 1 quiet 2) quiet
     sample_wait quiet [] 0 ''actor'' p req)) (\<lambda>_. ret ())"

definition serve :: "string \<Rightarrow> request \<Rightarrow> world \<Rightarrow> world" where
  "serve p req w = snd (serving p req w)"

lemma serving_activity: "activity sample_ext (serving p req)"
  unfolding serving_def
  by (intro activity.serve activity.idle) (simp_all add: sample_wait_def activity.idle turns_in_def)

lemma reachable_serve: "reachable sample_ext w \<Longrightarrow> reachable sample_ext (serve p req w)"
  unfolding serve_def by (rule reachable_then [OF _ serving_activity])

definition text_put :: request where
  "text_put = sample_request PUT [(''content-type'', ''text/plain'')] []"

definition text_post :: "string \<Rightarrow> request" where
  "text_post b = sample_request POST [(''content-type'', ''text/plain'')] b"

definition producer_post :: "string \<Rightarrow> string \<Rightarrow> string \<Rightarrow> request" where
  "producer_post e q b = sample_request POST [(''content-type'', ''text/plain''), (PRODUCER_ID, ''p''),
     (PRODUCER_EPOCH, e), (PRODUCER_SEQ, q)] b"

definition fork_put :: "string \<Rightarrow> request" where
  "fork_put parent = sample_request PUT [(STREAM_FORKED_FROM, parent)] []"

definition w0 :: world where "w0 = initial_world 1000"
definition w1 :: world where "w1 = serve ''/a'' text_put w0"
definition w2 :: world where "w2 = serve ''/a'' (producer_post ''0'' ''0'' ''hello'') w1"
definition w3 :: world where "w3 = serve ''/b'' (fork_put ''/a'') w2"
lemma samples_reachable:
  "reachable sample_ext w0" "reachable sample_ext w1" "reachable sample_ext w2" "reachable sample_ext w3"
  by (simp_all add: w0_def w1_def w2_def w3_def reachable_initial reachable_serve)

definition closed_put :: request where
  "closed_put = sample_request PUT [(''content-type'', ''text/plain''), (STREAM_CLOSED, ''true'')] ''bye''"

definition ttl_put :: request where
  "ttl_put = sample_request PUT [(''content-type'', ''text/plain''), (STREAM_TTL, ''60'')] []"

definition w_closed :: world where "w_closed = serve ''/c'' closed_put w0"
definition w_ttl :: world where "w_ttl = serve ''/t'' ttl_put w0"

lemma closed_ttl_reachable: "reachable sample_ext w_closed" "reachable sample_ext w_ttl"
  by (simp_all add: w_closed_def w_ttl_def samples_reachable reachable_serve)

abbreviation meta_of :: "world \<Rightarrow> string \<Rightarrow> meta" where
  "meta_of w p \<equiv> the (db_meta (db_of w p))"

definition R1 :: rpc where "R1 = rpc_at sample_ext 1 quiet 1"

subsection \<open>The sample worlds, evaluated\<close>

lemma w0_facts: "db_meta (db_of w0 p) = None" "w_faults w0 = []"
  by (simp_all add: w0_def initial_world_def empty_actor_def empty_db_def)

lemma w1_live: "live_stream sample_ext w1 ''/a'' (meta_of w1 ''/a'')" by code_simp
lemma w1_faults: "w_faults w1 = []" by code_simp

lemma w2_live: "live_stream sample_ext w2 ''/a'' (meta_of w2 ''/a'')" by code_simp

lemma w_closed_facts:
  "live_stream sample_ext w_closed ''/c'' (meta_of w_closed ''/c'') \<and> closed (meta_of w_closed ''/c'')
     \<and> w_faults w_closed = [] \<and> regular_chain 1 w_closed ''/c''"
  by code_simp

lemma w_ttl_facts:
  "live_stream sample_ext w_ttl ''/t'' (meta_of w_ttl ''/t'') \<and> ttl_seconds (meta_of w_ttl ''/t'') = Some 60"
  by code_simp

lemma w3_facts:
  "w_faults w3 = [] \<and> regular_chain 2 w3 ''/b'' \<and> live_stream sample_ext w3 ''/b'' (meta_of w3 ''/b'')
     \<and> map msg_data (stitched_log 2 w3 ''/b'') = [''hello''] \<and> db_fork_edges (db_of w3 ''/a'') \<noteq> []
     \<and> live_stream sample_ext w3 ''/a'' (meta_of w3 ''/a'')"
  by code_simp

end
