(* ===== verification/Guarantees.thy ===== *)
theory Guarantees
  imports Snapshots Creating Retention Samples
begin

text \<open>
  Properties of the store and of the producers, the invariants of every reachable world, and what
  they do not cover: a read that races with an append.
\<close>

subsection \<open>The store\<close>

text \<open>
  C28. Appending in chunks that fit a SQLite parameter amounts to one row with the whole payload:
  on success the log has grown by it and the stream's offset has moved to it; the only other
  outcomes are an offset that cannot advance and an offset that is taken.
\<close>

theorem append_message_is_one_row:
  "append_message tx current payload now =
     result_bind (advance_offset current (length payload)) (\<lambda>nxt.
       if nxt \<in> msg_offset ` set (db_messages tx)
       then Inl ''UNIQUE constraint failed: messages.msg_offset''
       else Inr (tx\<lparr>db_messages := db_messages tx @ [\<lparr>msg_offset = nxt, msg_data = payload, msg_ts = now\<rparr>],
                    db_meta := map_option (\<lambda>m. m\<lparr>current_offset := nxt\<rparr>) (db_meta tx)\<rparr>, nxt))"
  by (rule append_message_eq)

text \<open>
  C27. A range read measures the rows in one query and fetches them in another. On a sorted table,
  rows appended in between do not show in the answer: it is that of the database at the first.
\<close>

theorem range_read_is_atomic:
  assumes "sorted_db d2" and "db_messages d2 = db_messages d1 @ appended" and "limit \<le> MAX_READ_ROWS"
  shows "read_messages_range d1 d2 after cap limit budget allow
           = read_messages_range d1 d1 after cap limit budget allow"
  using assms by (rule read_messages_range_stable)

text \<open>
  C30. A producer is remembered for its lifetime and no longer: the state found is the stored one if
  it was updated within the lifetime, and none otherwise, whichever others are swept with it.
\<close>

theorem producer_memory_exact:
  assumes "wf_db d"
  shows "fst (get_producer_state d i before) =
     (case map_of (db_producers d) i of
        None \<Rightarrow> None
      | Some st \<Rightarrow> if before \<le> ps_last_updated st then Some st else None)"
proof (cases "map_of (db_producers d) i")
  case None
  then have "map_of (db_producers (delete_expired_producer d i before)) i = None"
    by (auto simp: delete_expired_producer_def map_of_eq_None_iff)
  then have "fst (get_producer_state d i before) = None"
    by (auto simp: get_producer_state_def sweep_producers_def Let_def map_of_eq_None_iff)
  with None show ?thesis by simp
next
  case (Some st)
  note distinct = wf_distinct(3) [OF assms]
  show ?thesis
  proof (cases "before \<le> ps_last_updated st")
    case True
    with get_producer_state_fresh [OF distinct Some True] Some show ?thesis by simp
  next
    case False
    have "st' = st" if "(i, st') \<in> set (db_producers d)" for st'
      using distinct Some that by (metis map_of_is_SomeI option.inject)
    then have "(i, st') \<notin> set (db_producers (delete_expired_producer d i before))" for st'
      using False by (auto simp: delete_expired_producer_def)
    then have "map_of (db_producers (delete_expired_producer d i before)) i = None"
      by (auto simp: map_of_eq_None_iff)
    then have "fst (get_producer_state d i before) = None"
      by (auto simp: get_producer_state_def sweep_producers_def Let_def map_of_eq_None_iff)
    with Some False show ?thesis by simp
  qed
qed

subsection \<open>Producers\<close>

text \<open>
  A producer's request is accepted exactly when it is next in line: number 0 for a producer
  that is not remembered, else the next number of its epoch or number 0 of a later epoch. What is
  then remembered is the request's own position.
\<close>

lemma producer_next_in_line:
  "(\<exists>st'. validate_producer st p now = Accepted st' \<and> state_pos st' = headers_pos p)
     \<longleftrightarrow> (case st of None \<Rightarrow> ph_seq p = 0 | Some s \<Rightarrow> next_pos (state_pos s) (headers_pos p))"
  using validate_accepts [where st = st and p = p and now = now]
    validate_accepted(2,3) [where st = st and p = p and now = now]
  by (auto split: option.split)


subsection \<open>The schema\<close>

lemma create_present: "set ts \<subseteq> set xs \<Longrightarrow> foldl create_if_not_exists xs ts = xs"
  by (induction ts) (auto simp: create_if_not_exists_def)

text \<open>
  C32. Bringing the schema up to date succeeds unless a newer program has written it, leaves it at
  the supported version, and does nothing the second time.
\<close>

theorem ensure_schema_settles:
  "(case ensure_schema s of
      (Inl e, s') \<Rightarrow> supported_schema_version < read_schema_version s \<and> schema_version s' = schema_version s
    | (Inr _, s') \<Rightarrow> read_schema_version s \<le> supported_schema_version
        \<and> supported_schema_version \<le> read_schema_version s' \<and> ensure_schema s' = (Inr (), s'))"
proof -
  let ?t = "''durable_streams_schema_version''"
  let ?s1 = "s\<lparr>schema_tables := create_if_not_exists (schema_tables s) ?t\<rparr>"
  have table: "?t \<in> set (schema_tables ?s1)" by (simp add: create_if_not_exists_def)
  have version: "read_schema_version ?s1 = read_schema_version s" by (simp add: read_schema_version_def)
  have one: "supported_schema_version = 1" by (simp add: supported_schema_version_def MIGRATIONS_def)
  have settled: "ensure_schema t = (Inr (), t)"
    if "read_schema_version t = 1" "?t \<in> set (schema_tables t)" for t
    using that by (simp add: ensure_schema_def Let_def create_if_not_exists_def validate_schema_version_def one
        MIGRATIONS_def read_schema_version_def)
  consider "1 < read_schema_version s" | "read_schema_version s = 1" | "read_schema_version s < 1" by linarith
  then show ?thesis
  proof cases
    case 1
    then show ?thesis
      by (simp add: ensure_schema_def Let_def version validate_schema_version_def one)
  next
    case 2
    have "ensure_schema s = (Inr (), ?s1)"
      using 2 by (simp add: ensure_schema_def Let_def version validate_schema_version_def one MIGRATIONS_def)
    moreover have "ensure_schema ?s1 = (Inr (), ?s1)"
      by (rule settled) (simp only: version 2, rule table)
    ultimately show ?thesis using 2 version by (simp add: one)
  next
    case 3
    let ?s2 = "migration_batch (hd MIGRATIONS) ?s1"
    have "ensure_schema s = (Inr (), ?s2)"
      using 3 by (simp add: ensure_schema_def Let_def version validate_schema_version_def one MIGRATIONS_def)
    moreover have "read_schema_version ?s2 = 1"
      by (simp add: read_schema_version_def migration_batch_def MIGRATIONS_def)
    moreover have "?t \<in> set (schema_tables ?s2)"
      using table by (simp add: migration_batch_def MIGRATIONS_def create_if_not_exists_def)
    ultimately show ?thesis using 3 settled [of ?s2] by (simp add: one)
  qed
qed

subsection \<open>Every reachable world\<close>

text \<open>
  C6. The log of every stream in every reachable world: each message lies behind the one before by
  its length plus five, starting from zero or from the fork offset, and the stream's offset is the
  end of the log. Requests, maintenance, forks, faults, lost replies and reads that race with
  other handlers have all been possible on the way.
\<close>

theorem reachable_log:
  assumes "reachable E w" and "db_meta (db_of w p) = Some m"
  shows "framed (offset_val (base_offset m)) (db_messages (db_of w p))
    \<and> offset_val (current_offset m) = log_end (offset_val (base_offset m)) (db_messages (db_of w p))
    \<and> sorted_wrt (<) (map (offset_val \<circ> msg_offset) (db_messages (db_of w p)))"
  using wf_log_Some [OF wf_db_log [OF reachable_wf_db [OF assms(1)]] assms(2)] framed_vals_sorted by blast


subsection \<open>A read that races with an append\<close>


end
