(* ===== verification/Wire.thy ===== *)
theory Wire
  imports Log
begin

text \<open>
  The wire format: what offsets, numbers, JSON bodies, events and cursors mean to a client.
\<close>

subsection \<open>Offsets\<close>

text \<open>
  C33. Advancing an offset adds five and the length of the payload, and its text moves forward in
  the order in which the program and SQLite compare offsets, as long as the log stays under ten
  petabytes. Advancing fails only when the position would not fit into 64 bits.
\<close>

theorem advance_offset_moves_forward:
  assumes "canonical_offset s" and "offset_val s + 5 + len < 10 ^ 16"
  shows "\<exists>t. advance_offset s len = Inr t \<and> canonical_offset t \<and> offset_val t = offset_val s + 5 + len \<and> s < t"
proof -
  let ?t = "offset_text (offset_val s + 5 + len)"
  have s: "stream_offset s" using assms(1) by (simp add: canonical_offset_def)
  have "offset_val s + 5 + len \<le> u64_max" using assms(2) by (simp add: u64_max_def)
  then have "advance_offset s len = Inr ?t" by (simp add: advance_stream_offset [OF s])
  moreover have t: "canonical_offset ?t" using assms(2) by (rule canonical_offset_text)
  moreover have "s < ?t" by (simp add: canonical_offset_less_iff [OF assms(1) t])
  ultimately show ?thesis by auto
qed


subsection \<open>Numbers\<close>

lemma leading_zero_iff: "(1 < length v \<and> hd v = CHR ''0'') \<longleftrightarrow> \<not> (length v = 1 \<or> hd v \<noteq> CHR ''0'')" if "v \<noteq> []"
  using that by (cases v) auto

lemma canonical_number_iff:
  "v \<noteq> [] \<and> \<not> (1 < length v \<and> hd v = CHR ''0'') \<and> all_digits v \<longleftrightarrow> v = show_nat (dec_val v)"
proof
  assume v: "v \<noteq> [] \<and> \<not> (1 < length v \<and> hd v = CHR ''0'') \<and> all_digits v"
  then have "length v = 1 \<or> hd v \<noteq> CHR ''0''" by (cases v) auto
  with v show "v = show_nat (dec_val v)" by (simp add: show_nat_dec_val)
next
  assume "v = show_nat (dec_val v)"
  with show_nat_no_leading_zero [of "dec_val v"] show_nat_nonempty [of "dec_val v"] show_nat_digits [of "dec_val v"]
  show "v \<noteq> [] \<and> \<not> (1 < length v \<and> hd v = CHR ''0'') \<and> all_digits v" by auto
qed

definition checked_digits :: "string \<Rightarrow> int option" where
  "checked_digits v =
     (if v = [] \<or> (1 < length v \<and> hd v = CHR ''0'') \<or> \<not> all_digits v then None else parse_i64 v)"

lemma checked_number: "checked_digits v = Some n \<longleftrightarrow> 0 \<le> n \<and> n \<le> i64_max \<and> v = show_int n"
proof (cases "v \<noteq> [] \<and> \<not> (1 < length v \<and> hd v = CHR ''0'') \<and> all_digits v")
  case True
  then have v: "v = show_nat (dec_val v)" using canonical_number_iff by blast
  have "v = show_int n \<longleftrightarrow> int (dec_val v) = n" if "0 \<le> n"
    using that v by (metis dec_val_show_nat int_nat_eq nat_int not_less show_int_def)
  with True show ?thesis by (auto simp: checked_digits_def parse_i64_digits)
next
  case False
  have "v \<noteq> show_int n" if "0 \<le> n"
    using False that canonical_number_iff [of v] by (metis dec_val_show_nat not_less show_int_def)
  with False show ?thesis by (auto simp: checked_digits_def)
qed

text \<open>
  The numbers in request headers are accepted exactly in their canonical decimal form: no
  sign, no leading zero, at most \<open>2^53 - 1\<close>.
\<close>

lemma safe_integer_exact:
  "parse_non_negative_safe_integer v f = Inr n \<longleftrightarrow> 0 \<le> n \<and> n \<le> 2 ^ 53 - 1 \<and> v = show_int n"
proof -
  have "parse_non_negative_safe_integer v f = Inr n \<longleftrightarrow> checked_digits v = Some n \<and> n \<le> 9007199254740991"
    by (auto simp: checked_digits_def parse_non_negative_safe_integer_def Let_def split: option.split)
  then show ?thesis by (auto simp: checked_number i64_max_def)
qed

text \<open>A \<open>Stream-TTL\<close> is accepted exactly as the canonical decimal form of at most a century.\<close>

lemma ttl_exact: "parse_ttl v = Some n \<longleftrightarrow> 0 \<le> n \<and> n \<le> MAX_TTL_SECONDS \<and> v = show_int n"
proof -
  have "parse_ttl v = Some n \<longleftrightarrow> checked_digits v = Some n \<and> n \<le> MAX_TTL_SECONDS"
    by (auto simp: checked_digits_def parse_ttl_def split: option.split)
  then show ?thesis by (auto simp: checked_number i64_max_def MAX_TTL_SECONDS_def)
qed

subsection \<open>JSON\<close>

text \<open>The values a client appends with a request body.\<close>

definition json_values :: "'j ext \<Rightarrow> bytes \<Rightarrow> 'j json list" where
  "json_values E data =
     (case json_from_slice E data of None \<Rightarrow> [] | Some (JArray vs) \<Rightarrow> vs | Some (JOther x) \<Rightarrow> [JOther x])"

definition comma_separated :: "bytes list \<Rightarrow> bytes" where
  "comma_separated ts = concat (map (\<lambda>t. t @ '','') ts)"

lemma process_json_append_values:
  "process_json_append E data ic = Inr b \<Longrightarrow> b = comma_separated (map (json_to_writer E) (json_values E data))"
  by (auto simp: process_json_append_def json_values_def comma_separated_def comp_def
      split: option.splits json.splits if_splits)

lemma comma_separated_join:
  "ts \<noteq> [] \<Longrightarrow> comma_separated ts = join_char (CHR '','') ts @ '',''"
proof (induction ts)
  case (Cons t ts)
  then show ?case by (cases ts) (simp_all add: comma_separated_def join_char_Cons)
qed simp

lemma comma_separated_concat: "concat (map comma_separated tss) = comma_separated (concat tss)"
  by (induction tss) (simp_all add: comma_separated_def)

lemma format_comma_separated:
  assumes "bs \<noteq> []" and "concat bs = comma_separated ts"
  shows "format_json_messages bs = ''['' @ join_char (CHR '','') ts @ '']''"
proof (cases "ts = []")
  case True
  with assms show ?thesis by (simp add: format_json_messages_def comma_separated_def Let_def)
next
  case False
  with assms comma_separated_join [OF False] show ?thesis
    by (simp add: format_json_messages_def Let_def butlast_append)
qed

text \<open>
  C35. The body of a JSON read is the JSON array of all values appended, in order: arrays of a
  request are flattened by one level, requests are joined by commas, and there is no trailing one.
\<close>

theorem json_read_is_array_of_values:
  assumes "list_all2 (\<lambda>(data, initial_create) b. process_json_append E data initial_create = Inr b) reqs bs"
  shows "format_json_messages bs
    = ''['' @ join_char (CHR '','') (map (json_to_writer E) (concat (map (json_values E \<circ> fst) reqs))) @ '']''"
proof -
  have frames: "map comma_separated (map (map (json_to_writer E)) (map (json_values E \<circ> fst) reqs)) = bs"
    using assms by (induction rule: list_all2_induct) (auto dest: process_json_append_values)
  then have "concat bs = comma_separated (map (json_to_writer E) (concat (map (json_values E \<circ> fst) reqs)))"
    by (metis comma_separated_concat map_concat)
  note eq = this
  show ?thesis
  proof (cases "bs = []")
    case True
    with assms show ?thesis by (simp add: format_json_messages_def)
  qed (rule format_comma_separated [OF _ eq])
qed

subsection \<open>Server-sent events\<close>

text \<open>
  The receiving side, as the event-stream format prescribes it: the data lines up to the empty
  line, each without its field name and one space after the colon, joined by line feeds.
\<close>

definition drop_space :: "string \<Rightarrow> string" where
  "drop_space s = (if s \<noteq> [] \<and> hd s = CHR '' '' then tl s else s)"

definition decode_sse_data :: "string \<Rightarrow> string" where
  "decode_sse_data s =
     join_char LF (map (\<lambda>l. drop_space (drop 5 l)) (takeWhile (\<lambda>l. l \<noteq> []) (split_char LF s)))"

definition sse_lines :: "string \<Rightarrow> string list" where
  "sse_lines v = split_char LF (replace_char CR LF (replace_crlf v))"

lemma split_char_line: "d \<notin> set l \<Longrightarrow> split_char d (l @ d # s) = l # split_char d s"
  by (induction l) (auto split: list.splits)

lemma decode_lines:
  assumes "\<forall>l \<in> set ls. LF \<notin> set l"
  shows "takeWhile (\<lambda>l. l \<noteq> []) (split_char LF (concat (map (\<lambda>l. ''data:'' @ l @ [LF]) ls) @ [LF]))
    = map (\<lambda>l. ''data:'' @ l) ls"
  using assms
proof (induction ls)
  case (Cons l ls)
  have "LF \<notin> set (''data:'' @ l)" using Cons.prems by simp
  from split_char_line [OF this] have "split_char LF (concat (map (\<lambda>l. ''data:'' @ l @ [LF]) (l # ls)) @ [LF])
      = (''data:'' @ l) # split_char LF (concat (map (\<lambda>l. ''data:'' @ l @ [LF]) ls) @ [LF])"
    by simp
  with Cons show ?case by simp
qed simp

text \<open>
  C36. What a client decodes from the data lines of an event is the text that was sent, with every
  line break turned into a line feed and one leading space of each line lost.
\<close>

theorem sse_data_decodes:
  "decode_sse_data (encode_sse_data v) = join_char LF (map drop_space (sse_lines v))"
proof -
  have "\<forall>l \<in> set (sse_lines v). LF \<notin> set l"
    by (auto simp: sse_lines_def dest: split_char_no_sep)
  from decode_lines [OF this] show ?thesis
    by (simp add: decode_sse_data_def encode_sse_data_def Let_def sse_lines_def [symmetric] comp_def)
qed

text \<open>
  So a text without carriage returns and without a line that begins with a space arrives as it
  was sent; a line's leading space does not arrive.
\<close>

lemma sse_data_roundtrip:
  assumes "CR \<notin> set v" and "\<forall>l \<in> set (split_char LF v). drop_space l = l"
  shows "decode_sse_data (encode_sse_data v) = v"
proof -
  have "sse_lines v = split_char LF v"
    using assms(1) by (simp add: sse_lines_def replace_crlf_no_cr replace_char_id)
  moreover from assms(2) have "map drop_space (split_char LF v) = split_char LF v"
    by (intro map_idI) simp
  ultimately show ?thesis by (simp add: sse_data_decodes)
qed

theorem sse_leading_space_lost: "decode_sse_data (encode_sse_data '' x'') = ''x''"
  by code_simp

subsection \<open>Cursors\<close>

text \<open>
  C37. A cursor never goes back and never repeats what the client sent: it is at least the current
  interval, it exceeds the client's cursor, and by at most an hour's worth of intervals.
\<close>

theorem cursor_progresses:
  assumes "CURSOR_EPOCH_MS \<le> now"
  shows "\<exists>n. response_cursor now random request = show_int n
    \<and> (now - CURSOR_EPOCH_MS) div INTERVAL_MS \<le> n
    \<and> (\<forall>c. request = Some c \<longrightarrow> c \<noteq> [] \<longrightarrow> length c \<le> 15 \<longrightarrow> all_digits c \<longrightarrow>
         int (dec_val c) < n \<and> n \<le> max ((now - CURSOR_EPOCH_MS) div INTERVAL_MS) (int (dec_val c) + 180))"
proof -
  let ?cur = "(now - CURSOR_EPOCH_MS) div INTERVAL_MS"
  have cur: "rust_div (now - CURSOR_EPOCH_MS) INTERVAL_MS = ?cur"
    using assms by (intro rust_div_nonneg) (simp_all add: INTERVAL_MS_def)
  show ?thesis
  proof (cases "\<exists>c. request = Some c \<and> c \<noteq> [] \<and> length c \<le> 15 \<and> all_digits c")
    case False
    then have "response_cursor now random request = show_int ?cur"
      by (auto simp: response_cursor_def Let_def cur split: option.split)
    with False show ?thesis by (intro exI [of _ ?cur]) auto
  next
    case True
    then obtain c where c: "request = Some c" "c \<noteq> []" "length c \<le> 15" "all_digits c" by blast
    have "dec_val c < 10 ^ length c" using c(4) by (rule dec_val_lt)
    also have "\<dots> \<le> 10 ^ 15" using c(3) by (intro power_increasing) auto
    finally have "parse_i64 c = Some (int (dec_val c))"
      using c by (simp add: parse_i64_digits i64_max_def)
    define j where "j = max ((1 + int random mod 3600 + 19) div 20) 1"
    have "0 \<le> int random mod 3600" "int random mod 3600 < 3600" by simp_all
    then have j: "1 \<le> j" "j \<le> 180" by (auto simp: j_def)
    have "response_cursor now random request
        = show_int (if int (dec_val c) < ?cur then ?cur else int (dec_val c) + j)"
      using c \<open>parse_i64 c = _\<close> by (simp add: response_cursor_def Let_def cur j_def)
    with j c(1) show ?thesis
      by (intro exI [of _ "if int (dec_val c) < ?cur then ?cur else int (dec_val c) + j"]) auto
  qed
qed

end
