(* ===== verification/Facade.thy ===== *)
theory Facade
  imports Protocol
begin

text \<open>
  \<open>src/facade.rs\<close>: the public HTTP face. It collects a bounded body, names the actor of the stream,
  carries an allow-list of request headers over as encoded internal headers, and returns the
  actor's response with the CORS headers. The actor client, the URL parser, SHA-256 and the header
  values of the \<open>http\<close> crate are parameters (\<open>facade_ext\<close>, \<open>client\<close>); a deadline that passes is
  \<open>Elapsed\<close>. Header maps are lists in insertion order with lower-case names.
\<close>

type_synonym header_list = "(string \<times> bytes) list"

record config =
  cf_tenant_scope :: string
  cf_public_origin :: "string option"

record facade_ext =
  url_join :: "string \<Rightarrow> string result"
  sha256_hex :: "bytes \<Rightarrow> string"
  header_value_from_str :: "string \<Rightarrow> bytes result"
  header_value_to_str :: "bytes \<Rightarrow> string option"

datatype 'a timed = Finished 'a | Elapsed

record facade_response =
  fr_status :: nat
  fr_headers :: header_list
  fr_body :: bytes

record actor_reply =
  ar_status :: nat
  ar_headers :: header_list
  ar_body :: bytes

text \<open>
  The actor client: resolving a handle by key (\<open>PUT\<close> creates the actor, the others may find none),
  and fetching from it. The path is \<open>protocol\<close> with the request's query.
\<close>

record client =
  cl_get_or_create :: "string \<Rightarrow> string \<Rightarrow> string \<Rightarrow> unit result"
  cl_get :: "string \<Rightarrow> unit result"
  cl_resolve_handle :: "string \<Rightarrow> unit result timed"
  cl_resolve_optional :: "string \<Rightarrow> bool result timed"
  cl_fetch :: "string \<Rightarrow> string \<Rightarrow> http_method \<Rightarrow> header_list \<Rightarrow> bytes option \<Rightarrow> actor_reply result timed"

subsection \<open>The body\<close>

text \<open>The loop over the chunks of the body: what is collected, and whether it was too much.\<close>

fun collect_loop :: "nat \<Rightarrow> bytes result list \<Rightarrow> bytes \<Rightarrow> bool \<Rightarrow> (bytes \<times> bool) result" where
  "collect_loop limit [] collected too_large = Inr (collected, too_large)"
| "collect_loop limit (Inl e # cs) collected too_large = Inl e"
| "collect_loop limit (Inr chunk # cs) collected too_large =
     (if too_large then collect_loop limit cs collected True
      else if length collected + length chunk \<le> limit then collect_loop limit cs (collected @ chunk) False
      else collect_loop limit cs collected True)"

definition collect_bounded_body :: "bytes result list \<Rightarrow> nat \<Rightarrow> bytes option result" where
  "collect_bounded_body body limit =
     result_bind (collect_loop limit body [] False) (\<lambda>(collected, too_large).
       Inr (if too_large then None else Some collected))"

text \<open>The most the buffer holds at any point.\<close>

fun peak_buffer :: "nat \<Rightarrow> bytes result list \<Rightarrow> bytes \<Rightarrow> bool \<Rightarrow> nat" where
  "peak_buffer limit [] collected too_large = length collected"
| "peak_buffer limit (Inl e # cs) collected too_large = length collected"
| "peak_buffer limit (Inr chunk # cs) collected too_large =
     (if too_large then peak_buffer limit cs collected True
      else if length collected + length chunk \<le> limit then peak_buffer limit cs (collected @ chunk) False
      else peak_buffer limit cs collected True)"

subsection \<open>Headers\<close>

text \<open>\<open>HeaderMap::insert\<close> replaces all values of a name.\<close>

definition header_insert :: "string \<Rightarrow> bytes \<Rightarrow> header_list \<Rightarrow> header_list" where
  "header_insert name v hs = filter (\<lambda>(n, _). n \<noteq> name) hs @ [(name, v)]"

fun bridge_loop :: "'j ext \<Rightarrow> facade_ext \<Rightarrow> header_list \<Rightarrow> string list \<Rightarrow> header_list \<Rightarrow> header_list result" where
  "bridge_loop E fx hs [] bridged = Inr bridged"
| "bridge_loop E fx hs (name # names) bridged =
     (case header_get hs name of
        None \<Rightarrow> bridge_loop E fx hs names bridged
      | Some v \<Rightarrow>
          result_bind (header_value_from_str fx (b64url_encode E v)) (\<lambda>encoded.
            bridge_loop E fx hs names (header_insert (INTERNAL_HEADER_PREFIX @ name) encoded bridged)))"

definition bridge_request_headers :: "'j ext \<Rightarrow> facade_ext \<Rightarrow> header_list \<Rightarrow> header_list result" where
  "bridge_request_headers E fx hs = bridge_loop E fx hs BRIDGED_REQUEST_HEADERS []"

definition ALLOW_HEADERS :: string where
  "ALLOW_HEADERS = ''content-type, authorization, If-None-Match, Stream-Seq, Stream-TTL, Stream-Expires-At, Stream-Closed, Producer-Id, Producer-Epoch, Producer-Seq, Stream-Forked-From, Stream-Fork-Offset, Stream-Fork-Sub-Offset''"

definition EXPOSE_HEADERS :: string where
  "EXPOSE_HEADERS = ''Stream-Next-Offset, Stream-Cursor, Stream-Up-To-Date, Stream-Closed, Stream-TTL, Stream-Expires-At, Producer-Epoch, Producer-Seq, Producer-Expected-Seq, Producer-Received-Seq, stream-sse-data-encoding, etag, content-type, content-encoding, location, vary''"

definition apply_cors :: "header_list \<Rightarrow> header_list" where
  "apply_cors hs =
     header_insert ''cross-origin-resource-policy'' ''cross-origin''
     (header_insert ''x-content-type-options'' ''nosniff''
     (header_insert ''access-control-expose-headers'' EXPOSE_HEADERS
     (header_insert ''access-control-allow-headers'' ALLOW_HEADERS
     (header_insert ''access-control-allow-methods'' ''GET, POST, PUT, DELETE, HEAD, OPTIONS''
     (header_insert ''access-control-allow-origin'' ''*'' hs)))))"

definition cors_response :: "nat \<Rightarrow> bytes \<Rightarrow> facade_response" where
  "cors_response st b = \<lparr>fr_status = st, fr_headers = apply_cors [], fr_body = b\<rparr>"

definition handle_root :: "http_method \<Rightarrow> facade_response" where
  "handle_root m = (if m = OPTIONS then cors_response 204 [] else cors_response 404 ''Stream not found'')"

subsection \<open>Names\<close>

definition canonical_stream_path :: "facade_ext \<Rightarrow> string \<Rightarrow> string result" where
  "canonical_stream_path fx path =
     (case url_join fx path of
        Inl e \<Rightarrow> Inl (''Invalid stream path: '' @ e)
      | Inr canonical \<Rightarrow> if canonical = ''/'' then Inl ''Stream path must not be empty'' else Inr canonical)"

text \<open>The text that is hashed: the tenant, a zero byte, the path.\<close>

definition actor_key_text :: "string \<Rightarrow> string \<Rightarrow> bytes" where
  "actor_key_text tenant path = tenant @ CHR 0x00 # path"

definition stream_actor_key :: "facade_ext \<Rightarrow> string \<Rightarrow> string \<Rightarrow> string" where
  "stream_actor_key fx tenant path = sha256_hex fx (actor_key_text tenant path)"

definition ends_with :: "string \<Rightarrow> string \<Rightarrow> bool" where
  "ends_with s suf \<longleftrightarrow> length suf \<le> length s \<and> drop (length s - length suf) s = suf"

fun contains :: "string \<Rightarrow> string \<Rightarrow> bool" where
  "contains [] pat \<longleftrightarrow> pat = []"
| "contains (c # s) pat \<longleftrightarrow> take (length pat) (c # s) = pat \<or> contains s pat"

definition reserved_path :: "string \<Rightarrow> bool" where
  "reserved_path path \<longleftrightarrow> ends_with path ''/__ds'' \<or> contains path ''/__ds/''"

definition trim_end_slashes :: "string \<Rightarrow> string" where
  "trim_end_slashes s = rev (dropWhile (\<lambda>c. c = CHR ''/'') (rev s))"

text \<open>The public URL of a created stream.\<close>

definition forwarded_scheme :: "facade_ext \<Rightarrow> header_list \<Rightarrow> string" where
  "forwarded_scheme fx hs =
     (case Option.bind (header_get hs ''x-forwarded-proto'') (header_value_to_str fx) of
        None \<Rightarrow> ''http''
      | Some v \<Rightarrow> let s = trim (hd (split_char (CHR '','') v))
                  in if s = ''http'' \<or> s = ''https'' then s else ''http'')"

definition location :: "config \<Rightarrow> facade_ext \<Rightarrow> header_list \<Rightarrow> string \<Rightarrow> string" where
  "location cf fx hs original_path =
     (case cf_public_origin cf of
        Some origin \<Rightarrow> trim_end_slashes origin @ original_path
      | None \<Rightarrow>
          let host = (case Option.bind (header_get hs ''host'') (header_value_to_str fx) of
                        None \<Rightarrow> ''localhost'' | Some h \<Rightarrow> h)
          in forwarded_scheme fx hs @ ''://'' @ host @ original_path)"

subsection \<open>A request\<close>

record public_request =
  pq_method :: http_method
  pq_original_path :: string
  pq_path :: string
  pq_query :: "string option"
  pq_headers :: header_list
  pq_body :: "bytes result list timed"

definition bad_gateway :: "string \<Rightarrow> string \<Rightarrow> facade_response" where
  "bad_gateway what e = cors_response 502 (what @ '': '' @ e)"

text \<open>Finding the actor, or the response that says why not.\<close>

definition resolve_actor ::
  "config \<Rightarrow> facade_ext \<Rightarrow> client \<Rightarrow> http_method \<Rightarrow> string \<Rightarrow> facade_response + string" where
  "resolve_actor cf fx cl m canonical =
     (let key = stream_actor_key fx (cf_tenant_scope cf) canonical
      in case (if m = PUT then cl_get_or_create cl key canonical (cf_tenant_scope cf) else cl_get cl key) of
           Inl e \<Rightarrow> Inl (bad_gateway ''Actor request failed'' e)
         | Inr _ \<Rightarrow>
             if m = PUT then
               (case cl_resolve_handle cl key of
                  Finished (Inr _) \<Rightarrow> Inr key
                | Finished (Inl e) \<Rightarrow> Inl (bad_gateway ''Actor resolution failed'' e)
                | Elapsed \<Rightarrow> Inl (cors_response 504 ''Actor resolution timed out''))
             else
               (case cl_resolve_optional cl key of
                  Finished (Inr True) \<Rightarrow> Inr key
                | Finished (Inr False) \<Rightarrow> Inl (cors_response 404 ''Stream not found'')
                | Finished (Inl e) \<Rightarrow> Inl (bad_gateway ''Actor resolution failed'' e)
                | Elapsed \<Rightarrow> Inl (cors_response 504 ''Actor resolution timed out'')))"

text \<open>The actor's reply as the public response.\<close>

definition public_response ::
  "config \<Rightarrow> facade_ext \<Rightarrow> public_request \<Rightarrow> actor_reply \<Rightarrow> facade_response" where
  "public_response cf fx req reply =
     (let kept = filter (\<lambda>(n, _). take 8 n \<noteq> ''x-rivet-'') (ar_headers reply);
          hs = apply_cors kept;
          hs' = (if pq_method req = PUT \<and> 200 \<le> ar_status reply \<and> ar_status reply < 300
                 then (case header_value_from_str fx (location cf fx (pq_headers req) (pq_original_path req)) of
                         Inr v \<Rightarrow> header_insert ''location'' v hs
                       | Inl _ \<Rightarrow> hs)
                 else hs)
      in \<lparr>fr_status = ar_status reply, fr_headers = hs', fr_body = ar_body reply\<rparr>)"

text \<open>The body within its deadline and limit, or the response that refuses it.\<close>

definition receive_body :: "public_request \<Rightarrow> facade_response + bytes" where
  "receive_body req =
     (case pq_body req of
        Elapsed \<Rightarrow> Inl (cors_response 408 ''Request body timed out'')
      | Finished chunks \<Rightarrow>
          (case collect_bounded_body chunks MAX_BODY_BYTES of
             Inr (Some b) \<Rightarrow> Inr b
           | Inr None \<Rightarrow> Inl (cors_response 413 ''Payload too large'')
           | Inl _ \<Rightarrow> Inl (cors_response 400 ''Invalid request body'')))"

text \<open>The call of the actor and its answer.\<close>

definition forward ::
  "'j ext \<Rightarrow> config \<Rightarrow> facade_ext \<Rightarrow> client \<Rightarrow> public_request \<Rightarrow> string \<Rightarrow> bytes \<Rightarrow> facade_response" where
  "forward E cf fx cl req key body =
     (case bridge_request_headers E fx (pq_headers req) of
        Inl message \<Rightarrow> cors_response 400 message
      | Inr actor_headers \<Rightarrow>
          (let actor_path = (case pq_query req of Some q \<Rightarrow> ''protocol?'' @ q | None \<Rightarrow> ''protocol'')
           in case cl_fetch cl key actor_path (pq_method req) actor_headers
                     (if body = [] then None else Some body) of
                Elapsed \<Rightarrow> cors_response 504 ''Actor request timed out''
              | Finished (Inl e) \<Rightarrow> bad_gateway ''Actor request failed'' e
              | Finished (Inr reply) \<Rightarrow> public_response cf fx req reply))"

definition handle :: "'j ext \<Rightarrow> config \<Rightarrow> facade_ext \<Rightarrow> client \<Rightarrow> public_request \<Rightarrow> facade_response" where
  "handle E cf fx cl req =
     (if pq_method req = OPTIONS then cors_response 204 []
      else if pq_method req \<notin> {GET, HEAD, PUT, POST, DELETE} then
        (cors_response 405 [])\<lparr>fr_headers := header_insert ''allow'' ''GET, POST, PUT, DELETE, HEAD, OPTIONS'' (apply_cors [])\<rparr>
      else case canonical_stream_path fx (pq_original_path req) of
        Inl message \<Rightarrow> cors_response 400 message
      | Inr canonical \<Rightarrow>
          if reserved_path (pq_path req) then cors_response 404 ''Stream not found''
          else case receive_body req of
            Inl refused \<Rightarrow> refused
          | Inr body \<Rightarrow>
              (case resolve_actor cf fx cl (pq_method req) canonical of
                 Inl refused \<Rightarrow> refused
               | Inr key \<Rightarrow> forward E cf fx cl req key body))"

end
