(* ===== verification/Front.thy ===== *)
theory Front
  imports Facade
begin

text \<open>What the public face guarantees: bounded bodies, intact and isolated headers, distinct actors.\<close>

subsection \<open>Bodies\<close>

definition chunk_data :: "bytes result list \<Rightarrow> bytes" where
  "chunk_data cs = concat (map (\<lambda>c. case c of Inl _ \<Rightarrow> [] | Inr b \<Rightarrow> b) cs)"

lemma chunk_data_simps [simp]:
  "chunk_data [] = []" "chunk_data (Inr b # cs) = b @ chunk_data cs" "chunk_data (Inl e # cs) = chunk_data cs"
  by (simp_all add: chunk_data_def)

lemma collect_loop_ok:
  "\<forall>c \<in> set cs. \<exists>b. c = Inr b \<Longrightarrow> (\<not> too_large \<Longrightarrow> length acc \<le> limit) \<Longrightarrow>
     \<exists>buffer. collect_loop limit cs acc too_large
        = Inr (buffer, too_large \<or> limit < length acc + length (chunk_data cs))
      \<and> (\<not> too_large \<and> length acc + length (chunk_data cs) \<le> limit \<longrightarrow> buffer = acc @ chunk_data cs)"
proof (induction limit cs acc too_large rule: collect_loop.induct)
  case (3 limit chunk cs acc too_large)
  have ok: "\<forall>c \<in> set cs. \<exists>b. c = Inr b" using 3(4) by simp
  show ?case
  proof (cases too_large)
    case True
    with 3(1) [OF True ok] show ?thesis by auto
  next
    case False
    show ?thesis
    proof (cases "length acc + length chunk \<le> limit")
      case True
      with 3(2) [OF False True ok] False show ?thesis by (auto simp: add.assoc)
    next
      case big: False
      with 3(3) [OF False big ok] False show ?thesis by auto
    qed
  qed
next
  case (1 limit acc too_large)
  then show ?case by (cases too_large) auto
qed simp

lemma collect_loop_error:
  "\<exists>c \<in> set cs. \<exists>e. c = Inl e \<Longrightarrow> \<exists>e. collect_loop limit cs acc too_large = Inl e"
  by (induction limit cs acc too_large rule: collect_loop.induct) auto

lemma peak_buffer_le: "length acc \<le> limit \<Longrightarrow> peak_buffer limit cs acc too_large \<le> limit"
  by (induction limit cs acc too_large rule: peak_buffer.induct) auto

text \<open>
  A request body is accepted exactly when every chunk arrives and together they stay within the
  limit, and then it is their concatenation; a body that is too large is refused only once it has
  been read to its end; and the buffer never holds more than the limit.
\<close>

theorem collect_bounded_body_exact:
  "(if \<exists>c \<in> set cs. \<exists>e. c = Inl e then \<exists>e. collect_bounded_body cs limit = Inl e
    else collect_bounded_body cs limit = Inr (if length (chunk_data cs) \<le> limit then Some (chunk_data cs) else None))
   \<and> peak_buffer limit cs [] False \<le> limit"
proof -
  have "collect_bounded_body cs limit = Inr (if length (chunk_data cs) \<le> limit then Some (chunk_data cs) else None)"
    if "\<not> (\<exists>c \<in> set cs. \<exists>e. c = Inl e)"
  proof -
    from that have "\<forall>c \<in> set cs. \<exists>b. c = Inr b" by (metis sumE)
    from collect_loop_ok [OF this, of False "[]" limit] show ?thesis
      by (auto simp: collect_bounded_body_def)
  qed
  moreover have "\<exists>e. collect_bounded_body cs limit = Inl e" if "\<exists>c \<in> set cs. \<exists>e. c = Inl e"
    using collect_loop_error [OF that, of limit "[]" False] by (auto simp: collect_bounded_body_def)
  ultimately show ?thesis using peak_buffer_le [of "[]" limit cs False] by auto
qed

subsection \<open>Headers\<close>

lemma header_get_insert:
  "header_get (header_insert n v hs) m = (if m = n then Some v else header_get hs m)"
proof (induction hs)
  case (Cons h hs)
  then show ?case by (cases h) (auto simp: header_get_def header_insert_def)
qed (simp add: header_get_def header_insert_def)

lemma bridge_loop_get:
  assumes "bridge_loop E fx hs names acc = Inr bs" and "distinct names"
  shows "header_get bs (INTERNAL_HEADER_PREFIX @ name) =
    (if name \<in> set names
     then (case header_get hs name of
             None \<Rightarrow> header_get acc (INTERNAL_HEADER_PREFIX @ name)
           | Some v \<Rightarrow> (case header_value_from_str fx (b64url_encode E v) of Inr e \<Rightarrow> Some e | Inl _ \<Rightarrow> None))
     else header_get acc (INTERNAL_HEADER_PREFIX @ name))"
  using assms
proof (induction names arbitrary: acc)
  case (Cons n ns)
  show ?case
  proof (cases "header_get hs n")
    case None
    with Cons show ?thesis by auto
  next
    case (Some v)
    with Cons.prems obtain enc where enc: "header_value_from_str fx (b64url_encode E v) = Inr enc"
      "bridge_loop E fx hs ns (header_insert (INTERNAL_HEADER_PREFIX @ n) enc acc) = Inr bs"
      by (auto simp: result_bind_Inr_iff)
    from Cons.IH [OF enc(2)] Cons.prems(2) Some enc(1) show ?thesis
      by (auto simp: header_get_insert split: option.split)
  qed
qed simp

lemma bridge_loop_names:
  assumes "bridge_loop E fx hs names acc = Inr bs" and "h \<in> set bs"
  shows "h \<in> set acc \<or> (\<exists>name \<in> set names. fst h = INTERNAL_HEADER_PREFIX @ name)"
  using assms
proof (induction names arbitrary: acc)
  case (Cons n ns)
  then show ?case
    by (auto simp: result_bind_Inr_iff header_insert_def split: option.splits) fastforce+
qed simp

lemma distinct_bridged: "distinct BRIDGED_REQUEST_HEADERS"
  by (simp add: BRIDGED_REQUEST_HEADERS_def header_names)

text \<open>
  C38. The header bridge is faithful: what the actor reads for a bridged header is, byte for byte,
  what the client sent under that name, or nothing if it sent nothing. (base64 decodes what it
  encoded, and its text is a header value that stands for itself.)
\<close>

theorem bridge_roundtrip:
  assumes "\<And>b. b64url_decode E (b64url_encode E b) = Some b"
    and "\<And>b. header_value_from_str fx (b64url_encode E b) = Inr (b64url_encode E b)"
    and "name \<in> set BRIDGED_REQUEST_HEADERS"
  shows "\<exists>bs. bridge_request_headers E fx hs = Inr bs
    \<and> public_header_bytes E \<lparr>req_method = m, req_query = q, req_headers = bs, req_body = b\<rparr> name
        = Inr (header_get hs name)"
proof -
  have "\<exists>bs. bridge_loop E fx hs names acc = Inr bs" for names acc
    using assms(2) by (induction names arbitrary: acc) (auto split: option.split)
  then obtain bs where bs: "bridge_request_headers E fx hs = Inr bs"
    unfolding bridge_request_headers_def by blast
  have prefix: "\<not> (\<exists>n. name = INTERNAL_HEADER_PREFIX @ n)"
    using assms(3) by (auto simp: BRIDGED_REQUEST_HEADERS_def header_names INTERNAL_HEADER_PREFIX_def)
  have plain: "header_get bs name = None"
    using bridge_loop_names [OF bs [unfolded bridge_request_headers_def]] prefix
    by (fastforce simp: header_get_def map_of_eq_None_iff)
  note get = bridge_loop_get [OF bs [unfolded bridge_request_headers_def] distinct_bridged, of name]
  show ?thesis
  proof (cases "header_get hs name")
    case None
    with bs get plain assms(3) show ?thesis
      by (auto simp: public_header_bytes_def header_get_def)
  next
    case (Some v)
    with bs get assms show ?thesis by (auto simp: public_header_bytes_def)
  qed
qed

text \<open>
  Nothing else passes: every header that reaches the actor is one of the allow-list under its
  internal name, so a client cannot set an internal header itself.
\<close>

lemma bridge_isolates:
  assumes "bridge_request_headers E fx hs = Inr bs" and "(n, v) \<in> set bs"
  shows "\<exists>name raw. name \<in> set BRIDGED_REQUEST_HEADERS \<and> n = INTERNAL_HEADER_PREFIX @ name
    \<and> header_get hs name = Some raw \<and> header_value_from_str fx (b64url_encode E raw) = Inr v"
proof -
  have "(n, v) \<in> set acc \<or> (\<exists>name raw. name \<in> set names \<and> n = INTERNAL_HEADER_PREFIX @ name
    \<and> header_get hs name = Some raw \<and> header_value_from_str fx (b64url_encode E raw) = Inr v)"
    if "bridge_loop E fx hs names acc = Inr bs" for names acc
    using that
  proof (induction names arbitrary: acc)
    case (Cons nm ns)
    show ?case
    proof (cases "header_get hs nm")
      case None
      with Cons show ?thesis by fastforce
    next
      case (Some raw)
      with Cons.prems obtain enc where enc: "header_value_from_str fx (b64url_encode E raw) = Inr enc"
        "bridge_loop E fx hs ns (header_insert (INTERNAL_HEADER_PREFIX @ nm) enc acc) = Inr bs"
        by (auto simp: result_bind_Inr_iff)
      from Cons.IH [OF enc(2)] Some enc(1) show ?thesis by (fastforce simp: header_insert_def)
    qed
  qed (use assms(2) in simp)
  from this [OF assms(1) [unfolded bridge_request_headers_def]] show ?thesis by simp
qed

subsection \<open>Responses\<close>

definition no_internal :: "header_list \<Rightarrow> bool" where
  "no_internal hs \<longleftrightarrow> list_all (\<lambda>(n, _). take 8 n \<noteq> ''x-rivet-'') hs"

lemma no_internal_insert: "no_internal hs \<Longrightarrow> take 8 n \<noteq> ''x-rivet-'' \<Longrightarrow> no_internal (header_insert n v hs)"
  by (auto simp: no_internal_def header_insert_def list_all_iff)

definition presentable :: "facade_response \<Rightarrow> bool" where
  "presentable r \<longleftrightarrow>
     header_get (fr_headers r) ''access-control-allow-origin'' = Some ''*'' \<and> no_internal (fr_headers r)"

lemma presentable_insert:
  "n \<noteq> ''access-control-allow-origin'' \<Longrightarrow> take 8 n \<noteq> ''x-rivet-'' \<Longrightarrow>
     header_get hs ''access-control-allow-origin'' = Some ''*'' \<and> no_internal hs \<Longrightarrow>
     header_get (header_insert n v hs) ''access-control-allow-origin'' = Some ''*'' \<and> no_internal (header_insert n v hs)"
  by (simp add: header_get_insert no_internal_insert)

lemma apply_cors_presentable:
  assumes "no_internal hs"
  shows "header_get (apply_cors hs) ''access-control-allow-origin'' = Some ''*'' \<and> no_internal (apply_cors hs)"
proof -
  have "header_get (header_insert ''access-control-allow-origin'' ''*'' hs) ''access-control-allow-origin'' = Some ''*''
      \<and> no_internal (header_insert ''access-control-allow-origin'' ''*'' hs)"
    using assms by (simp add: header_get_insert no_internal_insert)
  note base = this
  show ?thesis
    unfolding apply_cors_def
    by (rule presentable_insert, simp, simp, rule presentable_insert, simp, simp,
        rule presentable_insert, simp, simp, rule presentable_insert, simp, simp,
        rule presentable_insert, simp, simp, rule base)
qed

lemma refused_presentable [simp]:
  "presentable (cors_response st b)" "presentable (bad_gateway what e)"
  "presentable ((cors_response st b)\<lparr>fr_headers := header_insert ''allow'' v (apply_cors [])\<rparr>)"
proof -
  have "no_internal []" by (simp add: no_internal_def)
  note cors = apply_cors_presentable [OF this]
  then show "presentable (cors_response st b)" "presentable (bad_gateway what e)"
    by (simp_all add: presentable_def cors_response_def bad_gateway_def)
  show "presentable ((cors_response st b)\<lparr>fr_headers := header_insert ''allow'' v (apply_cors [])\<rparr>)"
    using presentable_insert [OF _ _ cors, of "''allow''" v] by (simp add: presentable_def)
qed

lemma public_response_presentable [simp]: "presentable (public_response cf fx req reply)"
proof -
  have "no_internal (filter (\<lambda>(n, _). take 8 n \<noteq> ''x-rivet-'') (ar_headers reply))"
    by (auto simp: no_internal_def list_all_iff)
  note cors = apply_cors_presentable [OF this]
  show ?thesis
    using cors presentable_insert [OF _ _ cors, of "''location''"]
    by (simp add: presentable_def public_response_def Let_def split: sum.split)
qed

text \<open>
  Whatever happens to a request, its response can be read across origins and carries no header
  of the actor's host.
\<close>

theorem responses_presentable: "presentable (handle E cf fx cl req)"
proof -
  have resolve: "presentable r" if "resolve_actor cf fx cl m c = Inl r" for m c r
    using that by (auto simp: resolve_actor_def Let_def split: sum.splits timed.splits if_splits bool.splits)
  have body: "presentable r" if "receive_body req = Inl r" for r
    using that by (auto simp: receive_body_def split: sum.splits timed.splits option.splits)
  have forward: "presentable (forward E cf fx cl req key b)" for key b
    by (simp add: forward_def Let_def split: sum.split timed.split)
  show ?thesis
    unfolding handle_def using resolve body forward
    by (auto split: sum.split simp del: insert_iff)
qed

subsection \<open>Actors\<close>

text \<open>
  C40. Different streams have different actors: over tenants without a zero byte in their names, the
  key text determines tenant and path, so keys collide only where SHA-256 does.
\<close>

theorem actor_key_distinguishes:
  assumes "inj (sha256_hex fx)" and "CHR 0x00 \<notin> set t1" and "CHR 0x00 \<notin> set t2"
  shows "stream_actor_key fx t1 p1 = stream_actor_key fx t2 p2 \<longleftrightarrow> t1 = t2 \<and> p1 = p2"
proof
  assume "stream_actor_key fx t1 p1 = stream_actor_key fx t2 p2"
  then have "actor_key_text t1 p1 = actor_key_text t2 p2"
    using assms(1) by (simp add: stream_actor_key_def inj_eq)
  then have "split_once (CHR 0x00) (t1 @ CHR 0x00 # p1) = split_once (CHR 0x00) (t2 @ CHR 0x00 # p2)"
    by (simp add: actor_key_text_def)
  then show "t1 = t2 \<and> p1 = p2" using assms(2,3) by (simp add: split_once_append)
qed simp

end
