(* ===== verification/Transactions.thy ===== *)
theory Transactions
  imports Appending Reading
begin

text \<open>
  What can happen to a stream, as a list of the transactions that the handlers commit, each with the
  guard under which they do, and the histories of worlds that are made of them. A safety property of
  the streams needs no look at the handlers: it is an induction over \<open>history\<close>. Where a stream is
  created as a fork, the guard relates two streams: the fork starts within its source.
\<close>

lemma and_then_Inr:
  "and_then m f w = (Inr x, w') \<longleftrightarrow> (\<exists>y w1. m w = (Inr y, w1) \<and> f y w1 = (Inr x, w'))"
  by (auto simp: and_then_def split: prod.split sum.split)

subsection \<open>The transactions\<close>

text \<open>Transactions that leave the stream itself alone: they change only the queues of fork intents
  and of releases.\<close>

definition queues_only :: "db \<Rightarrow> db \<Rightarrow> bool" where
  "queues_only d d' \<longleftrightarrow> db_meta d' = db_meta d \<and> db_messages d' = db_messages d
     \<and> db_producers d' = db_producers d \<and> db_fork_edges d' = db_fork_edges d"

text \<open>
  What a stream admits as a message: never nothing, and in a JSON stream a run of values, each in the
  text of the JSON library and followed by a comma.
\<close>

definition admits :: "'j ext \<Rightarrow> string option \<Rightarrow> bytes \<Rightarrow> bool" where
  "admits E ct b \<longleftrightarrow> b \<noteq> []
     \<and> (normalize_content_type ct = json_type \<longrightarrow> (\<exists>vs. b = concat (map (\<lambda>v. json_to_writer E v @ '','') vs)))"

inductive transaction :: "'j ext \<Rightarrow> db \<Rightarrow> db \<Rightarrow> bool" for E :: "'j ext" where
  queue: "queues_only d d' \<Longrightarrow> transaction E d d'"
| access: "transaction E d (touch d now)"
| soft_delete: "db_fork_edges d \<noteq> [] \<Longrightarrow> transaction E d (set_soft_deleted d)"
| remove: "db_meta d = Some m \<Longrightarrow> db_fork_edges d = [] \<Longrightarrow> transaction E d (purge_stream_tx d m)"
| hold: "db_meta d = Some m \<Longrightarrow> \<not> soft_deleted m \<Longrightarrow> insert_fork_edge d e off = Inr (d', recorded)
    \<Longrightarrow> \<not> current_offset m < off \<Longrightarrow> transaction E d d'"
| unhold: "db_meta d = Some m \<Longrightarrow> \<not> (soft_deleted m \<and> fork_edge_count (delete_fork_edge d e) = 0)
    \<Longrightarrow> transaction E d (delete_fork_edge d e)"
| unhold_remove: "db_meta d = Some m \<Longrightarrow> soft_deleted m \<Longrightarrow> fork_edge_count (delete_fork_edge d e) = 0
    \<Longrightarrow> transaction E d (purge_stream_tx (delete_fork_edge d e) m)"
| close: "db_meta d = Some m \<Longrightarrow> \<not> soft_deleted m
    \<Longrightarrow> transaction E d (touch (set_closed d None) now)"
| close_as: "db_meta d = Some m \<Longrightarrow> \<not> soft_deleted m \<Longrightarrow> \<not> closed m
    \<Longrightarrow> get_producer_state d (ph_id ph) before = (prior, d1) \<Longrightarrow> validate_producer prior ph now = Accepted st
    \<Longrightarrow> transaction E d (touch (set_closed (commit_producer_state d1 (ph_id ph) st) by') now)"
| extend: "db_meta d = Some m \<Longrightarrow> \<not> soft_deleted m \<Longrightarrow> \<not> closed m
    \<Longrightarrow> check_producer producer d m now = (Inr accepted, d1)
    \<Longrightarrow> seq_conflict E (Store.last_seq m) seq = Inr False
    \<Longrightarrow> admits E (content_type m) payload
    \<Longrightarrow> append_message d1 (current_offset m) payload now = Inr (d2, off)
    \<Longrightarrow> transaction E d (finish_append E d2 accepted producer seq close_stream now)"

text \<open>A row whose current offset is in the form the program prints, unless it began in another.\<close>

definition printed :: "meta \<Rightarrow> bool" where
  "printed m \<longleftrightarrow> (canonical_offset (base_offset m) \<longrightarrow> current_offset m = offset_text (offset_val (current_offset m)))"

text \<open>Creating a stream, under the generation \<open>g\<close>.\<close>

definition creation :: "'j ext \<Rightarrow> string \<Rightarrow> db \<Rightarrow> db \<Rightarrow> bool" where
  "creation E g d d' \<longleftrightarrow> db_meta d = None \<and> db_fork_edges d' = db_fork_edges d \<and> db_producers d' = db_producers d
     \<and> (\<exists>m ms. db_meta d' = Some m \<and> generation m = g \<and> \<not> soft_deleted m \<and> printed m \<and> db_messages d' = db_messages d @ ms
          \<and> list_all (admits E (content_type m) \<circ> msg_data) ms)"

subsection \<open>What they do to the tables\<close>

text \<open>Without a stream there are neither messages nor edges.\<close>

definition tidy :: "db \<Rightarrow> bool" where
  "tidy d \<longleftrightarrow> (db_meta d = None \<longrightarrow> db_messages d = [] \<and> db_fork_edges d = [])"

lemma wf_tidy: "wf_db d \<Longrightarrow> tidy d"
  by (auto simp: tidy_def wf_db_def wf_log_def wf_rows_def split: option.splits)

lemma commit_producer_state_keeps:
  "db_meta (commit_producer_state d i st) = db_meta d" "db_messages (commit_producer_state d i st) = db_messages d"
  "db_fork_edges (commit_producer_state d i st) = db_fork_edges d"
  by (simp_all add: commit_producer_state_def)

lemma update_meta_frame:
  "db_meta (update_meta f d) = map_option f (db_meta d)" "db_messages (update_meta f d) = db_messages d"
  "db_fork_edges (update_meta f d) = db_fork_edges d"
  by (simp_all add: update_meta_def)

lemma finish_append_edges: "db_fork_edges (finish_append E d acc pr seq cl now) = db_fork_edges d"
  by (auto simp: finish_append_def Let_def touch_def set_closed_def set_last_seq_def update_meta_frame
      commit_producer_state_keeps split: option.split)

lemma hold_frame:
  assumes "insert_fork_edge d e off = Inr (d', recorded)"
  shows "db_meta d' = db_meta d" "db_messages d' = db_messages d"
    "fst ` set (db_fork_edges d') = insert e (fst ` set (db_fork_edges d))"
  using assms by (auto simp: insert_fork_edge_def Let_def split: option.splits if_splits)

lemma fork_point_update [simp]:
  "fork_point (m\<lparr>last_accessed_at := t\<rparr>) = fork_point m" "fork_point (m\<lparr>soft_deleted := b\<rparr>) = fork_point m"
  "fork_point (m\<lparr>closed := b\<rparr>) = fork_point m" "fork_point (m\<lparr>Store.closed_by := j\<rparr>) = fork_point m"
  "fork_point (m\<lparr>Store.last_seq := q\<rparr>) = fork_point m" "fork_point (m\<lparr>current_offset := off\<rparr>) = fork_point m"
  by (simp_all add: fork_point_def)

text \<open>What a stream has from its creation, and keeps.\<close>

definition lineage :: "meta \<Rightarrow> string \<times> (string \<times> string) option \<times> string option \<times> string" where
  "lineage m = (generation m, fork_point m, fork_source_gen m, base_offset m)"

lemma lineage_update [simp]:
  "lineage (m\<lparr>last_accessed_at := t\<rparr>) = lineage m" "lineage (m\<lparr>soft_deleted := b\<rparr>) = lineage m"
  "lineage (m\<lparr>closed := b\<rparr>) = lineage m" "lineage (m\<lparr>Store.closed_by := j\<rparr>) = lineage m"
  "lineage (m\<lparr>Store.last_seq := q\<rparr>) = lineage m" "lineage (m\<lparr>current_offset := off\<rparr>) = lineage m"
  by (simp_all add: lineage_def base_offset_def)

lemma lineageD:
  "lineage m' = lineage m \<Longrightarrow> generation m' = generation m" "lineage m' = lineage m \<Longrightarrow> fork_point m' = fork_point m"
  "lineage m' = lineage m \<Longrightarrow> fork_source_gen m' = fork_source_gen m" "lineage m' = lineage m \<Longrightarrow> base_offset m' = base_offset m"
  by (simp_all add: lineage_def)

lemma finish_append_lineage:
  "db_meta tx = Some m \<Longrightarrow> db_meta (finish_append E tx accepted producer seq cl now) = Some m' \<Longrightarrow> lineage m' = lineage m"
  by (auto simp: finish_append_def Let_def touch_def set_closed_def set_last_seq_def update_meta_frame
      commit_producer_state_keeps split: option.split_asm if_splits)

text \<open>What an append does to the row and the log.\<close>

lemma extend_frame:
  assumes "db_meta d = Some m" and "check_producer producer d m now = (Inr accepted, d1)"
    and "append_message d1 (current_offset m) payload now = Inr (d2, off)"
  obtains m' where "db_meta (finish_append E d2 accepted producer seq cl now) = Some m'"
    "lineage m' = lineage m" "content_type m' = content_type m" "closed m' = (closed m \<or> cl)" "soft_deleted m' = soft_deleted m"
    "current_offset m' = off" "advance_offset (current_offset m) (length payload) = Inr off"
    "db_messages (finish_append E d2 accepted producer seq cl now) = db_messages d @ [\<lparr>msg_offset = off, msg_data = payload, msg_ts = now\<rparr>]"
    "db_fork_edges (finish_append E d2 accepted producer seq cl now) = db_fork_edges d"
proof -
  note frame = check_producer_frame [OF assms(2)]
  have d2: "db_meta d2 = Some (m\<lparr>current_offset := off\<rparr>)" "db_fork_edges d2 = db_fork_edges d"
    "advance_offset (current_offset m) (length payload) = Inr off"
    "db_messages d2 = db_messages d @ [\<lparr>msg_offset = off, msg_data = payload, msg_ts = now\<rparr>]"
    using assms(3) frame assms(1) by (auto simp: append_message_eq result_bind_Inr_iff split: if_splits)
  obtain m' where m': "db_meta (finish_append E d2 accepted producer seq cl now) = Some m'"
    "content_type m' = content_type m" "soft_deleted m' = soft_deleted m" "current_offset m' = off"
    "closed m' = (closed m \<or> cl)"
    using finish_append_meta [OF d2(1), of E accepted producer seq cl now] by auto
  from finish_append_lineage [OF d2(1) m'(1)] m' d2(2-4) show ?thesis
    by (intro that [of m']) (simp_all add: finish_append_edges)
qed

text \<open>A row has a predecessor of the same lineage, and its offset has at most advanced.\<close>

definition succeeds :: "meta \<Rightarrow> meta \<Rightarrow> bool" where
  "succeeds m m' \<longleftrightarrow> lineage m' = lineage m
     \<and> (current_offset m' = current_offset m \<or> (\<exists>n. advance_offset (current_offset m) n = Inr (current_offset m')))"

lemma transaction_row:
  assumes "transaction E d d'" and "db_meta d' = Some m'"
  shows "\<exists>m. db_meta d = Some m \<and> succeeds m m'"
  using assms
proof (cases rule: transaction.cases)
  case (extend m producer now accepted d1 seq payload d2 off close_stream)
  then show ?thesis
    using extend_frame [OF extend(2,5,8), of E seq close_stream] assms(2)
    by (metis option.inject succeeds_def)
next
  case (close_as m ph before prior d1 now st by')
  then show ?thesis using get_producer_state_frame(1) [OF close_as(5)] assms(2)
    by (auto simp: touch_def set_closed_def update_meta_frame commit_producer_state_keeps succeeds_def)
next
  case queue
  then have "db_meta d = Some m'" using assms(2) by (simp add: queues_only_def)
  then show ?thesis by (simp add: succeeds_def)
qed (use assms(2) in \<open>auto simp: touch_def set_soft_deleted_def set_closed_def update_meta_frame succeeds_def
  purge_stream_tx_def purge_def hold_frame(1) delete_fork_edge_def split: option.splits if_splits\<close>)

text \<open>An edge was there before, or it has been recorded within the log.\<close>

lemma transaction_edge:
  assumes "transaction E d d'" and "db_meta d' = Some m'" and "(e, off) \<in> set (db_fork_edges d')"
  shows "(e, off) \<in> set (db_fork_edges d) \<or> db_meta d = Some m' \<and> \<not> current_offset m' < off"
  using assms(1)
proof (cases rule: transaction.cases)
  case (hold m e' off' recorded)
  then show ?thesis using assms(2,3) hold_frame(1) [OF hold(3)]
    by (auto simp: insert_fork_edge_Inr split: option.splits)
next
  case (extend m producer now accepted d1 seq payload d2 off close_stream)
  then show ?thesis
    using extend_frame [OF extend(2,5,8), of E seq close_stream] assms(3) by (metis)
next
  case (close_as m ph before prior d1 now st by')
  then show ?thesis using get_producer_state_frame(3) [OF close_as(5)] assms(3)
    by (auto simp: touch_def set_closed_def update_meta_frame commit_producer_state_keeps)
qed (use assms(2,3) in \<open>auto simp: queues_only_def touch_def set_soft_deleted_def set_closed_def update_meta_frame
  purge_stream_tx_def purge_def delete_fork_edge_def split: option.splits\<close>)

lemma transaction_tidy:
  assumes "transaction E d d'" and "tidy d"
  shows "tidy d'"
  using assms
proof (cases rule: transaction.cases)
  case (extend m producer now accepted d1 seq payload d2 off close_stream)
  then show ?thesis
    using extend_frame [OF extend(2,5,8), of E seq close_stream] by (metis tidy_def option.distinct(1))
next
  case (close_as m ph before prior d1 now st by')
  then show ?thesis using get_producer_state_frame [OF close_as(5)]
    by (simp add: tidy_def touch_def set_closed_def update_meta_frame commit_producer_state_keeps)
qed (auto simp: tidy_def queues_only_def touch_def set_soft_deleted_def set_closed_def update_meta_frame
  purge_stream_tx_def purge_def hold_frame(1) delete_fork_edge_def split: option.splits)

subsection \<open>Offsets within a log\<close>

text \<open>
  The offset is not behind the end of the log. The program compares the texts; where both offsets are
  in the printed form that is the order of the positions.
\<close>

definition within :: "meta \<Rightarrow> string \<Rightarrow> bool" where
  "within m off \<longleftrightarrow> (canonical_offset off \<longrightarrow> canonical_offset (base_offset m) \<longrightarrow> offset_val off \<le> offset_val (current_offset m))"

text \<open>The stream's edges lie within its log.\<close>

definition anchored :: "db \<Rightarrow> bool" where
  "anchored d \<longleftrightarrow> tidy d \<and> (\<forall>m. db_meta d = Some m \<longrightarrow> printed m \<and> (\<forall>(e, off) \<in> set (db_fork_edges d). within m off))"

lemma succeeds_printed: "succeeds m m' \<Longrightarrow> printed m \<Longrightarrow> printed m'"
  by (auto simp: succeeds_def printed_def dest!: lineageD(4))
    (metis advance_stream_offset_InrD(1) offset_val_text stream_offset_text)

lemma succeeds_forward:
  assumes "succeeds m m'" and "printed m" and "canonical_offset (base_offset m)"
  shows "offset_val (current_offset m) \<le> offset_val (current_offset m')"
proof -
  have "stream_offset (current_offset m)" using assms(2,3) stream_offset_text by (metis printed_def)
  with assms(1) show ?thesis by (auto simp: succeeds_def dest!: advance_stream_offset_InrD(1))
qed

lemma succeeds_within: "succeeds m m' \<Longrightarrow> printed m \<Longrightarrow> within m off \<Longrightarrow> within m' off"
  using succeeds_forward [of m m'] by (auto simp: within_def succeeds_def dest: lineageD(4))

lemma recorded_within:
  assumes "printed m" and "\<not> current_offset m < off"
  shows "within m off"
  unfolding within_def
proof (intro impI, rule ccontr)
  assume off: "canonical_offset off" and base: "canonical_offset (base_offset m)"
    and "\<not> offset_val off \<le> offset_val (current_offset m)"
  then have less: "offset_val (current_offset m) < offset_val off" by simp
  then have "offset_text (offset_val (current_offset m)) < offset_text (offset_val off)"
    using canonical_offset_eq_text(2) [OF off] by (simp add: offset_text_less_iff)
  with assms base canonical_offset_eq_text(1) [OF off] show False by (simp add: printed_def)
qed

lemma transaction_anchored:
  assumes "transaction E d d'" and "anchored d"
  shows "anchored d'"
  unfolding anchored_def
proof (intro conjI allI impI)
  show "tidy d'" by (rule transaction_tidy [OF assms(1)]) (use assms(2) in \<open>simp add: anchored_def\<close>)
  fix m'
  assume m': "db_meta d' = Some m'"
  then obtain m where m: "db_meta d = Some m" "succeeds m m'" using transaction_row [OF assms(1)] by blast
  with assms(2) have old: "printed m" "\<forall>(e, off) \<in> set (db_fork_edges d). within m off" by (auto simp: anchored_def)
  show p: "printed m'" by (rule succeeds_printed [OF m(2) old(1)])
  show "\<forall>(e, off) \<in> set (db_fork_edges d'). within m' off"
    using transaction_edge [OF assms(1) m'] old succeeds_within [OF m(2)] recorded_within [OF p] by fast
qed

lemma creation_anchored: "creation E g d d' \<Longrightarrow> anchored d \<Longrightarrow> anchored d'"
  by (auto simp: creation_def anchored_def tidy_def)

subsection \<open>Histories\<close>

definition issued :: "'j ext \<Rightarrow> world \<Rightarrow> string \<Rightarrow> bool" where
  "issued E w g \<longleftrightarrow> (\<exists>k < w_uuids w. g = new_v4 E k)"

lemma issued_mono: "issued E w g \<Longrightarrow> w_uuids w \<le> w_uuids w' \<Longrightarrow> issued E w' g"
  by (auto simp: issued_def intro: less_le_trans)

text \<open>The stream of generation \<open>g\<close>, wherever \<open>p\<close> still is that stream, contains the offset.\<close>

definition lies_in :: "'j ext \<Rightarrow> world \<Rightarrow> string \<Rightarrow> string \<Rightarrow> string \<Rightarrow> bool" where
  "lies_in E w p g off \<longleftrightarrow> issued E w g
     \<and> (\<forall>m. db_meta (db_of w p) = Some m \<longrightarrow> generation m = g \<longrightarrow> within m off)"

definition rooted :: "'j ext \<Rightarrow> world \<Rightarrow> meta \<Rightarrow> bool" where
  "rooted E w m \<longleftrightarrow> (\<forall>parent off. fork_point m = Some (parent, off) \<longrightarrow>
     (\<exists>g. fork_source_gen m = Some g \<and> lies_in E w parent g off))"

text \<open>What histories keep: edges lie within the logs, and generations are identifiers that were drawn.\<close>

definition sound :: "'j ext \<Rightarrow> world \<Rightarrow> bool" where
  "sound E w \<longleftrightarrow> (\<forall>p. anchored (db_of w p)
     \<and> (\<forall>m. db_meta (db_of w p) = Some m \<longrightarrow> issued E w (generation m)))"

text \<open>
  Runs of transactions. A stream is created under an identifier that is drawn for it, and a fork within
  the log of its source (where identifiers do not repeat and the world was sound to begin with).
\<close>

inductive history :: "'j ext \<Rightarrow> world \<Rightarrow> world \<Rightarrow> bool" for E :: "'j ext" and w0 :: world where
  begin_history: "history E w0 w0"
| elsewhere: "history E w0 w \<Longrightarrow> (\<And>p. db_of w' p = db_of w p) \<Longrightarrow> w_uuids w \<le> w_uuids w' \<Longrightarrow> history E w0 w'"
| transact: "history E w0 w \<Longrightarrow> transaction E (db_of w p) (db_of w' p)
    \<Longrightarrow> (\<And>q. q \<noteq> p \<Longrightarrow> db_of w' q = db_of w q) \<Longrightarrow> w_uuids w \<le> w_uuids w' \<Longrightarrow> history E w0 w'"
| create: "history E w0 w \<Longrightarrow> creation E (new_v4 E (w_uuids w)) (db_of w p) (db_of w' p)
    \<Longrightarrow> (\<And>q. q \<noteq> p \<Longrightarrow> db_of w' q = db_of w q) \<Longrightarrow> w_uuids w < w_uuids w'
    \<Longrightarrow> (\<And>m. sound E w0 \<Longrightarrow> inj (new_v4 E) \<Longrightarrow> db_meta (db_of w' p) = Some m \<Longrightarrow> rooted E w m)
    \<Longrightarrow> history E w0 w'"

lemma sound_issued: "sound E w \<Longrightarrow> db_meta (db_of w p) = Some m \<Longrightarrow> issued E w (generation m)"
  by (simp add: sound_def)

lemma history_uuids: "history E w0 w \<Longrightarrow> w_uuids w0 \<le> w_uuids w"
  by (induction rule: history.induct) auto

lemma history_sound:
  assumes "history E w0 w" and "sound E w0"
  shows "sound E w"
  using assms
proof induction
  case (elsewhere w w')
  note old = elsewhere.IH [OF elsewhere.prems, unfolded sound_def, rule_format]
  show ?case
    unfolding sound_def elsewhere.hyps(2)
    by (intro allI conjI impI conjunct1 [OF old] issued_mono [OF conjunct2 [OF old, rule_format] elsewhere.hyps(3)])
next
  case (transact w p w')
  have "anchored (db_of w' q)" for q
    using transact transaction_anchored [OF transact(2)] by (cases "q = p") (auto simp: sound_def)
  moreover have "issued E w' (generation m)" if m: "db_meta (db_of w' q) = Some m" for q m
  proof -
    obtain m0 where m0: "db_meta (db_of w q) = Some m0" "generation m0 = generation m"
    proof (cases "q = p")
      case True
      then show thesis using transaction_row [OF transact(2)] m that by (metis lineageD(1) succeeds_def)
    qed (use transact(3) m that in simp)
    have "issued E w (generation m0)" using transact.IH [OF transact.prems] m0(1) by (simp add: sound_def)
    then show ?thesis unfolding m0(2) by (rule issued_mono [OF _ transact(4)])
  qed
  ultimately show ?case by (simp add: sound_def)
next
  case (create w p w')
  have "anchored (db_of w' q)" for q
    using create creation_anchored [OF create(2)] by (cases "q = p") (auto simp: sound_def)
  moreover have "issued E w' (generation m)" if "db_meta (db_of w' q) = Some m" for q m
  proof (cases "q = p")
    case True
    then show ?thesis using create(2,4) that by (auto simp: creation_def issued_def)
  next
    case False
    then have "db_meta (db_of w q) = Some m" using create(3) that by simp
    then have "issued E w (generation m)" using create.IH [OF create.prems] by (simp add: sound_def)
    then show ?thesis by (rule issued_mono [OF _ less_imp_le [OF create(4)]])
  qed
  ultimately show ?case by (simp add: sound_def)
qed

text \<open>A stream that is there after a history under a generation already drawn was there before it.\<close>

lemma history_row:
  assumes "history E w0 w" and "sound E w0" and "inj (new_v4 E)" and "issued E w0 g"
    and "db_meta (db_of w p) = Some m" and "generation m = g"
  shows "\<exists>m0. db_meta (db_of w0 p) = Some m0 \<and> lineage m0 = lineage m \<and> (\<forall>off. within m0 off \<longrightarrow> within m off)"
  using assms
proof (induction arbitrary: m)
  case begin_history
  then show ?case by auto
next
  case (elsewhere w w')
  then show ?case by simp
next
  case (transact w q w')
  obtain m1 where m1: "db_meta (db_of w p) = Some m1" "lineage m1 = lineage m" "\<forall>off. within m1 off \<longrightarrow> within m off"
  proof (cases "p = q")
    case True
    then obtain m1 where "db_meta (db_of w p) = Some m1" "succeeds m1 m"
      using transaction_row [OF transact(2)] transact(9) by blast
    moreover from this have "printed m1"
      using history_sound [OF transact(1,6)] by (auto simp: sound_def anchored_def)
    ultimately show thesis using that succeeds_within by (metis succeeds_def)
  next
    case False
    then show thesis using that transact(3,9) by simp
  qed
  then have "generation m1 = g" using transact(10) by (metis lineageD(1))
  from transact.IH [OF transact(6-8) m1(1) this] m1(2,3) show ?case by auto
next
  case (create w q w')
  note le = history_uuids [OF create(1)]
  have "p \<noteq> q"
  proof
    assume "p = q"
    then have "generation m = new_v4 E (w_uuids w)" using create(2,10) by (auto simp: creation_def)
    with create(8,9,11) le show False by (auto simp: issued_def dest!: injD)
  qed
  with create(3,10) have "db_meta (db_of w p) = Some m" by simp
  from create.IH [OF create(7-9) this create(11)] create(4) show ?case by auto
qed

lemma lies_in_later:
  assumes "history E w0 w" and "sound E w0" and "inj (new_v4 E)" and "lies_in E w0 p g off"
  shows "lies_in E w p g off"
proof -
  note le = history_uuids [OF assms(1)]
  have g: "issued E w0 g" using assms(4) by (simp add: lies_in_def)
  show ?thesis
    unfolding lies_in_def
  proof (intro conjI allI impI)
    show "issued E w g" by (rule issued_mono [OF g le])
    fix m
    assume "db_meta (db_of w p) = Some m" "generation m = g"
    from history_row [OF assms(1-3) g this] assms(4) \<open>generation m = g\<close> show "within m off"
      by (auto simp: lies_in_def dest: lineageD(1))
  qed
qed

lemma rooted_later:
  "history E w0 w \<Longrightarrow> sound E w0 \<Longrightarrow> inj (new_v4 E) \<Longrightarrow> rooted E w0 m \<Longrightarrow> rooted E w m"
  using lies_in_later by (fastforce simp: rooted_def)

lemma history_trans: "history E u v \<Longrightarrow> history E t u \<Longrightarrow> history E t v"
proof (induction rule: history.induct)
  case (elsewhere w w')
  then show ?case by (blast intro: history.elsewhere)
next
  case (transact w p w')
  then show ?case by (blast intro: history.transact)
next
  case (create w p w')
  show ?case
    by (rule history.create [OF create.IH [OF create(7)] create(2-4)]) (use create(5,7) history_sound in blast)+
qed simp

end
