(* ===== verification/History.thy ===== *)
theory History
  imports Transactions
begin

text \<open>
  Every activity of the system is a run of the transactions of theory \<open>Transactions\<close>: the walk through
  the handlers that shows it. A handler that creates a fork has asked the source before, and the source
  has recorded the edge it answers with.
\<close>

subsection \<open>Recording\<close>

lemma frugal_history: "frugal (history E w0)"
  by (auto simp: frugal_def intro: history.elsewhere)

lemma history_commit:
  assumes "history E w0 w" and "transaction E (db_of w p) d"
  shows "history E w0 (snd (commit p d w))"
  by (rule history.transact [OF assms(1), where p = p]) (use assms(2) in \<open>simp_all add: commit_def update_actor_def\<close>)

interpretation hist: recorder "history E w0" "transaction E" for E w0
  by unfold_locales (auto simp: frugal_history history_commit)

text \<open>What a stream relies on of the streams it calls.\<close>

definition rpc_keeps :: "(world \<Rightarrow> bool) \<Rightarrow> rpc \<Rightarrow> bool" where
  "rpc_keeps I R \<longleftrightarrow> (\<forall>q a. keeps I (rpc_acquire R q a)) \<and> (\<forall>q a. keeps I (rpc_release R q a))
     \<and> (\<forall>q a. keeps I (rpc_read R q a))"

lemma rpc_keepsD:
  assumes "rpc_keeps I R"
  shows "keeps I (rpc_acquire R q a)" "keeps I (rpc_release R q r)" "keeps I (rpc_read R q s)"
  using assms by (simp_all add: rpc_keeps_def)

lemmas hist_steps = hist.tx_then hist.begin_then hist.commit_then hist.commit_last hist.event_then hist.event_if_then hist.rollback_then
  hist.steps triple_branches triple_pure triple_lifted_then

subsection \<open>The transactions of the handlers\<close>

lemma queue_transactions [intro]:
  "transaction E d d" "transaction E d (dequeue_gc_release d e)" "transaction E d (delete_fork_intent d e)"
  "transaction E d (put_fork_intent d e parent key)" "transaction E d (delete_fork_intent (enqueue_gc_release d e' parent gen) e)"
  by (auto intro!: transaction.queue simp: queues_only_def dequeue_gc_release_def delete_fork_intent_def
      put_fork_intent_def enqueue_gc_release_def)

lemma flush_loop_history:
  assumes "rpc_keeps (history E w0) R"
  shows "keeps (history E w0) (flush_loop R p gs retry)"
proof (induction gs arbitrary: retry)
  case (Cons g gs)
  have call: "keeps (history E w0) (attempt (remote (rpc_release R q a)))" for q a
    by (intro keeps_attempt hist.remote rpc_keepsD assms)
  show ?case
    unfolding flush_loop.simps
    by (rule gives_and_then_keeps [OF call] hist_steps queue_transactions Cons.IH)+
qed (simp add: gives_pure)

lemma flush_history: "rpc_keeps (history E w0) R \<Longrightarrow> keeps (history E w0) (flush_gc_releases R p)"
  unfolding flush_gc_releases_def Let_def
  by (rule hist_steps gives_and_then_keeps [OF flush_loop_history] flush_loop_history hist.maintenance_event | assumption)+

lemma visible_history:
  assumes "rpc_keeps (history E w0) R"
  shows "keeps (history E w0) (visible_meta_while_locked E R p now)"
  unfolding visible_meta_while_locked_def get_meta_tx_def
  by (rule hist_steps gives_and_then_keeps [OF flush_history [OF assms]] transaction.soft_delete transaction.remove
      | assumption | simp add: fork_edge_count_def)+

lemma touch_history: "keeps (history E w0) (touch_access p now)"
  unfolding touch_access_def by (rule hist_steps transaction.access)+

lemma history_reader: "rpc_keeps (history E w0) R \<Longrightarrow> reader (history E w0) E R"
  by unfold_locales (simp_all add: frugal_history visible_history touch_history rpc_keepsD)

lemmas hist_then = hist_steps gives_and_then_keeps [OF flush_history] gives_and_then_keeps [OF visible_history]

lemma delete_history:
  assumes "rpc_keeps (history E w0) R"
  shows "keeps (history E w0) (handle_delete E R p)"
proof -
  have step: "transaction E d (if 0 < fork_edge_count d then set_soft_deleted d else purge_stream_tx d m)"
    if "db_meta d = Some m" for d m
    using that by (auto simp: fork_edge_count_def intro: transaction.soft_delete transaction.remove)
  show ?thesis
    unfolding handle_delete_def Let_def
    by (rule hist.visible_lock [OF visible_history [OF assms]] hist_steps step flush_history [OF assms]
        gives_and_then_keeps [OF gives_branches(1)] | assumption)+
qed

lemma reconcile_loop_history:
  assumes "rpc_keeps (history E w0) R"
  shows "keeps (history E w0) (reconcile_loop E R p is)"
proof (induction "is")
  case (Cons i "is")
  have call: "keeps (history E w0) (attempt (remote (rpc_acquire R q a)))" for q a
    by (intro keeps_attempt hist.remote rpc_keepsD assms)
  have step: "transaction E d (delete_fork_intent (if b then enqueue_gc_release d e parent g else d) e)" for d b e parent g
    by (cases b) auto
  show ?case
    unfolding reconcile_loop.simps Let_def
    by (rule gives_and_then_keeps [OF call] hist_steps step Cons.IH)+
qed (simp add: gives_pure)

lemma maintenance_history:
  assumes "rpc_keeps (history E w0) R"
  shows "keeps (history E w0) (run_maintenance E R p)"
proof -
  have "keeps (history E w0) (reconcile_fork_intents E R p)"
    unfolding reconcile_fork_intents_def
    by (rule hist_steps gives_and_then_keeps [OF reconcile_loop_history [OF assms]] flush_history assms)+
  then have first: "keeps (history E w0) (if mo = None then reconcile_fork_intents E R p else ret ())" for mo :: "meta option"
    by (simp add: gives_pure)
  show ?thesis
    unfolding run_maintenance_def visible_meta_def
    by (rule gives_and_then_keeps [OF first] hist_steps gives_and_then_keeps [OF flush_history [OF assms]]
        gives_and_then_keeps [OF visible_history [OF assms]] hist.expiry_event)+
qed

subsection \<open>The source's side of a fork\<close>

lemma acquire_fresh_history:
  assumes "rpc_keeps (history E w0) R"
  shows "keeps (history E w0) (acquire_fresh E R q a)"
  unfolding acquire_fresh_def Let_def
  by (rule hist.visible_lock [OF visible_history [OF assms]] hist_steps transaction.hold | assumption | clarsimp)+

lemma acquire_history:
  assumes "rpc_keeps (history E w0) R"
  shows "keeps (history E w0) (fork_acquire E R q a)"
  unfolding fork_acquire_def
  by (rule hist_steps queue_transactions acquire_fresh_history [OF assms])+

lemma release_history:
  assumes "rpc_keeps (history E w0) R"
  shows "keeps (history E w0) (fork_release R q a)"
proof -
  have step: "transaction E d (if soft_deleted m \<and> fork_edge_count (delete_fork_edge d e) = 0
      then purge_stream_tx (delete_fork_edge d e) m else delete_fork_edge d e)" if "db_meta d = Some m" for d m e
    using that by (auto intro: transaction.unhold transaction.unhold_remove)
  show ?thesis
    unfolding fork_release_def Let_def
    by (rule hist.meta_then gives_branches gives_pure TrueI triple_branches triple_pure hist.event_if_then
        hist.begin_then hist.rollback_then hist.commit_then step hist.steps_then flush_history [OF assms] | assumption)+
qed

subsection \<open>Creating a stream\<close>

text \<open>\<open>k\<close> is the number of the identifier that has just been drawn, and nothing has happened since.\<close>

definition drawn :: "'j ext \<Rightarrow> world \<Rightarrow> string \<Rightarrow> db \<Rightarrow> nat \<Rightarrow> world \<Rightarrow> bool" where
  "drawn E w0 p d k w \<longleftrightarrow> db_of w p = d \<and> w_uuids w = Suc k \<and> history E w0 (w\<lparr>w_uuids := k\<rparr>)"

lemma uuid_then:
  assumes "\<And>k. triple (history E w0) (drawn E w0 p d k) (f (new_v4 E k)) Q"
  shows "triple (history E w0) (\<lambda>w. db_of w p = d) (and_then (new_uuid E) f) Q"
  unfolding triple_def
proof (intro allI impI)
  fix w
  assume w: "history E w0 w" "db_of w p = d"
  let ?w = "w\<lparr>w_uuids := w_uuids w + 1\<rparr>"
  have "history E w0 ?w" by (rule history.elsewhere [OF w(1)]) simp_all
  moreover have "drawn E w0 p d (w_uuids w) ?w" using w by (simp add: drawn_def)
  ultimately show "history E w0 (snd (and_then (new_uuid E) f w))
      \<and> (\<forall>x. fst (and_then (new_uuid E) f w) = Inr x \<longrightarrow> Q x (snd (and_then (new_uuid E) f w)))"
    using assms [of "w_uuids w"] by (auto simp: triple_def and_then_def new_uuid_def)
qed

text \<open>A fork that lay within its source when the history began.\<close>

definition rooted_from :: "'j ext \<Rightarrow> world \<Rightarrow> db \<Rightarrow> bool" where
  "rooted_from E w0 d \<longleftrightarrow> (\<forall>m. sound E w0 \<longrightarrow> inj (new_v4 E) \<longrightarrow> db_meta d = Some m \<longrightarrow> rooted E w0 m)"

lemma create_commit:
  assumes "creation E (new_v4 E k) d d'" and "rooted_from E w0 d'" and "gives (history E w0) (f ()) Q"
  shows "triple (history E w0) (drawn E w0 p d k) (and_then (commit p d') f) (\<lambda>x w. Q x)"
proof (rule triple_and_then)
  show "triple (history E w0) (drawn E w0 p d k) (commit p d') (\<lambda>_ w. True)"
    unfolding triple_def
  proof (intro allI impI conjI)
    fix w
    assume w: "drawn E w0 p d k w"
    have h: "history E w0 (w\<lparr>w_uuids := k\<rparr>)" using w by (simp add: drawn_def)
    show "history E w0 (snd (commit p d' w))"
      by (rule history.create [OF h, where p = p])
        (use w assms(1,2) rooted_later [OF h] in \<open>simp_all add: drawn_def commit_def update_actor_def rooted_from_def\<close>)
  qed simp
qed (use assms(3) in \<open>simp add: gives_def triple_def\<close>)

text \<open>The statements of the transactions that create a stream, one after the other.\<close>

definition creates ::
  "'j ext \<Rightarrow> string \<Rightarrow> string \<Rightarrow> (string \<times> string) option \<Rightarrow> string option \<Rightarrow> db \<Rightarrow> db \<Rightarrow> string \<Rightarrow> bool" where
  "creates E g ct origin src d d' off \<longleftrightarrow> creation E g d d'
     \<and> (\<exists>m. db_meta d' = Some m \<and> content_type m = Some ct \<and> fork_point m = origin \<and> fork_source_gen m = src
          \<and> current_offset m = off)"

lemma create_meta_row:
  assumes "create_meta d g ct ttl ex cl now ff fo fso fe fsg = Inr d'"
  obtains m where "db_meta d = None" "d' = d\<lparr>db_meta := Some m\<rparr>" "generation m = g" "content_type m = ct"
    "\<not> soft_deleted m" "forked_from m = ff" "fork_offset m = fo" "fork_source_gen m = fsg" "current_offset m = base_offset m"
  using assms that [of "the (db_meta d')"]
  by (auto simp: create_meta_def Let_def base_offset_def split: option.splits if_splits)

lemma base_printed: "current_offset m = base_offset m \<Longrightarrow> printed m"
  by (simp add: printed_def canonical_offset_eq_text(1) [symmetric])

lemma creation_meta:
  "create_meta d g (Some ct) ttl ex cl now None None fso fe fsg = Inr d' \<Longrightarrow> creates E g ct None fsg d d' ZERO_OFFSET"
  "create_meta d g (Some ct) ttl ex cl now (Some parent) (Some fo) fso fe fsg = Inr d'
     \<Longrightarrow> creates E g ct (Some (parent, fo)) fsg d d' fo"
  by (erule create_meta_row, auto simp: creates_def creation_def fork_point_def base_offset_def intro: base_printed)+

lemma advanced_printed: "printed m \<Longrightarrow> advance_offset (current_offset m) n = Inr off \<Longrightarrow> printed (m\<lparr>current_offset := off\<rparr>)"
  by (rule succeeds_printed [of m]) (auto simp: succeeds_def)

lemma creation_append:
  "creates E g ct origin src d d' off \<Longrightarrow> admits E (Some ct) b \<Longrightarrow> append_message d' off b now = Inr (d'', off')
    \<Longrightarrow> creates E g ct origin src d d'' off'"
  by (auto simp: append_message_eq creates_def creation_def result_bind_Inr_iff
      intro: advanced_printed split: if_splits)

definition optional_payload :: "'j ext \<Rightarrow> string \<Rightarrow> bytes option \<Rightarrow> bool" where
  "optional_payload E ct payload \<longleftrightarrow> (\<forall>b. payload = Some b \<longrightarrow> b \<noteq> [] \<longrightarrow> admits E (Some ct) b)"

lemma creation_optional:
  "creates E g ct origin src d d' off \<Longrightarrow> optional_payload E ct payload \<Longrightarrow> append_optional d' off payload now = Inr (d'', off')
    \<Longrightarrow> creates E g ct origin src d d'' off'"
  by (auto simp: append_optional_def optional_payload_def intro: creation_append split: option.splits if_splits)

lemma creation_intent: "creates E g ct origin src d d' off \<Longrightarrow> creation E g d (delete_fork_intent d' e)"
  by (auto simp: creates_def creation_def delete_fork_intent_def)

lemma creation_rooted:
  "creates E g ct None src d d' off \<Longrightarrow> rooted_from E w0 d'"
  "creates E g ct (Some (parent, fo)) (Some gen) d d' off \<Longrightarrow> (sound E w0 \<Longrightarrow> inj (new_v4 E) \<Longrightarrow> lies_in E w0 parent gen fo)
    \<Longrightarrow> rooted_from E w0 (delete_fork_intent d' e)"
  by (auto simp: creates_def rooted_from_def rooted_def delete_fork_intent_def)

lemma creation_statements:
  assumes "create_statements d g po ct b now = Inr (d', off)" and "optional_payload E ct (Some b)"
  shows "creates E g ct None None d d' off"
proof -
  obtain d1 where d1: "creates E g ct None None d d1 ZERO_OFFSET"
    and d': "(if b = [] then Inr (d1, ZERO_OFFSET) else append_message d1 ZERO_OFFSET b now) = Inr (d', off)"
    using assms(1) unfolding create_statements_def result_bind_Inr_iff by (metis creation_meta(1))
  show ?thesis
  proof (cases "b = []")
    case False
    with d' assms(2) show ?thesis
      using creation_append [OF d1] by (simp add: optional_payload_def)
  qed (use d1 d' in simp)
qed

lemma created: "creates E g ct origin src d d' off \<Longrightarrow> creation E g d d'"
  by (simp add: creates_def)

lemma values_admit: "b = concat (map (\<lambda>v. json_to_writer E v @ '','') vs) \<Longrightarrow> b \<noteq> [] \<Longrightarrow> admits E ct b"
  by (auto simp: admits_def)

lemma json_payload_admits:
  assumes "process_json_append E body ic = Inr b" and "b \<noteq> []"
  shows "admits E ct b"
proof (cases "json_from_slice E body")
  case (Some v)
  show ?thesis
  proof (cases v)
    case (JArray vs)
    with Some assms show ?thesis
      by (intro values_admit [of _ _ vs]) (auto simp: process_json_append_def split: if_splits)
  next
    case (JOther x)
    with Some assms show ?thesis
      by (intro values_admit [of _ _ "[v]"]) (simp_all add: process_json_append_def)
  qed
qed (use assms in \<open>simp add: process_json_append_def\<close>)

lemma early_not_payload [simp]: "early st msg \<noteq> Inr (Inr x)"
  by (simp add: early_def result_bind_Inr_iff)

lemma put_payload_admits:
  assumes "put_payload E ct body = Inr (Inr payload)"
  shows "optional_payload E ct (Some payload)"
  using assms
  by (auto simp: put_payload_def optional_payload_def intro: json_payload_admits split: if_splits sum.splits)
    (simp add: admits_def)

lemma post_payload_admits:
  assumes "post_payload E m body = Inr (Inr payload)" and "body \<noteq> []"
  shows "admits E (content_type m) payload"
proof (cases "normalize_content_type (content_type m) = json_type")
  case True
  with assms(1) have "process_json_append E body False = Inr payload"
    by (auto simp: post_payload_def split: if_splits sum.splits)
  moreover from this have "payload \<noteq> []"
    by (auto simp: process_json_append_def split: option.splits json.splits if_splits)
  ultimately show ?thesis by (rule json_payload_admits)
qed (use assms in \<open>simp add: post_payload_def admits_def\<close>)

lemma message_prefix_admits:
  assumes "message_prefix E (normalize_content_type (Some ct) = json_type) sub data = Some b"
  shows "optional_payload E ct (Some b)"
proof (cases "normalize_content_type (Some ct) = json_type")
  case True
  with assms obtain vs where "b = concat (map (\<lambda>v. json_to_writer E v @ '','') vs)"
    by (auto simp: message_prefix_def Let_def split: option.splits json.splits if_splits)
  then show ?thesis by (simp add: optional_payload_def values_admit del: concat_eq_Nil_conv)
qed (simp add: optional_payload_def admits_def)

lemma announce_history: "keeps (history E w0) (announce E p r)"
  unfolding announce_def
  by (rule hist.steps_then gives_and_then_keeps gives_branches gives_pure TrueI hist.expiry_event keeps_lift)+

lemma fork_creation_history:
  assumes "optional_payload E ct prefix" and "optional_payload E ct payload"
    and "sound E w0 \<Longrightarrow> inj (new_v4 E) \<Longrightarrow> lies_in E w0 (fo_parent_path opts) gen off"
  shows "keeps (history E w0) (fork_creation E p opts e off gen ct expiry prefix payload)"
  unfolding fork_creation_def
  by (rule hist.tx_then triple_branches hist.rollback_then gives_pure TrueI uuid_then triple_lifted_then create_commit
      | (blast intro: creation_intent creation_rooted(2) creation_optional creation_meta(2) assms))+

lemma create_stream_history:
  assumes "optional_payload E ct (Some b)"
  shows "keeps (history E w0) (create_stream E p po ct b now)"
  unfolding create_stream_def
  by (rule hist.tx_then triple_branches hist.rollback_then keeps_lift uuid_then triple_lifted_then create_commit announce_history
      | (blast intro: created creation_rooted(1) creation_statements assms))+

subsection \<open>The edge a fork is created with\<close>

text \<open>An acquisition that is answered as a success has recorded its edge, at the offset answered.\<close>

definition recorded_at :: "world \<Rightarrow> string \<Rightarrow> fork_acquire_result \<Rightarrow> bool" where
  "recorded_at w q r \<longleftrightarrow> (far_ok r \<longrightarrow> (\<exists>m e off. db_meta (db_of w q) = Some m \<and> far_source_generation r = Some (generation m)
     \<and> far_fork_offset r = Some off \<and> (e, off) \<in> set (db_fork_edges (db_of w q))))"

lemma recorded_sound: "recorded_at w q r \<Longrightarrow> sound E w \<Longrightarrow> far_ok r \<Longrightarrow> far_fork_offset r = Some off
    \<Longrightarrow> far_source_generation r = Some g \<Longrightarrow> lies_in E w q g off"
  by (fastforce simp: recorded_at_def sound_def anchored_def lies_in_def)

lemma recorded_success: "db_meta (db_of w q) = Some m \<Longrightarrow> get_fork_edge_tx (db_of w q) e = Some off \<Longrightarrow> recorded_at w q (far_success off m)"
  by (auto simp: recorded_at_def far_success_def get_fork_edge_tx_def dest: map_of_SomeD)

lemma refused_ret: "ret (far_failure e) w = (Inr r, w') \<Longrightarrow> far_ok r \<Longrightarrow> False"
  by (auto simp: ret_def far_failure_def)

lemma insert_fork_edge_recorded: "insert_fork_edge d e off = Inr (d', off') \<Longrightarrow> get_fork_edge_tx d' e = Some off'"
  by (auto simp: insert_fork_edge_def Let_def split: option.splits)

lemma edge_transaction_records:
  assumes "and_then (begin_mutation q) (\<lambda>tx. and_then (lift_result (insert_fork_edge tx e off)) (\<lambda>(tx', recorded).
      and_then (commit q tx') (\<lambda>_. ret (far_success recorded m)))) w = (Inr r, w')"
    and "db_meta (db_of w q) = Some m"
  shows "recorded_at w' q r"
proof -
  obtain d' off' where "insert_fork_edge (db_of w q) e off = Inr (d', off')" "r = far_success off' m" "db_of w' q = d'"
    using assms(1)
    by (auto simp: and_then_Inr begin_mutation_cases lift_result_def ret_def commit_def update_actor_def split: if_splits sum.splits)
  with assms(2) show ?thesis
    using insert_fork_edge_recorded recorded_success hold_frame(1) by metis
qed

lemma acquire_fresh_records:
  assumes "acquire_fresh E R q a w = (Inr r, w')" and "far_ok r"
  shows "recorded_at w' q r"
  using assms(1) unfolding acquire_fresh_def and_then_Inr [of now_ms] and_then_Inr [of "visible_meta_while_locked E R q n" for n] Let_def
  by (elim exE conjE) (auto split: option.split_asm if_split_asm
      intro: edge_transaction_records visible_meta_Some dest: refused_ret [OF _ assms(2)])

lemma acquire_records:
  assumes "fork_acquire E R q a w = (Inr r, w')"
  shows "recorded_at w' q r"
proof (cases "far_ok r")
  case True
  with assms show ?thesis
    by (auto simp: fork_acquire_def and_then_Inr begin_mutation_cases get_meta_tx_def rollback_def commit_def update_actor_def
      ret_def throw_def intro: acquire_fresh_records recorded_success split: if_splits option.splits)
qed (simp add: recorded_at_def)

definition rpc_records :: "rpc \<Rightarrow> bool" where
  "rpc_records R \<longleftrightarrow> (\<forall>q a w r w'. rpc_acquire R q a w = (Inr r, w') \<longrightarrow> recorded_at w' q r)"

lemma remote_Inr: "remote m w = (Inr x, w') \<Longrightarrow> \<exists>w1. m w1 = (Inr x, w')"
  by (rule next_fault_cases [of w]) (auto simp: remote_def and_then_def throw_def attempt_def split: fault.splits prod.splits)

text \<open>What follows an action may be seen as a history of its own.\<close>

lemma restart_then:
  assumes "keeps (history E w0) m" and "\<And>w x w1. m w = (Inr x, w1) \<Longrightarrow> keeps (history E w1) (f x)"
  shows "keeps (history E w0) (and_then m f)"
  unfolding gives_def
proof (intro allI impI conjI TrueI)
  fix w
  assume w: "history E w0 w"
  obtain r w1 where run: "m w = (r, w1)" by (cases "m w")
  then have w1: "history E w0 w1" using assms(1) w unfolding gives_def by (metis snd_conv)
  show "history E w0 (snd (and_then m f w))"
  proof (cases r)
    case (Inr x)
    have "history E w1 (snd (f x w1))"
      using assms(2) [OF run [unfolded Inr]] history.begin_history unfolding gives_def by blast
    then show ?thesis using run Inr by (simp add: and_then_def history_trans [OF _ w1])
  qed (use run w1 in \<open>simp add: and_then_def\<close>)
qed

subsection \<open>PUT\<close>

lemma release_acquired_history:
  assumes "rpc_keeps (history E w0) R"
  shows "keeps (history E w0) (release_acquired R p e parent gen)"
  unfolding release_acquired_def by (rule hist_steps queue_transactions flush_history [OF assms])+

abbreviation offers :: "'j ext \<Rightarrow> string \<Rightarrow> resp + bytes option \<Rightarrow> bool" where
  "offers E ct x \<equiv> \<forall>payload. x = Inr payload \<longrightarrow> optional_payload E ct payload"

lemma early_history: "gives (history E w0) (respond_early st msg) (offers E ct)"
  unfolding respond_early_def by (rule hist.lifted_then) (simp add: gives_pure)

lemma sub_offset_prefix_history:
  assumes R: "rpc_keeps (history E w0) R"
  shows "gives (history E w0) (sub_offset_prefix E R p opts e off gen (normalize_content_type (Some ct) = json_type)) (offers E ct)"
proof -
  have read: "keeps (history E w0) (remote (rpc_read R q r))" for q r
    by (rule hist.remote rpc_keepsD R)+
  show ?thesis
    unfolding sub_offset_prefix_def
    by (rule gives_and_then_keeps [OF read] gives_and_then_keeps [OF release_acquired_history [OF R]] early_history
        gives_branches gives_pure
      | force simp: optional_payload_def bind_eq_Some_conv dest!: message_prefix_admits)+
qed

lemma initial_payload_history:
  assumes R: "rpc_keeps (history E w0) R"
  shows "gives (history E w0) (initial_payload E R p opts e gen (normalize_content_type (Some ct) = json_type)) (offers E ct)"
  unfolding initial_payload_def
  by (rule gives_and_then_keeps [OF release_acquired_history [OF R]] early_history gives_branches gives_pure
      | force simp: optional_payload_def intro: json_payload_admits | simp add: optional_payload_def admits_def)+

lemma finish_fork_history:
  assumes R: "rpc_keeps (history E w0) R"
    and lies: "sound E w0 \<Longrightarrow> inj (new_v4 E) \<Longrightarrow> lies_in E w0 (fo_parent_path opts) gen off"
  shows "keeps (history E w0) (finish_fork E R p opts e off gen a)"
  unfolding finish_fork_def Let_def
  by (rule announce_history gives_and_then [OF sub_offset_prefix_history [OF R]] gives_and_then [OF initial_payload_history [OF R]]
      gives_and_then_keeps [OF release_acquired_history [OF R]]
      gives_and_then_keeps [OF keeps_attempt [OF fork_creation_history [OF _ _ lies]]] hist.steps | simp)+

text \<open>What a stream relies on of the streams it calls, whenever it calls them.\<close>

definition rpc_serves :: "'j ext \<Rightarrow> rpc \<Rightarrow> bool" where
  "rpc_serves E R \<longleftrightarrow> rpc_records R \<and> (\<forall>w0. rpc_keeps (history E w0) R)"

lemma create_fork_history:
  assumes "rpc_serves E R"
  shows "keeps (history E w0) (create_fork E R p opts)"
proof -
  have R: "rpc_keeps (history E w) R" for w using assms by (simp add: rpc_serves_def)
  have edge: "keeps (history E w) (fork_intent_edge E p parent key)" for w parent key
    unfolding fork_intent_edge_def by (rule hist_steps queue_transactions)+
  have refused: "keeps (history E w) (acquire_refused p e a)" for w e a
    unfolding acquire_refused_def by (rule hist_steps queue_transactions)+
  have acquire: "keeps (history E w) (remote (rpc_acquire R q a))" for w q a
    by (rule hist.remote rpc_keepsD R)+
  have finish: "keeps (history E w1) (finish_fork E R p opts e off gen r)"
    if run: "remote (rpc_acquire R (fo_parent_path opts) a) w = (Inr r, w1)" and ok: "\<not> \<not> far_ok r"
      "far_fork_offset r = Some off" "far_source_generation r = Some gen" for w a r w1 e off gen
  proof (rule finish_fork_history [OF R])
    have "recorded_at w1 (fo_parent_path opts) r"
      using assms remote_Inr [OF run] by (auto simp: rpc_serves_def rpc_records_def)
    then show "lies_in E w1 (fo_parent_path opts) gen off" if "sound E w1"
      using recorded_sound that ok by blast
  qed
  show ?thesis
    unfolding create_fork_def Let_def
    by (rule gives_branches keeps_lift gives_and_then_keeps [OF edge] restart_then [OF acquire] refused finish gives_pure | assumption)+
qed

lemma put_history:
  assumes "rpc_serves E R"
  shows "keeps (history E w0) (handle_put E R p req)"
proof -
  have R: "rpc_keeps (history E w0) R" using assms by (simp add: rpc_serves_def)
  have new: "keeps (history E w0) (put_new E p po body now)" for po body now
    unfolding put_new_def Let_def by (rule create_stream_history hist.steps put_payload_admits | simp)+
  show ?thesis
    unfolding handle_put_def
    by (rule gives_and_then_keeps [OF visible_history [OF R]] new create_fork_history [OF assms] hist.steps)+
qed

subsection \<open>POST\<close>

lemma close_tx_history:
  assumes "db_meta d = Some m" and "\<not> soft_deleted m" and "\<not> closed m"
  shows "triple (history E w0) (\<lambda>w. db_of w p = d) (close_tx E p m ph now) (\<lambda>x w. True)"
  unfolding close_tx_def Let_def
  by (rule hist.begin_then triple_branches)+
    (auto split: producer_validation.split
      intro!: hist.commit_then hist.rollback_then hist.steps transaction.close_as [OF assms])

lemma close_only_history:
  assumes "rpc_keeps (history E w0) R"
  shows "keeps (history E w0) (handle_close_only E R p producer)"
  unfolding handle_close_only_def
  by (rule hist.steps_then(7) hist.visible_lock [OF visible_history [OF assms]] keeps_lift triple_branches triple_pure
      hist.begin_then hist.commit_then transaction.close close_tx_history hist.steps | assumption)+

lemma append_tx_history:
  assumes "db_meta d = Some m" and "\<not> soft_deleted m" and "\<not> closed m" and "admits E (content_type m) payload"
  shows "triple (history E w0) (\<lambda>w. db_of w p = d) (append_tx E p producer seq payload cl now) (\<lambda>x w. True)"
  unfolding append_tx_def get_meta_tx_def
  apply (rule hist.begin_then)
  apply (simp add: assms(1))
  apply (rule triple_branches hist.rollback_then keeps_lift triple_lifted_then)+
  apply (rule hist.commit_then)
   apply (rule transaction.extend [OF assms(1-3) _ _ assms(4)])
     apply (simp, simp, simp)
  apply (rule hist.steps)+
  done

lemma post_history:
  assumes "rpc_keeps (history E w0) R"
  shows "keeps (history E w0) (handle_post E R p req)"
proof -
  have locked: "keeps (history E w0) (post_locked E R p producer ct seq body cl)" if "body \<noteq> []" for producer ct seq body cl
    unfolding post_locked_def
    by (rule hist.steps_then(7) hist.visible_lock [OF visible_history [OF assms]] keeps_lift triple_branches triple_pure
        triple_lifted_then append_tx_history post_payload_admits that | assumption | simp)+
  show ?thesis
    unfolding handle_post_def by (rule locked close_only_history [OF assms] hist.steps | assumption | simp)+
qed

subsection \<open>The whole system\<close>

lemma rpc_at_history: "env_in (keeps (history E w0)) Y \<Longrightarrow> rpc_keeps (history E w0) (rpc_at E n Y depth)"
proof (induction depth)
  case (Suc depth)
  then have R: "rpc_keeps (history E w0) (rpc_at E n Y depth)" by simp
  show ?case
    using acquire_history [OF R] release_history [OF R] reader.read_range [OF history_reader [OF R] Suc.prems]
    by (simp add: rpc_keeps_def)
qed (simp add: rpc_keeps_def gives_pure)

lemma rpc_at_records: "rpc_records (rpc_at E n Y depth)"
  by (cases depth) (auto simp: rpc_records_def throw_def intro: acquire_records)

interpretation history_reads: reader "history E w0" E "rpc_at E n quiet depth" for E w0 n depth
  by (rule history_reader [OF rpc_at_history]) simp

lemma keeps_tick_history: "keeps (history E w0) (tick k)" "keeps (history E w0) (set_faults fs)"
  by (auto simp: gives_def tick_def set_faults_def intro: history.elsewhere)

lemma env_in_all: "env_in (\<lambda>a. P a \<and> (\<forall>x. Q x a)) Y \<Longrightarrow> env_in (Q x) Y"
  by (simp add: env_in_def)

lemma turns_in_all: "turns_in (\<lambda>a. P a \<and> (\<forall>x. Q x a)) Ts \<Longrightarrow> turns_in (Q x) Ts"
  by (auto simp: turns_in_def list_all_iff env_in_def)

lemma activity_keeps_history: "activity E a \<Longrightarrow> keeps (history E w0) a"
proof (induction a arbitrary: w0 rule: activity.induct)
  case (serve a Y Y1 Y2 L Ts n depth rnd aid p req)
  then have R: "rpc_keeps (history E w) (rpc_at E n Y depth)" for w
    by (intro rpc_at_history) (auto dest: env_in_all)
  then have serves: "rpc_serves E (rpc_at E n Y depth)" by (simp add: rpc_serves_def rpc_at_records)
  from serve have "keeps (history E w0) (on_fetch_response E n (rpc_at E n Y depth) Y1 L Y2 Ts rnd aid p req)"
    by (intro reader.dispatch [OF history_reader [OF R]] put_history [OF serves] post_history [OF R] delete_history [OF R])
      (auto dest: env_in_all turns_in_all)
  with serve show ?case by (intro gives_and_then_keeps keeps_attempt) auto
next
  case (maintain a Y n depth p)
  then have "keeps (history E w0) (run_maintenance E (rpc_at E n Y depth) p)"
    by (intro maintenance_history rpc_at_history) (auto dest: env_in_all)
  with maintain show ?case by (intro gives_and_then_keeps keeps_attempt) auto
qed (auto intro!: gives_and_then_keeps gives_pure keeps_tick_history)

text \<open>Every activity is a run of transactions.\<close>

lemma activity_history: "activity E a \<Longrightarrow> history E w (snd (a w))"
  using activity_keeps_history [of E a w] by (auto simp: gives_def intro: history.begin_history)

lemma reachable_history: "reachable E w \<Longrightarrow> \<exists>t. history E (initial_world t) w"
  by (auto simp: reachable_def intro: activity_history)

end
