(* ===== verification/Specification.thy ===== *)
theory Specification
  imports History "HOL-Library.Sublist"
begin

text \<open>
  What a stream is to its clients, and that the program implements it. The abstract stream is an
  append-only log with a generation, the point it was forked from if it was, a content type that says
  what messages it admits, two flags and the set of forks that hold it; \<open>spec_step\<close> says what can happen to it. Every activity of the system,
  seen at any one stream, is a sequence of such steps; what no sequence of steps can do, the system
  cannot do either.
\<close>

datatype stream =
    Absent
  | Stream (stream_generation: string) (stream_origin: "(string \<times> string) option") (stream_type: "string option") (stream_log: "message list")
      (sealed: bool) (deleted: bool) (holders: "string set")

inductive spec_step :: "(string option \<Rightarrow> bytes \<Rightarrow> bool) \<Rightarrow> (string \<Rightarrow> bool) \<Rightarrow> stream \<Rightarrow> stream \<Rightarrow> bool"
  for admit :: "string option \<Rightarrow> bytes \<Rightarrow> bool" and fresh :: "string \<Rightarrow> bool" where
  spec_create: "fresh g \<Longrightarrow> list_all (admit t \<circ> msg_data) ms \<Longrightarrow> spec_step admit fresh Absent (Stream g f t ms c False {})"
| spec_append: "admit t (msg_data m) \<Longrightarrow> spec_step admit fresh (Stream g f t ms False False hs) (Stream g f t (ms @ [m]) c False hs)"
| spec_seal: "spec_step admit fresh (Stream g f t ms c False hs) (Stream g f t ms True False hs)"
| spec_hold: "spec_step admit fresh (Stream g f t ms c False hs) (Stream g f t ms c False (insert e hs))"
| spec_release: "spec_step admit fresh (Stream g f t ms c x hs) (Stream g f t ms c x (hs - {e}))"
| spec_mark: "hs \<noteq> {} \<Longrightarrow> spec_step admit fresh (Stream g f t ms c x hs) (Stream g f t ms c True hs)"
| spec_remove: "spec_step admit fresh (Stream g f t ms c x {}) Absent"

abbreviation spec_run :: "(string option \<Rightarrow> bytes \<Rightarrow> bool) \<Rightarrow> (string \<Rightarrow> bool) \<Rightarrow> stream \<Rightarrow> stream \<Rightarrow> bool" where
  "spec_run admit fresh \<equiv> (spec_step admit fresh)\<^sup>*\<^sup>*"

text \<open>The abstract stream that a database holds.\<close>

definition view :: "db \<Rightarrow> stream" where
  "view d = (case db_meta d of
      None \<Rightarrow> Absent
    | Some m \<Rightarrow> Stream (generation m) (fork_point m) (content_type m) (db_messages d) (closed m) (soft_deleted m) (fst ` set (db_fork_edges d)))"

lemma view_simps:
  "db_meta d = None \<Longrightarrow> view d = Absent"
  "db_meta d = Some m \<Longrightarrow>
     view d = Stream (generation m) (fork_point m) (content_type m) (db_messages d) (closed m) (soft_deleted m) (fst ` set (db_fork_edges d))"
  by (simp_all add: view_def)

subsection \<open>Transactions are steps\<close>

lemma removed: "view (purge_stream_tx d m) = Absent" "tidy (purge_stream_tx d m)"
  by (auto simp: view_def tidy_def purge_stream_tx_def purge_def split: option.split)

lemma steps1: "spec_step A F s s' \<Longrightarrow> spec_run A F s s'"
  by blast

lemma transaction_refines:
  assumes "transaction E d d'" and "tidy d"
  shows "spec_run (admits E) F (view d) (view d')" and "tidy d'"
proof -
  have "spec_run (admits E) F (view d) (view d') \<and> tidy d'"
    using assms
  proof (cases rule: transaction.cases)
    case queue
    then have "view d' = view d" by (simp add: queues_only_def view_def split: option.split)
    with queue assms(2) show ?thesis by (simp add: queues_only_def tidy_def)
  next
    case (access now)
    then show ?thesis using assms(2)
      by (auto simp: touch_def view_def tidy_def update_meta_frame split: option.split)
  next
    case soft_delete
    then have "fst ` set (db_fork_edges d) \<noteq> {}" by simp
    with soft_delete assms(2) show ?thesis
      by (cases "db_meta d")
        (auto simp: set_soft_deleted_def view_def tidy_def update_meta_frame intro!: steps1 spec_mark)
  next
    case (remove m)
    then show ?thesis by (simp add: removed view_simps(2) steps1 spec_remove)
  next
    case (hold m e off recorded)
    then have d': "db_meta d' = Some m" "db_messages d' = db_messages d"
      and "fst ` set (db_fork_edges d') = insert e (fst ` set (db_fork_edges d))"
      using hold_frame [OF hold(3)] hold(1) by simp_all
    with hold show ?thesis by (simp add: view_simps(2) tidy_def steps1 spec_hold)
  next
    case (unhold m e)
    then have "fst ` set (db_fork_edges d') = fst ` set (db_fork_edges d) - {e}"
      by (auto simp: delete_fork_edge_def)
    with unhold show ?thesis by (simp add: view_def tidy_def delete_fork_edge_def steps1 spec_release)
  next
    case (unhold_remove m e)
    let ?hs = "fst ` set (db_fork_edges d)"
    have "?hs - {e} = {}"
      using unhold_remove by (auto simp: delete_fork_edge_def fork_edge_count_def filter_empty_conv)
    then have "spec_step (admits E) F (view d) (Stream (generation m) (fork_point m) (content_type m) (db_messages d) (closed m) True {})"
      using spec_release [of "admits E" F "generation m" "fork_point m" "content_type m" "db_messages d" "closed m" True ?hs e] unhold_remove
      by (simp only: view_simps(2))
    then have "spec_run (admits E) F (view d) (Stream (generation m) (fork_point m) (content_type m) (db_messages d) (closed m) True {})"
      by (rule steps1)
    also have "spec_run (admits E) F \<dots> Absent" by (rule steps1 [OF spec_remove])
    finally show ?thesis using unhold_remove by (simp add: removed)
  next
    case (close m now)
    then show ?thesis
      by (auto simp: touch_def set_closed_def view_def tidy_def update_meta_frame intro!: steps1 spec_seal)
  next
    case (close_as m ph before prior d1 now st by')
    then show ?thesis
      using get_producer_state_frame [OF close_as(5)]
      by (auto simp: touch_def set_closed_def view_def tidy_def update_meta_frame commit_producer_state_keeps
          intro!: steps1 spec_seal)
  next
    case (extend m producer now accepted d1 seq payload d2 off close_stream)
    obtain m' where m': "db_meta d' = Some m'" "lineage m' = lineage m" "content_type m' = content_type m"
      "closed m' = (closed m \<or> close_stream)" "soft_deleted m' = soft_deleted m"
      "db_messages d' = db_messages d @ [\<lparr>msg_offset = off, msg_data = payload, msg_ts = now\<rparr>]"
      "db_fork_edges d' = db_fork_edges d"
      using extend_frame [OF extend(2,5,8)] extend(1) by metis
    note m' = m'(1,3-) lineageD(1,2) [OF m'(2)]
    then show ?thesis using extend(2-4,7) by (simp add: view_simps(2) tidy_def steps1 spec_append)
  qed
  then show "spec_run (admits E) F (view d) (view d')" "tidy d'" by auto
qed

lemma creation_refines:
  assumes "creation E g d d'" and "tidy d" and "F g"
  shows "spec_run (admits E) F (view d) (view d')" and "tidy d'"
  using assms by (auto simp: creation_def tidy_def view_simps intro!: steps1 spec_create)

subsection \<open>Histories are runs of the specification\<close>

text \<open>The generations of the streams created from now on: the identifiers not drawn yet.\<close>

definition unused :: "'j ext \<Rightarrow> world \<Rightarrow> string \<Rightarrow> bool" where
  "unused E w g \<longleftrightarrow> (\<exists>k \<ge> w_uuids w. g = new_v4 E k)"

lemma history_refines:
  assumes "history E w0 w" and "\<And>p. tidy (db_of w0 p)"
  shows "w_uuids w0 \<le> w_uuids w \<and> (\<forall>p. tidy (db_of w p) \<and> spec_run (admits E) (unused E w0) (view (db_of w0 p)) (view (db_of w p)))"
  using assms(1)
proof induction
  case begin_history
  then show ?case using assms(2) by simp
next
  case (elsewhere w w')
  then show ?case by auto
next
  case (transact w p w')
  have "tidy (db_of w' q) \<and> spec_run (admits E) (unused E w0) (view (db_of w0 q)) (view (db_of w' q))" for q
    using transact transaction_refines(1) [OF transact(2), of "unused E w0"] transaction_refines(2) [OF transact(2)]
    by (cases "q = p") (auto intro: rtranclp_trans)
  then show ?case using transact by auto
next
  case (create w p w')
  have "unused E w0 (new_v4 E (w_uuids w))" using create by (auto simp: unused_def)
  then have "tidy (db_of w' q) \<and> spec_run (admits E) (unused E w0) (view (db_of w0 q)) (view (db_of w' q))" for q
    using create creation_refines(1) [OF create(2), of "unused E w0"] creation_refines(2) [OF create(2), of "unused E w0"]
    by (cases "q = p") (auto intro: rtranclp_trans)
  then show ?case using create by auto
qed

text \<open>Generations in use: each stream has its own, and all have been drawn.\<close>

definition drawn_generations :: "'j ext \<Rightarrow> world \<Rightarrow> bool" where
  "drawn_generations E w \<longleftrightarrow>
     (\<forall>p m. db_meta (db_of w p) = Some m \<longrightarrow> (\<exists>k < w_uuids w. generation m = new_v4 E k))
     \<and> (inj (new_v4 E) \<longrightarrow> (\<forall>p q m m'. db_meta (db_of w p) = Some m \<longrightarrow> db_meta (db_of w q) = Some m'
          \<longrightarrow> generation m = generation m' \<longrightarrow> p = q))"

lemma transaction_generation:
  "transaction E d d' \<Longrightarrow> db_meta d' = Some m' \<Longrightarrow> \<exists>m. db_meta d = Some m \<and> generation m = generation m'"
  using transaction_row by (metis lineageD(1) succeeds_def)

lemma history_generations:
  assumes "history E (initial_world t) w"
  shows "drawn_generations E w"
  using assms
proof induction
  case begin_history
  then show ?case by (simp add: drawn_generations_def initial_world_def empty_actor_def empty_db_def)
next
  case (elsewhere w w')
  then show ?case by (fastforce simp: drawn_generations_def intro: less_le_trans)
next
  case (transact w p w')
  then have old: "\<exists>m0. db_meta (db_of w q) = Some m0 \<and> generation m0 = generation m"
    if "db_meta (db_of w' q) = Some m" for q m
    using that transaction_generation [OF transact(2)] by (cases "q = p") auto
  have "\<exists>k < w_uuids w'. generation m = new_v4 E k" if "db_meta (db_of w' q) = Some m" for q m
    using old [OF that] transact(4,5) by (fastforce simp: drawn_generations_def intro: less_le_trans)
  moreover have "a = b" if "inj (new_v4 E)" and m: "db_meta (db_of w' a) = Some m" "db_meta (db_of w' b) = Some m'"
      "generation m = generation m'" for a b m m'
    using old [OF m(1)] old [OF m(2)] m(3) that(1) transact(5) by (fastforce simp: drawn_generations_def)
  ultimately show ?case by (auto simp: drawn_generations_def)
next
  case (create w p w')
  have new: "generation m = new_v4 E (w_uuids w)" if "db_meta (db_of w' p) = Some m" for m
    using create(2) that by (auto simp: creation_def)
  have old: "\<exists>k < w_uuids w. generation m = new_v4 E k" if "db_meta (db_of w' q) = Some m" "q \<noteq> p" for q m
    using create that by (auto simp: drawn_generations_def)
  have "\<exists>k < w_uuids w'. generation m = new_v4 E k" if "db_meta (db_of w' q) = Some m" for q m
    using new old [OF that] create(4) that by (cases "q = p") (auto intro: less_trans)
  moreover have "a = b" if "inj (new_v4 E)" and m: "db_meta (db_of w' a) = Some m" "db_meta (db_of w' b) = Some m'"
      "generation m = generation m'" for a b m m'
  proof (rule ccontr)
    assume "a \<noteq> b"
    show False
    proof (cases "a = p \<or> b = p")
      case True
      then show False using \<open>a \<noteq> b\<close> that(1) m new old by (metis injD less_irrefl)
    next
      case False
      with create(3) m have "db_meta (db_of w a) = Some m" "db_meta (db_of w b) = Some m'" by auto
      with create.IH that(1) m(3) \<open>a \<noteq> b\<close> show False by (auto simp: drawn_generations_def)
    qed
  qed
  ultimately show ?case by (auto simp: drawn_generations_def)
qed


lemma reachable_tidy: "reachable E w \<Longrightarrow> tidy (db_of w p)"
  by (rule wf_tidy [OF reachable_wf_db])


subsection \<open>What the specification promises\<close>

definition follows :: "(string \<Rightarrow> bool) \<Rightarrow> stream \<Rightarrow> stream \<Rightarrow> bool" where
  "follows fresh s s' \<longleftrightarrow>
     (case s' of
        Absent \<Rightarrow> True
      | Stream g' f' t' ms' c' x' hs' \<Rightarrow> fresh g'
          \<or> (case s of
               Absent \<Rightarrow> False
             | Stream g f t ms c x hs \<Rightarrow> g' = g \<and> f' = f \<and> t' = t \<and> prefix ms ms' \<and> (c \<longrightarrow> c' \<and> ms' = ms)
                 \<and> (x \<longrightarrow> x' \<and> ms' = ms \<and> c' = c \<and> hs' \<subseteq> hs)))"

lemma spec_run_follows: "spec_run A F s s' \<Longrightarrow> follows F s s'"
proof (induction rule: rtranclp_induct)
  case base
  then show ?case by (auto simp: follows_def split: stream.split)
next
  case (step s1 s2)
  from step(2,3) show ?case
    by (cases rule: spec_step.cases) (auto simp: follows_def split: stream.splits)
qed

text \<open>What happens to a stream as long as it keeps its generation.\<close>

lemma log_kept:
  assumes "history E (initial_world t) w" and "history E w w'" and "inj (new_v4 E)"
    and "db_meta (db_of w p) = Some m" and "db_meta (db_of w' p) = Some m'"
    and "generation m' = generation m"
  shows "prefix (db_messages (db_of w p)) (db_messages (db_of w' p))
    \<and> content_type m' = content_type m \<and> fork_point m' = fork_point m
    \<and> (closed m \<longrightarrow> closed m' \<and> db_messages (db_of w' p) = db_messages (db_of w p))
    \<and> (soft_deleted m \<longrightarrow> soft_deleted m' \<and> db_messages (db_of w' p) = db_messages (db_of w p))"
proof -
  have "tidy (db_of (initial_world t) q)" for q
    by (simp add: tidy_def initial_world_def empty_actor_def empty_db_def)
  then have tidy: "tidy (db_of w q)" for q using history_refines [OF assms(1)] by blast
  from history_generations [OF assms(1)] assms(4) have "\<exists>k < w_uuids w. generation m = new_v4 E k"
    unfolding drawn_generations_def by blast
  then obtain k where "k < w_uuids w" "generation m = new_v4 E k" by blast
  then have "\<not> unused E w (generation m')"
    using assms(3,6) by (auto simp: unused_def dest!: injD)
  moreover have "follows (unused E w) (view (db_of w p)) (view (db_of w' p))"
    using history_refines [OF assms(2) tidy] by (blast intro: spec_run_follows)
  ultimately show ?thesis using assms(4-6) by (auto simp: follows_def view_simps)
qed

text \<open>
  C3. The log is durable. As long as a stream keeps its generation, messages are neither lost nor
  changed nor reordered: the log from before is a prefix of the log from after; a closed stream
  stays closed and its log as it is, and so does a deleted one that its forks still read. The content
  type and the point it was forked from stay as they were when the stream was created.
  (Identifiers are drawn without repetition.)
\<close>

theorem log_is_durable:
  assumes "reachable E w" and "activity E a" and "inj (new_v4 E)"
    and "db_meta (db_of w p) = Some m" and "db_meta (db_of (snd (a w)) p) = Some m'"
    and "generation m' = generation m"
  shows "prefix (db_messages (db_of w p)) (db_messages (db_of (snd (a w)) p))
    \<and> content_type m' = content_type m \<and> fork_point m' = fork_point m
    \<and> (closed m \<longrightarrow> closed m' \<and> db_messages (db_of (snd (a w)) p) = db_messages (db_of w p))
    \<and> (soft_deleted m \<longrightarrow> soft_deleted m' \<and> db_messages (db_of (snd (a w)) p) = db_messages (db_of w p))"
proof -
  obtain t where t: "history E (initial_world t) w" using reachable_history [OF assms(1)] by blast
  show ?thesis by (rule log_kept [OF t activity_history [OF assms(2)] assms(3-6)])
qed

text \<open>
  C14. A generation belongs to one stream: in a reachable world two streams never share one, so a
  reader that compares generations notices that a stream has been deleted and created again.
\<close>

theorem generations_are_unique:
  assumes "reachable E w" and "inj (new_v4 E)"
    and "db_meta (db_of w p) = Some m" and "db_meta (db_of w q) = Some m'"
  shows "generation m = generation m' \<longleftrightarrow> p = q"
proof -
  obtain t where "history E (initial_world t) w" using reachable_history [OF assms(1)] by blast
  from history_generations [OF this] assms(2-4) show ?thesis by (auto simp: drawn_generations_def)
qed

subsection \<open>Logs are well typed\<close>

definition well_typed :: "(string option \<Rightarrow> bytes \<Rightarrow> bool) \<Rightarrow> stream \<Rightarrow> bool" where
  "well_typed admit s \<longleftrightarrow>
     (case s of Absent \<Rightarrow> True | Stream g f t ms c x hs \<Rightarrow> list_all (admit t \<circ> msg_data) ms)"

lemma spec_run_well_typed: "spec_run A F s s' \<Longrightarrow> well_typed A s \<Longrightarrow> well_typed A s'"
proof (induction rule: rtranclp_induct)
  case (step s1 s2)
  from step(2) step.IH [OF step.prems] show ?case
    by (cases rule: spec_step.cases) (simp_all add: well_typed_def)
qed

lemma initial_view: "view (db_of (initial_world t) p) = Absent" "tidy (db_of (initial_world t) p)"
  by (simp_all add: view_def tidy_def initial_world_def empty_actor_def empty_db_def)

text \<open>
  C7. Logs are well typed. No message is empty; and in a stream of JSON every message, whether a client
  has sent it in a request of its own, it came with the creation of the stream, or it was cut out of the
  source of a fork, is a run of JSON values, each followed by a comma, so that a read of any part of the
  log can put brackets around it.
\<close>

theorem logs_are_well_typed:
  assumes "reachable E w" and "db_meta (db_of w p) = Some m" and "x \<in> set (db_messages (db_of w p))"
  shows "msg_data x \<noteq> []
    \<and> (is_json_stream m \<longrightarrow> (\<exists>vs. msg_data x = concat (map (\<lambda>v. json_to_writer E v @ '','') vs)))"
proof -
  obtain t where "history E (initial_world t) w" using reachable_history [OF assms(1)] by blast
  then have "spec_run (admits E) (unused E (initial_world t)) Absent (view (db_of w p))"
    using history_refines [of E "initial_world t" w] by (simp add: initial_view)
  then have "well_typed (admits E) (view (db_of w p))"
    by (rule spec_run_well_typed) (simp add: well_typed_def)
  with assms(2,3) show ?thesis
    by (auto simp: well_typed_def view_simps list_all_iff admits_def is_json_stream_def)
qed

end
