(* ===== verification/Inheritance.thy ===== *)
theory Inheritance
  imports Specification
begin

text \<open>
  What a fork may rely on. A fork is created within the log of its source, and from then on the part
  that it shares with its source never changes, whatever happens to either of them, as long as the
  source is the stream it was forked from: what a reader has seen of a fork, through any number of
  sources, it will see again.
\<close>

subsection \<open>Forks start within their sources\<close>

lemma initial_sound: "sound E (initial_world t)"
  by (simp add: sound_def anchored_def tidy_def initial_world_def empty_actor_def empty_db_def)

lemma rooted_lineage: "rooted E w m \<Longrightarrow> lineage m' = lineage m \<Longrightarrow> rooted E w m'"
  by (simp add: rooted_def lineage_def)

lemma history_rooted:
  assumes "history E (initial_world t) w" and "inj (new_v4 E)" and "db_meta (db_of w p) = Some m"
  shows "rooted E w m"
  using assms
proof (induction arbitrary: p m)
  case begin_history
  then show ?case by (simp add: initial_world_def empty_actor_def empty_db_def)
next
  case (elsewhere w w')
  have "history E w w'" by (rule history.elsewhere [OF history.begin_history elsewhere.hyps(2,3)])
  from rooted_later [OF this history_sound [OF elsewhere.hyps(1) initial_sound] elsewhere.prems(1)]
  show ?case using elsewhere.IH [OF elsewhere.prems(1)] elsewhere.hyps(2) elsewhere.prems(2) by simp
next
  case (transact w q w')
  have step: "history E w w'" by (rule history.transact [OF history.begin_history transact.hyps(2-4)])
  obtain m0 where m0: "db_meta (db_of w p) = Some m0" "lineage m = lineage m0"
  proof (cases "p = q")
    case True
    then show thesis using that transaction_row [OF transact.hyps(2)] transact.prems(2) by (auto simp: succeeds_def)
  qed (use that transact.hyps(3) transact.prems(2) in simp)
  from rooted_later [OF step history_sound [OF transact.hyps(1) initial_sound] transact.prems(1)]
  show ?case using rooted_lineage [OF _ m0(2)] transact.IH [OF transact.prems(1) m0(1)] by blast
next
  case (create w q w')
  have step: "history E w w'"
    by (rule history.create [OF history.begin_history create.hyps(2-4)])
      (assumption | rule create.hyps(5) [OF initial_sound])+
  have "rooted E w m"
  proof (cases "p = q")
    case True
    then show ?thesis using create.hyps(5) [OF initial_sound create.prems(1)] create.prems(2) by simp
  qed (use create.IH [OF create.prems(1)] create.hyps(3) create.prems(2) in simp)
  then show ?case
    by (rule rooted_later [OF step history_sound [OF create.hyps(1) initial_sound] create.prems(1)])
qed

text \<open>
  C5. A fork starts within its source. In every reachable world a fork names the generation of the stream
  it was forked from, and as long as that stream is there, the fork offset is not behind the end of its
  log, however the request for the fork, its retries and lost replies have interleaved with deletions and
  new creations of the source. (Identifiers are drawn without repetition, and the offsets have the form the
  program prints.)
\<close>

theorem fork_starts_within_source:
  assumes "reachable E w" and "inj (new_v4 E)" and "db_meta (db_of w p) = Some m"
    and "fork_point m = Some (source, off)" and "canonical_offset off"
    and "db_meta (db_of w source) = Some m'" and "fork_source_gen m = Some (generation m')" and "canonical_offset (base_offset m')"
  shows "offset_val off \<le> offset_val (current_offset m')"
proof -
  obtain t where "history E (initial_world t) w" using reachable_history [OF assms(1)] by blast
  from history_rooted [OF this assms(2,3)] assms(4-8) show ?thesis
    by (auto simp: rooted_def lies_in_def within_def)
qed

subsection \<open>The shared part stays\<close>

text \<open>Every stream of the chain of sources is the one that was forked.\<close>

fun unbroken :: "nat \<Rightarrow> world \<Rightarrow> string \<Rightarrow> bool" where
  "unbroken 0 w p \<longleftrightarrow> False"
| "unbroken (Suc n) w p \<longleftrightarrow>
     (case db_meta (db_of w p) of
        None \<Rightarrow> True
      | Some m \<Rightarrow>
          (case fork_point m of
             None \<Rightarrow> True
           | Some (parent, off) \<Rightarrow>
               fork_source_gen m \<noteq> None \<and> map_option generation (db_meta (db_of w parent)) = fork_source_gen m
               \<and> unbroken n w parent))"

lemma regular_base:
  assumes "regular_chain n w p" and "db_meta (db_of w p) = Some m"
  shows "canonical_offset (base_offset m)" and "offset_val (current_offset m) < 10 ^ 16"
proof -
  obtain k where "n = Suc k" using assms(1) by (cases n) simp_all
  with assms show "canonical_offset (base_offset m)" "offset_val (current_offset m) < 10 ^ 16"
    using canonical_offset_text [of 0]
    by (auto simp: fork_point_def base_offset_def ZERO_OFFSET_eq split: option.splits)
qed

lemma log_grows:
  assumes wf: "wf_db (db_of w p)" "wf_db (db_of w' p)" and m: "db_meta (db_of w p) = Some m" "db_meta (db_of w' p) = Some m'"
    and "lineage m = lineage m'" and log: "db_messages (db_of w' p) = db_messages (db_of w p) @ new"
  shows "offset_val (current_offset m) \<le> offset_val (current_offset m')"
  using wf_log_Some(2) [OF wf_db_log [OF wf(1)] m(1)] wf_log_Some(2) [OF wf_db_log [OF wf(2)] m(2)]
    lineageD(4) [OF assms(5)] log_end_ge by (simp add: log)

lemma current_canonical:
  assumes "wf_db (db_of w p)" and "regular_chain n w p" and "db_meta (db_of w p) = Some m"
  shows "canonical_offset (current_offset m)"
proof (cases "db_messages (db_of w p) = []")
  case True
  then show ?thesis
    using wf_db_log [OF assms(1)] assms(3) regular_base(1) [OF assms(2,3)] by (simp add: wf_log_def)
next
  case False
  note wf = wf_log_Some [OF wf_db_log [OF assms(1)] assms(3)]
  have cur: "current_offset m = msg_offset (last (db_messages (db_of w p)))"
    using wf_db_log [OF assms(1)] assms(3) False by (simp add: wf_log_def)
  have "current_offset m = offset_text (offset_val (current_offset m))"
    unfolding cur using framed_offset_val [OF wf(3), of "last (db_messages (db_of w p))"] False by simp
  then show ?thesis using canonical_offset_text regular_base(2) [OF assms(2,3)] by metis
qed

text \<open>What is appended to the source comes behind every offset that was within it.\<close>

lemma appended_behind:
  assumes wf: "wf_db (db_of w p)" "wf_db (db_of w' p)" and m: "db_meta (db_of w p) = Some m" "db_meta (db_of w' p) = Some m'"
    and "lineage m = lineage m'" and log: "db_messages (db_of w' p) = db_messages (db_of w p) @ new"
    and "within m off" and off: "canonical_offset off" and "regular_chain n w' p" and x: "x \<in> set new"
  shows "off < msg_offset x"
proof -
  note base = regular_base [OF assms(9) m(2)] lineageD(4) [OF assms(5)]
  note old = wf_log_Some [OF wf_db_log [OF wf(1)] m(1)]
  note now = wf_log_Some [OF wf_db_log [OF wf(2)] m(2)]
  have framed: "framed (log_end (offset_val (base_offset m)) (db_messages (db_of w p))) new"
    using now(3) base(3) by (simp add: log framed_append)
  have "offset_val off \<le> log_end (offset_val (base_offset m)) (db_messages (db_of w p))"
    using assms(7) off base old(2) by (simp add: within_def)
  with framed_offset_val [OF framed x] have val: "offset_val off < offset_val (msg_offset x)"
    "msg_offset x = offset_text (offset_val (msg_offset x))" by auto
  have "x \<in> set (db_messages (db_of w' p))" using x by (simp add: log)
  from framed_offset_val [OF now(3) this] now(2) base(2) have "offset_val (msg_offset x) < 10 ^ 16" by simp
  then have "canonical_offset (msg_offset x)" using canonical_offset_text val(2) by metis
  with val(1) off show ?thesis by (simp add: canonical_offset_less_iff)
qed

lemma view_kept:
  assumes t: "history E (initial_world t) w" and h: "history E w w'" and wf: "wf_world w" "wf_world w'" and inj: "inj (new_v4 E)"
  shows "db_meta (db_of w p) = Some m \<Longrightarrow> db_meta (db_of w' p) = Some m' \<Longrightarrow> generation m' = generation m
    \<Longrightarrow> regular_chain n w' p \<Longrightarrow> unbroken n w' p
    \<Longrightarrow> (\<exists>new. db_messages (db_of w' p) = db_messages (db_of w p) @ new \<and> stitched_log n w' p = stitched_log n w p @ new)
      \<and> regular_chain n w p \<and> lineage m = lineage m'"
proof (induction n arbitrary: p m m')
  case (Suc n)
  have sound: "sound E w" by (rule history_sound [OF t initial_sound])
  have lineage: "lineage mq = lineage mq'" if "db_meta (db_of w q) = Some mq" "db_meta (db_of w' q) = Some mq'" "issued E w (generation mq')"
    for q mq mq' using history_row [OF h sound inj that(3,2) refl] that(1) by auto
  have "issued E w (generation m')" using sound Suc.prems(1,3) by (simp add: sound_def)
  then have same: "lineage m = lineage m'" by (rule lineage [OF Suc.prems(1,2)])
  obtain new where new: "db_messages (db_of w' p) = db_messages (db_of w p) @ new"
    using log_kept [OF t h inj Suc.prems(1-3)] by (auto simp: prefix_def)
  have wfq: "wf_db (db_of w q)" "wf_db (db_of w' q)" for q using wf by (simp_all add: wf_world_def)
  have small: "offset_val (current_offset m) < 10 ^ 16"
    using log_grows [OF wfq Suc.prems(1,2) same new] regular_base(2) [OF Suc.prems(4,2)] by simp
  show ?case
  proof (cases "fork_point m'")
    case None
    with new small same Suc.prems(1,2) lineageD(2) [OF same] show ?thesis by simp
  next
    case (Some x)
    then obtain parent off where x: "fork_point m' = Some (parent, off)" by (cases x) auto
    with Suc.prems(2,4,5) obtain mp' where mp': "db_meta (db_of w' parent) = Some mp'" "fork_source_gen m' = Some (generation mp')"
      and chain: "canonical_offset off" "regular_chain n w' parent" "unbroken n w' parent" by auto
    have "rooted E w m" by (rule history_rooted [OF t inj Suc.prems(1)])
    then have lies: "lies_in E w parent (generation mp') off"
      using x mp'(2) lineageD(2,3) [OF same] by (simp add: rooted_def)
    then have issued: "issued E w (generation mp')" by (simp add: lies_in_def)
    then obtain mp where mp: "db_meta (db_of w parent) = Some mp" "lineage mp = lineage mp'"
      using history_row [OF h sound inj _ mp'(1) refl] by blast
    obtain newp where newp: "db_messages (db_of w' parent) = db_messages (db_of w parent) @ newp"
      "stitched_log n w' parent = stitched_log n w parent @ newp" and regular: "regular_chain n w parent"
      using Suc.IH [OF mp(1) mp'(1) lineageD(1) [OF mp(2), symmetric] chain(2,3)] by blast
    have "within mp off" using lies mp lineageD(1) [OF mp(2)] by (simp add: lies_in_def)
    from appended_behind [OF wfq mp(1) mp'(1) mp(2) newp(1) this chain(1,2)]
    have "filter (\<lambda>x. msg_offset x \<le> off) newp = []" by (auto simp: filter_empty_conv not_le)
    with new small same regular chain(1) newp(2) x Suc.prems(1,2) lineageD(2) [OF same] show ?thesis by simp
  qed
qed simp

text \<open>
  C4. A fork keeps its view. Whatever goes on, as long as a stream and the streams it was forked from
  are the same, the log that a reader sees of it through all of them only grows at its end, by what is
  appended to the stream itself: neither appends to its sources, nor their closing, expiry or deletion,
  nor failures reach the part it shares with them.
\<close>

theorem fork_view_is_durable:
  assumes "reachable E w" and "activity E a" and "inj (new_v4 E)"
    and "db_meta (db_of w p) = Some m" and "db_meta (db_of (snd (a w)) p) = Some m'"
    and "generation m' = generation m" and "regular_chain n (snd (a w)) p" and "unbroken n (snd (a w)) p"
  shows "\<exists>new. db_messages (db_of (snd (a w)) p) = db_messages (db_of w p) @ new
    \<and> stitched_log n (snd (a w)) p = stitched_log n w p @ new"
proof -
  obtain t where t: "history E (initial_world t) w" using reachable_history [OF assms(1)] by blast
  have "reachable E (snd (a w))" by (rule reachable_then [OF assms(1,2)])
  from view_kept [OF t activity_history [OF assms(2)] reachable_wf_world [OF assms(1)] reachable_wf_world [OF this] assms(3-8)]
  show ?thesis by blast
qed

end
