(* ===== verification/Waking.thy ===== *)
theory Waking
  imports Snapshots
begin

text \<open>
  That waiting ends. A long-poll read that has found nothing sleeps until the stream changes; an
  append that arrives meanwhile wakes it, and it answers with the message. (A subscription that is
  taken too late, or a commit that is not announced, would let it sleep through the append.)
\<close>

subsection \<open>Appends announce themselves\<close>

lemma append_tx_announces:
  assumes "append_tx E p producer seq payload cl now w = (r, w')" and "w_faults w = []"
  shows "w_faults w' = [] \<and> w_clock w' = w_clock w
    \<and> (same_dbs w w' \<or> a_changes (w_actors w' p) = a_changes (w_actors w p) + 1)"
proof (cases "db_meta (db_of w p)")
  case None
  with assms show ?thesis
    by (auto simp: append_tx_def and_then_def no_fault_run get_meta_tx_def rollback_def ret_def lift_result_def)
next
  case (Some m)
  obtain verdict tx1 where check: "check_producer producer (db_of w p) m now = (verdict, tx1)"
    by (cases "check_producer producer (db_of w p) m now")
  with assms Some show ?thesis
    by (cases verdict; cases "seq_conflict E (Store.last_seq m) seq";
        cases "append_message tx1 (current_offset m) payload now")
      (auto simp: append_tx_def and_then_def no_fault_run get_meta_tx_def rollback_def ret_def lift_result_def throw_def
        commit_def notify_change_def update_actor_def split: if_splits)
qed

lemma finish_append_base:
  "db_meta tx = Some m \<Longrightarrow> db_meta (finish_append E tx accepted producer seq cl now) = Some m' \<Longrightarrow> base_offset m' = base_offset m"
  by (auto simp: finish_append_def Let_def touch_def set_closed_def set_last_seq_def update_meta_def
      commit_producer_state_def base_offset_def split: option.split_asm if_splits)

lemma append_tx_extends:
  assumes "append_tx E p producer seq payload cl now w = (r, w')" and "wf_db (db_of w p)"
    and "db_meta (db_of w p) = Some m" and "\<not> same_dbs w w'"
  obtains m' x where "db_meta (db_of w' p) = Some m'" "generation m' = generation m" "content_type m' = content_type m"
    "ttl_seconds m' = ttl_seconds m" "expires_at m' = expires_at m" "last_accessed_at m' = now"
    "base_offset m' = base_offset m"
    "db_messages (db_of w' p) = db_messages (db_of w p) @ [x]"
proof -
  from assms(1) obtain accepted tx1 tx2 off where
    check: "check_producer producer (db_of w p) m now = (Inr accepted, tx1)"
    and app: "append_message tx1 (current_offset m) payload now = Inr (tx2, off)"
    and post: "sets_db p (finish_append E tx2 accepted producer seq cl now) w w'"
    using assms(3,4) by (cases rule: append_tx_cases) auto
  have tx1: "wf_log tx1" "db_meta tx1 = Some m" "db_messages tx1 = db_messages (db_of w p)"
    using check_producer_frame [OF check] check_producer_wf [OF check assms(2)] assms(3)
    by (simp_all add: wf_db_log)
  from app have tx2: "db_messages tx2 = db_messages tx1 @ [\<lparr>msg_offset = off, msg_data = payload, msg_ts = now\<rparr>]"
      "db_meta tx2 = Some (m\<lparr>current_offset := off\<rparr>)"
    by (auto simp: append_message_wf [OF tx1(1,2)] result_bind_Inr_iff)
  from finish_append_meta [OF tx2(2), of E accepted producer seq cl now] obtain m' where
    "db_meta (finish_append E tx2 accepted producer seq cl now) = Some m'"
    "generation m' = generation m" "content_type m' = content_type m"
    "ttl_seconds m' = ttl_seconds m" "expires_at m' = expires_at m" "last_accessed_at m' = now" by auto
  with post tx2(1) tx1(3) show thesis
    using finish_append_base [OF tx2(2), of E accepted producer seq cl now m']
    by (intro that [of m' "\<lparr>msg_offset = off, msg_data = payload, msg_ts = now\<rparr>"]) (auto simp: sets_dbD)
qed

text \<open>A POST that changes the log of a live stream.\<close>

lemma post_extends:
  assumes "handle_post E R p req w = (r, w')" and "wf_db (db_of w p)" and "live_stream E w p m"
    and "w_faults w = []" and "db_messages (db_of w' p) \<noteq> db_messages (db_of w p)"
  obtains producer seq payload cl where "append_tx E p producer seq payload cl (w_clock w) w = (r, w')"
    "\<not> same_dbs w w'" "\<not> soft_deleted m"
  using assms(1)
proof (cases rule: handle_post_cases)
  case unchanged
  with assms(5) show thesis by simp
next
  case (close producer)
  from close_only_cases [OF close(1) assms(3)] assms(5) show thesis
    by (auto simp: same_dbsD sets_dbD closes_def)
next
  case (append h)
  from append(2) assms(3) show thesis
  proof (cases rule: post_locked_cases)
    case unchanged
    with assms(5) show thesis by (simp add: same_dbsD)
  next
    case (append payload)
    with that assms(5) show thesis by (metis same_dbsD)
  qed
qed

subsection \<open>The read\<close>

lemma accessed_facts:
  "db_of (accessed w p) p = touch (db_of w p) (w_clock w)" "w_faults (accessed w p) = w_faults w"
  "w_clock (accessed w p) = w_clock w" "a_changes (w_actors (accessed w p) q) = a_changes (w_actors w q)"
  by (simp_all add: accessed_def)

lemma wf_accessed: "wf_world w \<Longrightarrow> wf_world (accessed w p)"
  unfolding wf_world_def accessed_def by (simp add: wf_db_meta_ops)

lemma not_expired_after:
  assumes "\<not> is_expired E m now" and "last_accessed_at m \<le> now" and "last_accessed_at m' = now"
    and "ttl_seconds m' = ttl_seconds m" and "expires_at m' = expires_at m"
  shows "\<not> is_expired E m' now"
proof -
  have "saturating_add_i64 (last_accessed_at m) x \<le> saturating_add_i64 now x" for x
    using assms(2) by (auto simp: saturating_add_i64_def clamp_i64_def)
  note mono = order_trans [OF this]
  from assms(1) show ?thesis
    unfolding is_expired_def expiry_time_def assms(3-5)
    by (auto simp: Let_def min_le_iff_disj split: option.splits dest: mono)
qed

lemma accessed_live:
  assumes "live_stream E w p m" and "last_accessed_at m \<le> w_clock w"
  shows "live_stream E (accessed w p) p (m\<lparr>last_accessed_at := w_clock w\<rparr>)"
  using assms not_expired_after [of E m "w_clock w" "m\<lparr>last_accessed_at := w_clock w\<rparr>"]
  by (simp add: live_stream_def accessed_facts touch_def update_meta_def)

text \<open>After the end of the log before its last append stands what was appended.\<close>

lemma own_after_base:
  assumes "wf_db (db_of w p)" and "regular_chain (Suc n) w p" and "db_meta (db_of w p) = Some m"
    and "x \<in> set (db_messages (db_of w p))"
  shows "base_offset m < msg_offset x"
proof (cases "fork_point m")
  case None
  note wf = wf_log_Some [OF wf_db_log [OF assms(1)] assms(3)]
  have base: "base_offset m = offset_text 0"
    using None by (auto simp: base_offset_def fork_point_def ZERO_OFFSET_eq split: option.splits)
  from framed_offset_val [OF wf(3) assms(4)] wf(2) assms(2,3) base
  have "msg_offset x = offset_text (offset_val (msg_offset x))" "0 < offset_val (msg_offset x)"
    "offset_val (msg_offset x) < 10 ^ 16" by auto
  then show ?thesis using offset_text_less_iff [of 0 "offset_val (msg_offset x)"] base by simp
next
  case (Some pt)
  then obtain parent off where pt: "fork_point m = Some (parent, off)" by (cases pt) simp
  then have "base_offset m = off" by (auto simp: fork_point_def base_offset_def split: option.splits)
  with own_after_fork [OF assms(1-3) pt assms(4)] show ?thesis by simp
qed

lemma last_append_asked:
  assumes "wf_world w" and "regular_chain (Suc n) w p" and "db_meta (db_of w p) = Some m"
    and "db_messages (db_of w p) = ms @ [x]"
  shows "asked (Some (if ms = [] then base_offset m else msg_offset (last ms))) None (stitched_log (Suc n) w p) = [x]"
proof -
  obtain inherited where log: "stitched_log (Suc n) w p = inherited @ ms @ [x]"
    and base: "\<forall>y \<in> set inherited. msg_offset y \<le> base_offset m"
    using assms(3,4) by (cases "fork_point m") (auto simp: fork_point_def base_offset_def split: option.splits)
  have wf: "wf_db (db_of w p)" using assms(1) by (simp add: wf_world_def)
  note sorted = stitched_log_sorted [OF assms(1,2), unfolded log]
  show ?thesis
  proof (cases "ms = []")
    case True
    with own_after_base [OF wf assms(2,3), of x] assms(4) base show ?thesis
      by (auto simp: log asked_def filter_empty_conv not_less simp del: stitched_log.simps)
  next
    case False
    then have "last ms \<in> set ms" by simp
    with sorted last_is_greatest [of msg_offset ms] False show ?thesis
      by (auto simp: log asked_def filter_empty_conv not_less strictly_sorted_by_append less_imp_le
          simp del: stitched_log.simps)
  qed
qed

lemma nothing_asked:
  assumes "wf_db (db_of w p)" and "regular_chain (Suc n) w p" and "db_meta (db_of w p) = Some m"
  shows "asked (Some (current_offset m)) None (stitched_log (Suc n) w p) = []"
  using stitched_le_current [OF assms] by (auto simp: asked_def filter_empty_conv not_less)

lemma stream_offset_not_start: "stream_offset off \<Longrightarrow> off \<noteq> ''-1''"
  by (auto simp: stream_offset_def offset_prefix_def)

lemma page_of_one: "page_of [x] limit budget b \<Longrightarrow> 0 < limit \<Longrightarrow> rb_messages b = [stored x]"
  by (auto simp: page_of_def le_Suc_eq take_Cons')

lemma page_of_none: "page_of [] limit budget b \<Longrightarrow> rb_messages b = []"
  by (auto simp: page_of_def)

text \<open>A POST that appends while a reader waits: the world it leaves.\<close>

lemma posted_meanwhile:
  assumes "wf_world w" and "w_faults w = []" and "live_stream E w p m" and "last_accessed_at m \<le> w_clock w"
    and "handle_post E (rpc_at E k quiet n) p post (accessed w p) = (r, w2)"
    and "db_messages (db_of w2 p) \<noteq> db_messages (db_of w p)"
  obtains m2 x where "live_stream E w2 p m2" "generation m2 = generation m" "content_type m2 = content_type m"
    "base_offset m2 = base_offset m" "db_messages (db_of w2 p) = db_messages (db_of w p) @ [x]"
    "wf_world w2" "w_faults w2 = []" "w_clock w2 = w_clock w"
    "a_changes (w_actors w2 p) \<noteq> a_changes (w_actors w p)"
proof -
  let ?w1 = "accessed w p" and ?m1 = "m\<lparr>last_accessed_at := w_clock w\<rparr>"
  have wf1: "wf_world ?w1" "wf_db (db_of ?w1 p)"
    using wf_accessed [OF assms(1), of p] by (simp_all add: wf_world_def)
  have same: "db_messages (db_of ?w1 p) = db_messages (db_of w p)"
    by (simp add: accessed_facts touch_def update_meta_def)
  have live1: "live_stream E ?w1 p ?m1" by (rule accessed_live [OF assms(3,4)])
  then have m1: "db_meta (db_of ?w1 p) = Some ?m1" by (simp add: live_stream_def)
  have ok: "w_faults ?w1 = []" using assms(2) by (simp add: accessed_facts)
  have changed: "db_messages (db_of w2 p) \<noteq> db_messages (db_of ?w1 p)" using assms(6) same by simp
  obtain producer seq payload cl where app: "append_tx E p producer seq payload cl (w_clock ?w1) ?w1 = (r, w2)"
    "\<not> same_dbs ?w1 w2"
    using post_extends [OF assms(5) wf1(2) live1 ok changed] by metis
  obtain m2 x where raw: "db_meta (db_of w2 p) = Some m2"
    "generation m2 = generation ?m1" "content_type m2 = content_type ?m1" "ttl_seconds m2 = ttl_seconds ?m1"
    "expires_at m2 = expires_at ?m1" "last_accessed_at m2 = w_clock ?w1" "base_offset m2 = base_offset ?m1"
    "db_messages (db_of w2 p) = db_messages (db_of ?w1 p) @ [x]"
    by (rule append_tx_extends [OF app(1) wf1(2) m1 app(2)])
  have "base_offset ?m1 = base_offset m" by (simp add: base_offset_def)
  note m2 = raw [unfolded accessed_facts(3) same this, simplified]
  from append_tx_announces [OF app(1) ok] app(2) have w2: "w_faults w2 = []" "w_clock w2 = w_clock w"
    "a_changes (w_actors w2 p) \<noteq> a_changes (w_actors w p)"
    by (simp_all add: accessed_facts)
  have "live_stream E w2 p m2"
    using not_expired_after [of E m "w_clock w" m2] assms(3,4) m2 w2(2) by (simp add: live_stream_def)
  moreover have "wf_world w2"
    using givesD [OF handle_post_wf [OF rpc_at_wf [OF keeps_quiet]] wf1(1)] assms(5) by (metis snd_conv)
  ultimately show thesis using m2 w2 by (intro that)
qed

lemma woken_response:
  assumes "public_header_text E req ''if-none-match'' = Inr None" and "rb_messages (snap_batch s) \<noteq> []"
  obtains resp where "build_read_response E now rnd aid req off (Some ''long-poll'') cursor s = Inr resp"
    "status resp = 200" "resp_body resp = read_body (snap_meta s) (rb_messages (snap_batch s))"
    "headers resp STREAM_OFFSET = Some (batch_offset s)"
  using assms
  by (auto simp: build_read_response_def Let_def result_bind_def from_parts_def header_names intro!: that)

text \<open>
  C8. No append is slept through. A long poll waits at the end of an open stream, and while it does a
  POST appends a message, whichever way; then, unless the reader goes away or its time is up, the read
  answers 200 with exactly that message and the offset behind it. (Nothing else happens meanwhile, the
  log stays under ten petabytes, and the client has not sent an entity tag.)
\<close>

theorem long_poll_is_woken:
  assumes "reachable E w" and "w_faults w = []" and "regular_chain (Suc n) w p" and "live_stream E w p m"
    and "\<not> soft_deleted m" and "\<not> closed m" and "last_accessed_at m \<le> w_clock w"
    and "off = Some ''now'' \<or> off = Some (current_offset m)"
    and "public_header_text E req ''if-none-match'' = Inr None"
    and "handle_post E (rpc_at E k quiet n) p post (accessed w p) = (r, w2)"
    and "db_messages (db_of w2 p) \<noteq> db_messages (db_of w p)" and "regular_chain (Suc n) w2 p"
    and "lp_meanwhile L = and_then (attempt (handle_post E (rpc_at E k quiet n) p post)) (\<lambda>_. ret ())"
    and "\<not> lp_aborted L" and "\<not> lp_timer_first L"
  shows "\<exists>x resp w3. db_messages (db_of w2 p) = db_messages (db_of w p) @ [x]
    \<and> read_once E k (rpc_at E k quiet n) quiet L quiet rnd aid p req off (Some ''long-poll'') cursor w = (Inr resp, w3)
    \<and> status resp = 200 \<and> resp_body resp = read_body m [stored x]
    \<and> headers resp STREAM_OFFSET = Some (msg_offset x)"
proof -
  let ?R = "rpc_at E k quiet n" and ?cur = "Some (current_offset m)"
  have wf: "wf_world w" by (rule reachable_wf_world [OF assms(1)])
  then have wfp: "wf_db (db_of w p)" by (simp add: wf_world_def)
  have m: "db_meta (db_of w p) = Some m" using assms(4) by (simp add: live_stream_def)
  obtain m2 x where m2: "live_stream E w2 p m2" "generation m2 = generation m" "content_type m2 = content_type m"
    "base_offset m2 = base_offset m" "db_messages (db_of w2 p) = db_messages (db_of w p) @ [x]"
    and w2: "wf_world w2" "w_faults w2 = []" "w_clock w2 = w_clock w"
    "a_changes (w_actors w2 p) \<noteq> a_changes (w_actors w p)"
    by (rule posted_meanwhile [OF wf assms(2,4,7,10,11)])
  have cur: "norm_after ?cur = ?cur"
    using wf_log_Some(1) [OF wf_db_log [OF wfp] m] stream_offset_not_start by (auto simp: norm_after_def)
  obtain s1 where s1: "take_snapshot E k ?R quiet p ?cur (Some (generation m)) w = (Inr (Some s1), accessed w p)"
    "snap_meta s1 = m" "rb_messages (snap_batch s1) = []"
    using take_snapshot_page [OF wf assms(2-4), of k ?cur] cur nothing_asked [OF wfp assms(3) m] page_of_none
    by metis
  have "current_offset m = (if db_messages (db_of w p) = [] then base_offset m2 else msg_offset (last (db_messages (db_of w p))))"
    using wf_db_log [OF wfp] m m2(4) by (simp add: wf_log_def)
  then have "asked ?cur None (stitched_log (Suc n) w2 p) = [x]"
    using last_append_asked [OF w2(1) assms(12) _ m2(5)] m2(1) by (simp add: live_stream_def del: stitched_log.simps)
  then obtain s2 where s2: "take_snapshot E k ?R quiet p ?cur (Some (generation m)) w2 = (Inr (Some s2), accessed w2 p)"
    "snap_meta s2 = m2" "rb_messages (snap_batch s2) = [stored x]"
    using take_snapshot_page [OF w2(1,2) assms(12) m2(1), of k ?cur] cur m2(2) page_of_one
    by (metis MAX_READ_ROWS_def zero_less_numeral)
  obtain resp where resp: "build_read_response E (w_clock w) rnd aid req off (Some ''long-poll'') cursor s2 = Inr resp"
    "status resp = 200" "resp_body resp = read_body m2 [stored x]" "headers resp STREAM_OFFSET = Some (batch_offset s2)"
    using woken_response [OF assms(9), of s2] s2 by (metis list.distinct(1))
  have wake: "wait_for_change p (a_changes (w_actors w p)) L (accessed w p) = (Inr Changed, w2)"
    using assms(10,13-15) w2(4) by (simp add: wait_for_change_def and_then_def attempt_def ret_def)
  have "read_once E k ?R quiet L quiet rnd aid p req off (Some ''long-poll'') cursor w = (Inr resp, accessed w2 p)"
    using assms(5,6,8) s1 s2 resp(1) wake
    by (auto simp: read_once_def Let_def and_then_def subscribe_def now_ms_def visible_meta_def visible_live [OF assms(4)]
        lift_result_def accessed_facts w2(3))
  moreover have "read_body m2 [stored x] = read_body m [stored x]"
    using m2(3) by (simp add: read_body_def is_json_stream_def)
  ultimately show ?thesis using m2(5) resp by (auto simp: batch_offset_def s2 stored_def)
qed

end
