(* ===== verification/Streaming.thy ===== *)
theory Streaming
  imports Inheritance Waking
begin

text \<open>
  What a live reader is sent. Between the turns of the loop anything may happen: messages are
  appended, calls fail, time passes. Whatever it is, the events put together are the log: in order,
  nothing skipped and nothing twice, from where the reader began.
\<close>

subsection \<open>Runs\<close>

text \<open>A world on its way: well formed, and the outcome of a history of the system.\<close>

definition on_course :: "'j ext \<Rightarrow> world \<Rightarrow> bool" where
  "on_course E w \<longleftrightarrow> wf_world w \<and> (\<exists>t. history E (initial_world t) w)"

lemma reachable_on_course: "reachable E w \<Longrightarrow> on_course E w"
  by (auto simp: on_course_def reachable_wf_world dest: reachable_history)

text \<open>An action of the system: it keeps the invariant and every history goes on through it.\<close>

definition lawful :: "'j ext \<Rightarrow> 'a act \<Rightarrow> bool" where
  "lawful E a \<longleftrightarrow> keeps wf_world a \<and> (\<forall>u. keeps (history E u) a)"

lemma lawful_run:
  assumes "lawful E a" and "a w = (r, w')" and "on_course E w"
  shows "on_course E w'" and "history E w w'"
proof -
  have w': "w' = snd (a w)" using assms(2) by simp
  have "history E u w'" if "history E u w" for u
    using assms(1) that unfolding w' lawful_def gives_def by blast
  moreover have "wf_world w'"
    using assms(1,3) unfolding w' lawful_def gives_def on_course_def by blast
  ultimately show "on_course E w'" "history E w w'"
    using assms(3) by (auto simp: on_course_def intro: history.begin_history)
qed

lemma lawful_activity: "activity E a \<Longrightarrow> lawful E a"
  by (simp add: lawful_def activity_wf activity_keeps_history)

lemma lawful_visible: "lawful E (visible_meta E (rpc_at E n quiet depth) p now)"
  by (simp add: lawful_def visible_meta_def wf_reads.visible history_reads.visible)

lemma lawful_acquire: "lawful E (try_acquire msg)"
  by (simp add: lawful_def wf.try_acquire hist.try_acquire)

lemma lawful_touch: "lawful E (touch_access p now)"
  by (simp add: lawful_def touch_access_wf touch_history)

lemma lawful_stitched: "lawful E (read_stitched k (rpc_at E n quiet depth) quiet p m after cap lim bud)"
  by (simp add: lawful_def wf_reads.stitched history_reads.stitched)

lemma proceed_Inr:
  "case_option (ret None) f mo w = (Inr (Some x), w') \<longleftrightarrow> (\<exists>m. mo = Some m \<and> f m w = (Inr (Some x), w'))"
  "(if b then ret None else g) w = (Inr (Some x), w') \<longleftrightarrow> \<not> b \<and> g w = (Inr (Some x), w')"
  by (auto simp: ret_def split: option.split)

subsection \<open>Reads that succeed\<close>

text \<open>
  A read may fail at a call of a source. If it succeeds, no call has failed, and it is the read of a
  world without faults.
\<close>

abbreviation faultless :: "world \<Rightarrow> world" where
  "faultless w \<equiv> w\<lparr>w_faults := []\<rparr>"

definition steady :: "'a act \<Rightarrow> bool" where
  "steady m \<longleftrightarrow> (\<forall>w x w'. m w = (Inr x, w') \<longrightarrow> m (faultless w) = (Inr x, faultless w'))"

lemma steadyD: "steady m \<Longrightarrow> m w = (Inr x, w') \<Longrightarrow> m (faultless w) = (Inr x, faultless w')"
  by (simp add: steady_def)

lemma steady_basic: "steady (ret x)" "steady (throw e)" "steady (get_meta p)" "steady (get_db p)"
  by (simp_all add: steady_def act_run)

lemma steady_then: "steady m \<Longrightarrow> (\<And>x. steady (f x)) \<Longrightarrow> steady (and_then m f)"
  by (auto simp: steady_def and_then_Inr)

lemma steady_remote: "steady m \<Longrightarrow> steady (remote m)"
  unfolding steady_def
proof (intro allI impI)
  fix w x w'
  assume m: "\<forall>w x w'. m w = (Inr x, w') \<longrightarrow> m (faultless w) = (Inr x, faultless w')" and run: "remote m w = (Inr x, w')"
  obtain f where "next_fault w = (Inr f, w\<lparr>w_faults := drop 1 (w_faults w)\<rparr>)" by (rule next_fault_cases)
  with run have "m (w\<lparr>w_faults := drop 1 (w_faults w)\<rparr>) = (Inr x, w')"
    by (cases f) (auto simp: remote_def and_then_def attempt_def throw_def split: prod.splits)
  with m have "m (faultless w) = (Inr x, faultless w')" by fastforce
  then show "remote m (faultless w) = (Inr x, faultless w')" by (simp add: no_fault_run(3))
qed

lemma steady_branches:
  "(b \<Longrightarrow> steady m) \<Longrightarrow> (\<not> b \<Longrightarrow> steady k) \<Longrightarrow> steady (if b then m else k)"
  "(opt = None \<Longrightarrow> steady m) \<Longrightarrow> (\<And>x. opt = Some x \<Longrightarrow> steady (g x)) \<Longrightarrow> steady (case opt of None \<Rightarrow> m | Some x \<Rightarrow> g x)"
  "(\<And>a b. q = (a, b) \<Longrightarrow> steady (k' a b)) \<Longrightarrow> steady (case q of (a, b) \<Rightarrow> k' a b)"
  by (auto split: option.split prod.split)

lemmas steady_steps = steady_basic steady_then steady_branches

lemma steady_own: "steady (read_own quiet p after cap limit budget first)"
  unfolding read_own_def quiet_run by (rule steady_steps)+

lemma steady_stitched:
  assumes "\<And>q a. steady (rpc_read R q a)"
  shows "steady (read_stitched n R quiet p m after cap limit budget)"
proof (induction n arbitrary: m limit budget)
  case 0
  show ?case
    unfolding read_stitched.simps [of 0] Let_def quiet_run nat.case by (rule steady_steps steady_own steady_remote assms)+
next
  case (Suc n)
  show ?case
    unfolding read_stitched.simps [of "Suc n"] Let_def quiet_run nat.case
    by (rule steady_steps steady_own steady_remote assms Suc.IH)+
qed

lemma steady_rpc: "steady (rpc_read (rpc_at E k quiet n) q a)"
proof (induction n arbitrary: q a)
  case (Suc n)
  then show ?case by (simp add: handle_read_range_def) (rule steady_steps steady_stitched | assumption)+
qed (simp add: steady_basic)

lemma chain_faults [simp]:
  "stitched_log n (w\<lparr>w_faults := fs\<rparr>) p = stitched_log n w p"
  "regular_chain n (w\<lparr>w_faults := fs\<rparr>) p = regular_chain n w p"
  by (induction n arbitrary: p) (simp_all split: option.split)

text \<open>What a read of a stream gets, if it gets anything: a page of the stitched log.\<close>

lemma successful_read:
  assumes "wf_world w" and "regular_chain (Suc n) w p" and "db_meta (db_of w p) = Some m"
    and "read_stitched k (rpc_at E k quiet n) quiet p m off None MAX_READ_ROWS MAX_READ_BYTES w = (Inr b, w')"
  shows "page_of (asked (norm_after off) None (stitched_log (Suc n) w p)) MAX_READ_ROWS MAX_READ_BYTES b"
    and "db_of w' q = db_of w q"
proof -
  have pre: "wf_world (faultless w)" "w_faults (faultless w) = []" "regular_chain (Suc n) (faultless w) p"
    "db_meta (db_of (faultless w) p) = Some m"
    using assms(1-3) by (simp_all add: wf_world_def del: regular_chain.simps)
  have "read_stitched k (rpc_at E k quiet n) quiet p m off None MAX_READ_ROWS MAX_READ_BYTES (faultless w) = (Inr b, faultless w')"
    by (rule steadyD [OF steady_stitched [OF steady_rpc] assms(4)])
  with stitched_page [OF pre, of k E off]
  have page: "page_of (asked (norm_after off) None (stitched_log (Suc n) w p)) MAX_READ_ROWS MAX_READ_BYTES b"
    and same: "faultless w' = faultless w"
    by (auto simp del: stitched_log.simps)
  show "page_of (asked (norm_after off) None (stitched_log (Suc n) w p)) MAX_READ_ROWS MAX_READ_BYTES b" by (rule page)
  have "w_actors w' = w_actors (faultless w')" by simp
  then show "db_of w' q = db_of w q" by (simp add: same)
qed

lemma snapshot_page:
  assumes "take_snapshot E k (rpc_at E k quiet n) quiet p off (Some gen) v = (Inr (Some s), v')" and "on_course E v"
  obtains u m where "history E v u" "history E u v'" "on_course E u" "on_course E v'" "db_meta (db_of u p) = Some m"
    "generation m = gen" "regular_chain (Suc n) u p \<longrightarrow> snap_meta s = m
      \<and> page_of (asked (norm_after off) None (stitched_log (Suc n) u p)) MAX_READ_ROWS MAX_READ_BYTES (snap_batch s)"
proof -
  let ?R = "rpc_at E k quiet n"
  obtain v1 u m batch u2 fresh where
    run: "try_acquire ''too many concurrent reads'' v = (Inr (), v1)"
      "visible_meta E ?R p (w_clock v1) v1 = (Inr (Some m), u)" "generation m = gen"
      "read_stitched k ?R quiet p m off None MAX_READ_ROWS MAX_READ_BYTES u = (Inr batch, u2)"
      "db_meta (db_of u2 p) = Some fresh" "touch_access p (w_clock u2) u2 = (Inr (), v')"
      "s = \<lparr>snap_meta = fresh, snap_batch = batch\<rparr>"
    using assms(1)
    by (auto simp: take_snapshot_def and_then_Inr proceed_Inr now_ms_def get_meta_def quiet_run act_run)
  note v1 = lawful_run [OF lawful_acquire run(1) assms(2)]
  note u = lawful_run [OF lawful_visible run(2) v1(1)]
  note u2 = lawful_run [OF lawful_stitched run(4) u(1)]
  note v' = lawful_run [OF lawful_touch run(6) u2(1)]
  have m: "db_meta (db_of u p) = Some m"
    using visible_meta_Some run(2) by (simp add: visible_meta_def)
  show thesis
  proof (rule that [OF history_trans [OF u(2) v1(2)] history_trans [OF v'(2) u2(2)] u(1) v'(1) m run(3)], rule impI)
    assume "regular_chain (Suc n) u p"
    note read = successful_read [OF conjunct1 [OF u(1) [unfolded on_course_def]] this m run(4)]
    show "snap_meta s = m
        \<and> page_of (asked (norm_after off) None (stitched_log (Suc n) u p)) MAX_READ_ROWS MAX_READ_BYTES (snap_batch s)"
      using read run(5,7) m by (simp del: stitched_log.simps)
  qed
qed

subsection \<open>Pages of a growing log\<close>

text \<open>A log \<open>L\<close> that ends at \<open>e\<close>, and what is appended to it later, in the order of texts.\<close>

definition ends_at :: "message list \<Rightarrow> string \<Rightarrow> message list \<Rightarrow> bool" where
  "ends_at L e N \<longleftrightarrow> strictly_sorted_by msg_offset (L @ N) \<and> (\<forall>x \<in> set L. msg_offset x \<noteq> ''-1'' \<and> msg_offset x \<le> e)
     \<and> (\<forall>y \<in> set N. e < msg_offset y) \<and> e \<noteq> ''-1''"

lemma page_step:
  assumes F: "ends_at L e N" and page: "page_of (asked (norm_after (Some off)) None L) MAX_READ_ROWS MAX_READ_BYTES b"
    and off: "off = ''-1'' \<or> off \<le> e"
    and nxt: "nxt = (if rb_messages b = [] then e else sm_offset (last (rb_messages b)))"
  shows "map stored (asked (norm_after (Some off)) None (L @ N))
      = rb_messages b @ map stored (asked (norm_after (Some nxt)) None (L @ N))" and "nxt \<le> e"
proof -
  let ?a = "norm_after (Some off)"
  obtain j where j: "j \<le> length (asked ?a None L)" "rb_messages b = map stored (take j (asked ?a None L))"
    "\<not> rb_capped b \<longrightarrow> j = length (asked ?a None L)" "rb_capped b \<longrightarrow> 0 < j"
    using page unfolding page_of_def MAX_READ_ROWS_def by auto
  have "(map stored (asked ?a None (L @ N)) = rb_messages b @ map stored (asked (norm_after (Some nxt)) None (L @ N)))
      \<and> nxt \<le> e"
  proof (cases "j = 0")
    case True
    with j have none: "asked ?a None L = []" "rb_messages b = []" by auto
    then have "nxt = e" by (simp add: nxt)
    moreover have "norm_after (Some e) = Some e" using F by (simp add: norm_after_def ends_at_def)
    moreover have "asked (Some e) None L = []"
      using F by (auto simp: asked_def filter_empty_conv not_less ends_at_def)
    moreover have "asked (Some e) None N = N" and "asked ?a None N = N"
      using F off by (auto simp: asked_def norm_after_def filter_id_conv ends_at_def intro: order.strict_trans1)
    ultimately show ?thesis using none by simp
  next
    case False
    let ?rows = "asked ?a None (L @ N)"
    let ?x = "?rows ! (j - 1)"
    have j0: "0 < j" and jl: "j \<le> length ?rows" using False j(1) by simp_all
    have "j - 1 < length (asked ?a None L)" using j(1) False by linarith
    then have "?x \<in> set (asked ?a None L)" by (simp add: nth_append)
    then have xL: "?x \<in> set L" by (simp add: asked_def)
    have msgs: "rb_messages b = map stored (take j ?rows)" using j(1,2) by simp
    have "take j ?rows \<noteq> []" using j0 jl by auto
    then have "nxt = sm_offset (last (map stored (take j ?rows)))"
      unfolding nxt msgs by (simp only: map_is_Nil_conv if_False)
    then have nx: "nxt = msg_offset ?x" using last_page_row [OF j0 jl] by simp
    then have norm: "norm_after (Some nxt) = Some nxt" using xL F by (auto simp: ends_at_def norm_after_def)
    have "strictly_sorted_by msg_offset ?rows"
      unfolding asked_def by (rule strictly_sorted_by_filter) (use F in \<open>simp add: ends_at_def\<close>)
    from asked_after_take [OF this refl j0 jl] have "asked (Some nxt) None (L @ N) = drop j ?rows" by (simp add: nx)
    then have "map stored ?rows = rb_messages b @ map stored (asked (norm_after (Some nxt)) None (L @ N))"
      unfolding norm msgs by (metis append_take_drop_id map_append)
    then show ?thesis using F xL nx by (auto simp: ends_at_def)
  qed
  then show "map stored (asked ?a None (L @ N)) = rb_messages b @ map stored (asked (norm_after (Some nxt)) None (L @ N))"
    and "nxt \<le> e" by simp_all
qed

subsection \<open>The loop\<close>

text \<open>The chunks of a live response that carry the snapshots \<open>ss\<close>; what follows them ends the stream.\<close>

fun streamed :: "'j ext \<Rightarrow> string option \<Rightarrow> bool \<Rightarrow> bool \<Rightarrow> read_snapshot list \<Rightarrow> chunk list \<Rightarrow> bool" where
  "streamed E cursor b64 js [] cs \<longleftrightarrow> (\<forall>c \<in> set cs. c = Data [] True \<or> (\<exists>e. c = Failed e))"
| "streamed E cursor b64 js (s # ss) [] \<longleftrightarrow> False"
| "streamed E cursor b64 js (s # ss) (c # cs) \<longleftrightarrow>
     (\<exists>now rnd. c = Data (sse_frame E now rnd b64 js cursor s) (snap_closed s)) \<and> streamed E cursor b64 js ss cs"

text \<open>The turns of the loop: nothing else runs within a read, and anything between two of them.\<close>

definition free_turns :: "'j ext \<Rightarrow> sse_turn list \<Rightarrow> bool" where
  "free_turns E Ts \<longleftrightarrow> (\<forall>T \<in> set Ts. turn_env T = quiet \<and> activity E (turn_wait T))"

lemma lawful_pump:
  assumes "free_turns E Ts"
  shows "lawful E (pump_sse E k (rpc_at E k quiet n) p gen off cursor b64 js Ts)"
proof -
  have "turns_in (keeps wf_world) Ts" "turns_in (keeps (history E u)) Ts" for u
    using assms by (auto simp: free_turns_def turns_in_def list_all_iff activity_wf activity_keeps_history)
  then show ?thesis by (simp add: lawful_def wf_reads.pump history_reads.pump)
qed

text \<open>Where a reader of a generation stands: at the start, or not behind the end the log once had.\<close>

definition standing :: "'j ext \<Rightarrow> string \<Rightarrow> string \<Rightarrow> string \<Rightarrow> world \<Rightarrow> bool" where
  "standing E p gen off v \<longleftrightarrow> off = ''-1'' \<or> (\<exists>u m. on_course E u \<and> history E u v \<and> db_meta (db_of u p) = Some m
     \<and> generation m = gen \<and> off \<le> current_offset m)"

lemma standing_later: "standing E p gen off v \<Longrightarrow> history E v v' \<Longrightarrow> standing E p gen off v'"
  by (auto simp: standing_def intro: history_trans)

text \<open>The world in which the reading ends: the stream is the one that was read, and so are its sources.\<close>

definition final :: "string \<Rightarrow> string \<Rightarrow> nat \<Rightarrow> world \<Rightarrow> bool" where
  "final p gen n w \<longleftrightarrow> wf_world w \<and> regular_chain n w p \<and> unbroken n w p
     \<and> (\<exists>m. db_meta (db_of w p) = Some m \<and> generation m = gen)"

lemma final_log:
  assumes "final p gen (Suc n) w'" and "on_course E u" and "history E u w'" and "inj (new_v4 E)"
    and "db_meta (db_of u p) = Some m" and "generation m = gen"
  obtains N where "stitched_log (Suc n) w' p = stitched_log (Suc n) u p @ N"
    "ends_at (stitched_log (Suc n) u p) (current_offset m) N" "regular_chain (Suc n) u p"
proof -
  obtain m' where m': "db_meta (db_of w' p) = Some m'" "generation m' = gen"
    and w': "wf_world w'" "regular_chain (Suc n) w' p" "unbroken (Suc n) w' p"
    using assms(1) by (auto simp: final_def simp del: regular_chain.simps unbroken.simps)
  obtain t where t: "history E (initial_world t) u" and wf: "wf_world u" using assms(2) by (auto simp: on_course_def)
  have db: "wf_db (db_of u p)" "wf_db (db_of w' p)" using wf w'(1) by (simp_all add: wf_world_def)
  have "generation m' = generation m" using m'(2) assms(6) by simp
  from view_kept [OF t assms(3) wf w'(1) assms(4,5) m'(1) this w'(2,3)]
  obtain N where N: "db_messages (db_of w' p) = db_messages (db_of u p) @ N"
    "stitched_log (Suc n) w' p = stitched_log (Suc n) u p @ N"
    and reg: "regular_chain (Suc n) u p" and lin: "lineage m = lineage m'" by blast
  note cur = current_canonical [OF db(1) reg assms(5)]
  have "current_offset m < msg_offset y" if "y \<in> set N" for y
    using appended_behind [OF db assms(5) m'(1) lin N(1) _ cur w'(2) that] by (simp add: within_def)
  moreover have "msg_offset x \<le> current_offset m" if "x \<in> set (stitched_log (Suc n) u p)" for x
    by (rule stitched_le_current [OF db(1) reg assms(5) that])
  moreover have "msg_offset x \<noteq> ''-1''" if "x \<in> set (stitched_log (Suc n) u p)" for x
    by (rule offset_not_minus_one [OF wf that])
  moreover have "current_offset m \<noteq> ''-1''"
    using cur by (auto simp: canonical_offset_def)
  moreover have "strictly_sorted_by msg_offset (stitched_log (Suc n) u p @ N)"
    using stitched_log_sorted [OF w'(1,2)] N(2) by simp
  ultimately show thesis by (intro that [OF N(2) _ reg]) (simp add: ends_at_def)
qed

text \<open>The end of the log moves forward.\<close>

lemma current_forward:
  assumes "final p gen (Suc n) w'" and "inj (new_v4 E)" and "history E u w'" and "history E u0 u"
    and "on_course E u0" and "db_meta (db_of u0 p) = Some m0" and "generation m0 = gen"
    and "on_course E u" and "db_meta (db_of u p) = Some m" and "generation m = gen"
  shows "current_offset m0 \<le> current_offset m"
proof -
  have reg0: "regular_chain (Suc n) u0 p"
    by (rule final_log [OF assms(1,5) history_trans [OF assms(3,4)] assms(2,6,7)])
  have reg: "regular_chain (Suc n) u p"
    by (rule final_log [OF assms(1,8,3,2,9,10)])
  obtain t where t: "history E (initial_world t) u0" and db: "wf_db (db_of u0 p)" "wf_db (db_of u p)"
    using assms(5,8) by (auto simp: on_course_def wf_world_def)
  have "issued E u0 (generation m)"
    using sound_issued [OF history_sound [OF t initial_sound] assms(6)] by (simp add: assms(7,10))
  then have lin: "lineage m0 = lineage m"
    using history_row [OF assms(4) history_sound [OF t initial_sound] assms(2) _ assms(9) refl] assms(6) by auto
  obtain new where new: "db_messages (db_of u p) = db_messages (db_of u0 p) @ new"
    using log_kept [OF t assms(4,2,6,9)] assms(7,10) by (auto simp: prefix_def)
  have "offset_val (current_offset m0) \<le> offset_val (current_offset m)" by (rule log_grows [OF db assms(6,9) lin new])
  then show ?thesis
    using canonical_offset_less_iff [OF current_canonical [OF db(2) reg assms(9)] current_canonical [OF db(1) reg0 assms(6)]]
    by (simp add: not_less [symmetric])
qed

text \<open>One turn: the snapshot it takes continues what the reader has.\<close>

lemma turn_delivers:
  assumes "take_snapshot E k (rpc_at E k quiet n) quiet p (Some off) (Some gen) v = (Inr (Some s), v1)"
    and "on_course E v" and "inj (new_v4 E)" and "standing E p gen off v" and "final p gen (Suc n) w'" and "history E v1 w'"
  shows "map stored (asked (norm_after (Some off)) None (stitched_log (Suc n) w' p))
      = rb_messages (snap_batch s) @ map stored (asked (norm_after (Some (batch_offset s))) None (stitched_log (Suc n) w' p))"
    and "standing E p gen (batch_offset s) v1" and "on_course E v1"
proof -
  obtain u m where u: "history E v u" "history E u v1" "on_course E u" "on_course E v1" "db_meta (db_of u p) = Some m"
    "generation m = gen" "regular_chain (Suc n) u p \<longrightarrow> snap_meta s = m
      \<and> page_of (asked (norm_after (Some off)) None (stitched_log (Suc n) u p)) MAX_READ_ROWS MAX_READ_BYTES (snap_batch s)"
    by (rule snapshot_page [OF assms(1,2)])
  have uw: "history E u w'" by (rule history_trans [OF assms(6) u(2)])
  obtain N where N: "stitched_log (Suc n) w' p = stitched_log (Suc n) u p @ N"
    "ends_at (stitched_log (Suc n) u p) (current_offset m) N" and reg: "regular_chain (Suc n) u p"
    by (rule final_log [OF assms(5) u(3) uw assms(3) u(5,6)])
  from u(7) reg have page: "snap_meta s = m"
    "page_of (asked (norm_after (Some off)) None (stitched_log (Suc n) u p)) MAX_READ_ROWS MAX_READ_BYTES (snap_batch s)"
    by blast+
  have off: "off = ''-1'' \<or> off \<le> current_offset m"
    using assms(4) current_forward [OF assms(5,3) uw history_trans [OF u(1)] _ _ _ u(3,5,6)]
    by (auto simp: standing_def intro: order_trans)
  have nxt: "batch_offset s = (if rb_messages (snap_batch s) = [] then current_offset m
      else sm_offset (last (rb_messages (snap_batch s))))"
    by (simp add: batch_offset_def page(1))
  note step = page_step [OF N(2) page(2) off nxt]
  show "map stored (asked (norm_after (Some off)) None (stitched_log (Suc n) w' p))
      = rb_messages (snap_batch s) @ map stored (asked (norm_after (Some (batch_offset s))) None (stitched_log (Suc n) w' p))"
    unfolding N(1) by (rule step(1))
  show "standing E p gen (batch_offset s) v1"
    using u(2,3,5,6) step(2) by (auto simp: standing_def)
  show "on_course E v1" by (rule u(4))
qed

lemma sent_first:
  "and_then X (\<lambda>rest. ret (c # rest)) v = (Inr cs, w') \<Longrightarrow> \<exists>rest. cs = c # rest \<and> X v = (Inr rest, w')"
  by (auto simp: and_then_Inr act_run)

lemma turn_cases:
  assumes "(if c then ret [Data fr True] else if g then ret [] else and_then X (\<lambda>rest. ret (Data fr False # rest))) v
    = (Inr cs, w')"
  obtains (last) "cs = [Data fr c]" "w' = v" | (gone) "cs = []" | (more) rest where "cs = Data fr c # rest" "X v = (Inr rest, w')"
  using assms by (cases c; cases g) (auto simp: act_run dest: sent_first)

text \<open>After a frame the loop goes on, at once or after a wait, or it ends.\<close>

lemma rest_delivers:
  assumes "(if capped then X else if over then ret [Data [] True]
      else and_then a (\<lambda>_. if abort then ret [] else X)) v1 = (Inr rest, w')"
    and "activity E a" and "on_course E v1"
    and "\<And>v2. on_course E v2 \<Longrightarrow> history E v1 v2 \<Longrightarrow> X v2 = (Inr rest, w')
      \<Longrightarrow> \<exists>ss. streamed E cursor b64 js ss rest \<and> prefix (concat (map (rb_messages \<circ> snap_batch) ss)) ms"
  shows "\<exists>ss. streamed E cursor b64 js ss rest \<and> prefix (concat (map (rb_messages \<circ> snap_batch) ss)) ms"
proof -
  consider (go) v2 where "on_course E v2" "history E v1 v2" "X v2 = (Inr rest, w')" | (stop) "rest \<in> {[], [Data [] True]}"
  proof (cases "capped \<or> over")
    case True
    with assms(1) show thesis
      using go [OF assms(3) history.begin_history] stop by (auto simp: act_run split: if_splits)
  next
    case False
    with assms(1) obtain v2 where v2: "a v1 = (Inr (), v2)" "(if abort then ret [] else X) v2 = (Inr rest, w')"
      by (auto simp: and_then_Inr)
    note v2' = lawful_run [OF lawful_activity [OF assms(2)] v2(1) assms(3)]
    show thesis using v2(2) go [OF v2'] stop by (auto simp: act_run split: if_splits)
  qed
  then show ?thesis
  proof cases
    case stop
    then show ?thesis by (intro exI [of _ "[]"]) auto
  qed (rule assms(4))
qed

text \<open>A turn of the loop: it takes no snapshot and the stream ends, or it sends one.\<close>

lemma pump_turn:
  assumes "pump_sse E k R p gen off cursor b64 js (T # Ts) v = (Inr cs, w')" and "turn_env T = quiet"
  obtains (ended) "streamed E cursor b64 js [] cs"
  | (taken) s v1 where "take_snapshot E k R quiet p (Some off) (Some gen) v = (Inr (Some s), v1)"
    "(if snap_closed s then ret [Data (sse_frame E (w_clock v1) (turn_random T) b64 js cursor s) True]
      else if turn_client_gone T then ret []
      else and_then
        (if rb_capped (snap_batch s) then pump_sse E k R p gen (batch_offset s) cursor b64 js Ts
         else if turn_lifetime_over T then ret [Data [] True]
         else and_then (turn_wait T) (\<lambda>_. if turn_abort T then ret []
                else pump_sse E k R p gen (batch_offset s) cursor b64 js Ts))
        (\<lambda>rest. ret (Data (sse_frame E (w_clock v1) (turn_random T) b64 js cursor s) False # rest))) v1 = (Inr cs, w')"
proof -
  obtain so v1 where snap: "take_snapshot E k R quiet p (Some off) (Some gen) v = (so, v1)"
    by (cases "take_snapshot E k R quiet p (Some off) (Some gen) v")
  then have tried: "and_then (attempt (take_snapshot E k R quiet p (Some off) (Some gen))) f v = f so v1"
    for f :: "read_snapshot option result \<Rightarrow> chunk list act"
    by (simp add: and_then_def attempt_def)
  have now: "and_then now_ms f v1 = f (w_clock v1) v1" for f :: "int \<Rightarrow> chunk list act"
    by (simp add: and_then_def now_ms_def)
  show thesis
  proof (cases "\<exists>s. so = Inr (Some s)")
    case False
    with assms show thesis
      by (intro ended) (auto simp: tried act_run split: sum.splits option.splits)
  next
    case True
    then obtain s where "so = Inr (Some s)" by blast
    with assms snap show thesis by (intro taken [of s v1]) (simp_all add: tried now Let_def)
  qed
qed

lemma pump_delivers:
  assumes "inj (new_v4 E)" and "final p gen (Suc n) w'" and "free_turns E Ts"
    and "pump_sse E k (rpc_at E k quiet n) p gen off cursor b64 js Ts v = (Inr cs, w')"
    and "on_course E v" and "standing E p gen off v"
  shows "\<exists>ss. streamed E cursor b64 js ss cs
    \<and> prefix (concat (map (rb_messages \<circ> snap_batch) ss))
        (map stored (asked (norm_after (Some off)) None (stitched_log (Suc n) w' p)))"
  using assms(3-6)
proof (induction Ts arbitrary: off v cs)
  case Nil
  then show ?case by (intro exI [of _ "[]"]) (simp add: act_run)
next
  case (Cons T Ts)
  have T: "turn_env T = quiet" "activity E (turn_wait T)" and Ts: "free_turns E Ts"
    using Cons.prems(1) by (auto simp: free_turns_def)
  from Cons.prems(2) T(1) show ?case
  proof (cases rule: pump_turn)
    case ended
    then show ?thesis by (intro exI [of _ "[]"]) simp
  next
    case (taken s v1)
    let ?next = "pump_sse E k (rpc_at E k quiet n) p gen (batch_offset s) cursor b64 js Ts"
    let ?rest = "if rb_capped (snap_batch s) then ?next
      else if turn_lifetime_over T then ret [Data [] True]
      else and_then (turn_wait T) (\<lambda>_. if turn_abort T then ret [] else ?next)"
    note step = turn_delivers [OF taken(1) Cons.prems(3) assms(1) Cons.prems(4) assms(2)]
    have v1: "on_course E v1" by (rule snapshot_page [OF taken(1) Cons.prems(3)])
    from taken(2) show ?thesis
    proof (cases rule: turn_cases)
      case last
      have "history E v1 w'" unfolding last(2) by (rule history.begin_history)
      from step(1) [OF this] last(1) show ?thesis by (intro exI [of _ "[s]"]) auto
    next
      case gone
      then show ?thesis by (intro exI [of _ "[]"]) simp
    next
      case (more rest)
      have "lawful E (ret c)" "lawful E (turn_wait T)" "lawful E ?next" for c :: "chunk list"
        using lawful_activity [OF T(2)] lawful_pump [OF Ts] by (simp_all add: lawful_def gives_pure)
      then have "lawful E ?rest" by (simp add: lawful_def gives_and_then_keeps)
      note step = step [OF lawful_run(2) [OF this more(2) v1]]
      have "\<exists>ss. streamed E cursor b64 js ss rest \<and> prefix (concat (map (rb_messages \<circ> snap_batch) ss))
          (map stored (asked (norm_after (Some (batch_offset s))) None (stitched_log (Suc n) w' p)))"
        by (rule rest_delivers [OF more(2) T(2) v1]) (rule Cons.IH [OF Ts], assumption+, rule standing_later [OF step(2)])
      then obtain ss where "streamed E cursor b64 js ss rest" "prefix (concat (map (rb_messages \<circ> snap_batch) ss))
          (map stored (asked (norm_after (Some (batch_offset s))) None (stitched_log (Suc n) w' p)))" by blast
      with step(1) more(1) show ?thesis by (intro exI [of _ "s # ss"]) (auto simp: comp_def)
    qed
  qed
qed

subsection \<open>The answer to a live request\<close>

text \<open>What a live request starts from, if it is not refused.\<close>

lemma start_sse_run:
  "start_sse E R p off cursor w = (Inr (Inr (hs, st)), v) \<Longrightarrow>
    \<exists>u m r. visible_meta E R p (w_clock w) w = (Inr (Some m), u) \<and> try_acquire ''no permit'' u = (r, v)
      \<and> st = \<lparr>sse_generation = generation m, sse_offset = (if off = ''now'' then current_offset m else off),
          sse_cursor = cursor, sse_use_base64 = sse_base64 m, sse_is_json = is_json_stream m\<rparr>"
  by (auto simp: start_sse_def and_then_def act_run attempt_def Let_def
      split: option.split_asm if_split_asm sum.split_asm prod.split_asm split del: if_split)

lemma started:
  assumes "on_fetch_response E k (rpc_at E k quiet n) Y L Y' Ts rnd aid p req w = (Inr (Streaming hs cs), w')"
    and "get_checks E req = Inr (Inr (StartSse off cursor))" and "req_method req = GET" and "on_course E w"
  obtains u v m where "history E w u" "on_course E u" "db_meta (db_of u p) = Some m" "history E u v" "on_course E v"
    "pump_sse E k (rpc_at E k quiet n) p (generation m) (if off = ''now'' then current_offset m else off) cursor
       (sse_base64 m) (is_json_stream m) Ts v = (Inr cs, w')"
proof -
  let ?R = "rpc_at E k quiet n"
  have run: "run_sse E k ?R p off cursor Ts w = (Inr (Streaming hs cs), w')"
    using assms(1-3) by (simp add: on_fetch_response_def handle_get_def lift_result_def and_then_def)
  obtain hs' st v where st: "start_sse E ?R p off cursor w = (Inr (Inr (hs', st)), v)"
    and cs: "pump_sse E k ?R p (sse_generation st) (sse_offset st) (sse_cursor st) (sse_use_base64 st) (sse_is_json st) Ts v
      = (Inr cs, w')"
    using run by (auto simp: run_sse_def and_then_def act_run split: sum.split_asm prod.split_asm)
  obtain u m r where vis: "visible_meta E ?R p (w_clock w) w = (Inr (Some m), u)"
    and permit: "try_acquire ''no permit'' u = (r, v)"
    and stv: "st = \<lparr>sse_generation = generation m, sse_offset = (if off = ''now'' then current_offset m else off),
      sse_cursor = cursor, sse_use_base64 = sse_base64 m, sse_is_json = is_json_stream m\<rparr>"
    using start_sse_run [OF st] by blast
  note v = lawful_run [OF lawful_acquire permit]
  note u = lawful_run [OF lawful_visible vis assms(4)]
  have "db_meta (db_of u p) = Some m" using visible_meta_Some vis by (simp add: visible_meta_def)
  then show thesis
    by (rule that [OF u(2,1) _ v(2,1) [OF u(1)]]) (use cs stv in simp)
qed

lemma lawful_pump_world:
  assumes "free_turns E Ts" and "pump_sse E k (rpc_at E k quiet n) p gen off cursor b64 js Ts v = (Inr cs, w')" and "on_course E v"
  shows "history E v w'" and "wf_world w'"
  using lawful_run [OF lawful_pump [OF assms(1)] assms(2,3)] by (simp_all add: on_course_def)

text \<open>
  C9. A live reader misses nothing. Whatever goes on between the turns of the loop (appends and other
  requests, expiry, maintenance, failures, the clock), however many turns there are, and through however
  many sources the stream is read, the answer to a live request is the log: its frames carry, one after
  the other and in the encoding of the stream's content type, the messages of the stitched log from behind
  the offset of the request, in their order, none skipped, none twice; from \<open>now\<close> they start at an end of
  the log not before the one of the request. (At the end the stream and its sources are still the ones
  that were read, the logs are under ten petabytes, nothing else runs within a read, and the offset of
  the request is not behind the end.)
\<close>

theorem event_stream_delivers_log:
  assumes "reachable E w" and "inj (new_v4 E)" and "free_turns E Ts" and "req_method req = GET"
    and "get_checks E req = Inr (Inr (StartSse off cursor))" and "db_meta (db_of w p) = Some m"
    and "off \<in> {''-1'', ''now''} \<or> off \<le> current_offset m"
    and "on_fetch_response E k (rpc_at E k quiet n) Y L Y' Ts rnd aid p req w = (Inr (Streaming hs cs), w')"
    and "db_meta (db_of w' p) = Some m'" and "generation m' = generation m"
    and "regular_chain (Suc n) w' p" and "unbroken (Suc n) w' p"
  shows "\<exists>start ss. (if off = ''now'' then current_offset m \<le> start else start = off)
    \<and> streamed E cursor (sse_base64 m) (is_json_stream m) ss cs
    \<and> prefix (concat (map (rb_messages \<circ> snap_batch) ss))
        (map stored (asked (norm_after (Some start)) None (stitched_log (Suc n) w' p)))"
proof -
  have w: "on_course E w" by (rule reachable_on_course [OF assms(1)])
  obtain u v mu where u: "history E w u" "on_course E u" "db_meta (db_of u p) = Some mu" and v: "history E u v" "on_course E v"
    and pump: "pump_sse E k (rpc_at E k quiet n) p (generation mu) (if off = ''now'' then current_offset mu else off) cursor
       (sse_base64 mu) (is_json_stream mu) Ts v = (Inr cs, w')"
    by (rule started [OF assms(8,5,4) w])
  note w' = lawful_pump_world [OF assms(3) pump v(2)]
  have uw: "history E u w'" by (rule history_trans [OF w'(1) v(1)])
  obtain t where t: "history E (initial_world t) w" using w by (auto simp: on_course_def)
  have sound: "sound E w" by (rule history_sound [OF t initial_sound])
  have "issued E u (generation m')"
    using issued_mono [OF sound_issued [OF sound assms(6)] history_uuids [OF u(1)]] assms(10) by simp
  then have gen: "generation mu = generation m"
    using history_row [OF uw history_sound [OF u(1) sound] assms(2) _ assms(9) refl] u(3) assms(10) by (auto dest: lineageD(1))
  have ct: "content_type mu = content_type m" using log_kept [OF t u(1) assms(2,6) u(3) gen] by simp
  have final: "final p (generation m) (Suc n) w'"
    using w'(2) assms(9-12) by (simp add: final_def del: regular_chain.simps unbroken.simps)
  have forward: "current_offset m \<le> current_offset mu"
    by (rule current_forward [OF final assms(2) uw u(1) w assms(6) refl u(2,3) gen])
  let ?start = "if off = ''now'' then current_offset mu else off"
  have "standing E p (generation m) ?start u"
    using u gen history.begin_history assms(7) forward by (fastforce simp: standing_def intro: order_trans)
  from pump_delivers [OF assms(2) final assms(3) pump [unfolded gen] v(2) standing_later [OF this v(1)]]
  show ?thesis using forward ct by (intro exI [of _ ?start]) (simp add: sse_base64_def is_json_stream_def)
qed

end
