(* ===== verification/Columns.thy ===== *)
theory Columns
  imports Store
begin

text \<open>
  How the row of a stream travels through SQLite: the values that \<open>create_meta\<close> binds, the columns that
  \<open>meta_select\<close> asks for, and \<open>parse_meta\<close>, which reads them back and refuses what it does not expect.
  The rest of the development works with the record \<open>meta\<close>; here it is shown to be what the columns
  stand for.
\<close>

text \<open>A value of a column, or of a parameter. \<open>Other\<close> is any further variant of the host's type.\<close>

datatype column = Null | Integer int | Text string | Blob bytes | Other

type_synonym row = "column list"

subsection \<open>Binding\<close>

definition bind_optional_text :: "string option \<Rightarrow> column" where
  "bind_optional_text v = (case v of None \<Rightarrow> Null | Some s \<Rightarrow> Text s)"

definition bind_optional_int :: "int option \<Rightarrow> column" where
  "bind_optional_int v = (case v of None \<Rightarrow> Null | Some n \<Rightarrow> Integer n)"

subsection \<open>Reading columns\<close>

definition text_column :: "column option \<Rightarrow> string result" where
  "text_column v = (case v of Some (Text s) \<Rightarrow> Inr s | _ \<Rightarrow> Inl ''expected text column'')"

definition optional_text :: "column option \<Rightarrow> string option result" where
  "optional_text v =
     (case v of Some (Text s) \<Rightarrow> Inr (Some s) | Some Null \<Rightarrow> Inr None | _ \<Rightarrow> Inl ''expected optional text column'')"

definition int_column :: "column option \<Rightarrow> int result" where
  "int_column v = (case v of Some (Integer n) \<Rightarrow> Inr n | _ \<Rightarrow> Inl ''expected integer column'')"

definition optional_int :: "column option \<Rightarrow> int option result" where
  "optional_int v =
     (case v of Some (Integer n) \<Rightarrow> Inr (Some n) | Some Null \<Rightarrow> Inr None | _ \<Rightarrow> Inl ''expected optional integer column'')"

definition blob :: "column option \<Rightarrow> bytes result" where
  "blob v = (case v of Some (Blob b) \<Rightarrow> Inr b | _ \<Rightarrow> Inl ''expected blob column'')"

text \<open>\<open>row.get(i)\<close>: the column if the row has that many.\<close>

definition column_at :: "row \<Rightarrow> nat \<Rightarrow> column option" where
  "column_at r i = (if i < length r then Some (r ! i) else None)"

definition parse_meta :: "row \<Rightarrow> meta result" where
  "parse_meta r =
     result_bind (text_column (column_at r 0)) (\<lambda>gen.
     result_bind (optional_text (column_at r 1)) (\<lambda>ct.
     result_bind (optional_int (column_at r 2)) (\<lambda>ttl.
     result_bind (optional_text (column_at r 3)) (\<lambda>ex.
     result_bind (int_column (column_at r 4)) (\<lambda>cl.
     result_bind (optional_text (column_at r 5)) (\<lambda>by'.
     result_bind (text_column (column_at r 6)) (\<lambda>off.
     result_bind (optional_text (column_at r 7)) (\<lambda>seq.
     result_bind (int_column (column_at r 8)) (\<lambda>created.
     result_bind (int_column (column_at r 9)) (\<lambda>accessed.
     result_bind (optional_text (column_at r 10)) (\<lambda>ff.
     result_bind (optional_text (column_at r 11)) (\<lambda>fo.
     result_bind (optional_int (column_at r 12)) (\<lambda>fso.
     result_bind (optional_text (column_at r 13)) (\<lambda>fe.
     result_bind (optional_text (column_at r 14)) (\<lambda>fsg.
     result_bind (int_column (column_at r 15)) (\<lambda>sd.
       Inr \<lparr>generation = gen, content_type = ct, ttl_seconds = ttl, expires_at = ex, closed = (cl \<noteq> 0),
            closed_by = by', current_offset = off, last_seq = seq, created_at = created,
            last_accessed_at = accessed, forked_from = ff, fork_offset = fo, fork_sub_offset = fso,
            fork_edge_id = fe, fork_source_gen = fsg, soft_deleted = (sd \<noteq> 0)\<rparr>))))))))))))))))"

subsection \<open>The row of a stream\<close>

definition flag :: "bool \<Rightarrow> column" where
  "flag b = Integer (if b then 1 else 0)"

text \<open>The columns that \<open>meta_select\<close> asks for, in its order.\<close>

definition meta_select :: "meta \<Rightarrow> row" where
  "meta_select m =
     [Text (generation m), bind_optional_text (content_type m), bind_optional_int (ttl_seconds m),
      bind_optional_text (expires_at m), flag (closed m), bind_optional_text (closed_by m),
      Text (current_offset m), bind_optional_text (last_seq m), Integer (created_at m),
      Integer (last_accessed_at m), bind_optional_text (forked_from m), bind_optional_text (fork_offset m),
      bind_optional_int (fork_sub_offset m), bind_optional_text (fork_edge_id m),
      bind_optional_text (fork_source_gen m), flag (soft_deleted m)]"

text \<open>The parameters that \<open>create_meta\<close> binds, and the row its \<open>INSERT\<close> makes of them.\<close>

definition create_params ::
  "string \<Rightarrow> string option \<Rightarrow> int option \<Rightarrow> string option \<Rightarrow> bool \<Rightarrow> string \<Rightarrow> int \<Rightarrow> string option
     \<Rightarrow> string option \<Rightarrow> int option \<Rightarrow> string option \<Rightarrow> string option \<Rightarrow> row" where
  "create_params gen ct ttl ex cl initial now ff fo fso fe fsg =
     [Text gen, bind_optional_text ct, bind_optional_int ttl, bind_optional_text ex, flag cl, Text initial,
      Integer now, Integer now, bind_optional_text ff, bind_optional_text fo, bind_optional_int fso,
      bind_optional_text fe, bind_optional_text fsg]"

definition inserted_row :: "row \<Rightarrow> row" where
  "inserted_row ps = take 5 ps @ [Null, ps ! 5, Null] @ drop 6 ps @ [Integer 0]"

lemma column_simps [simp]:
  "text_column (Some (Text s)) = Inr s" "int_column (Some (Integer n)) = Inr n"
  "optional_text (Some (bind_optional_text v)) = Inr v" "optional_int (Some (bind_optional_int i)) = Inr i"
  "int_column (Some (flag b)) = Inr (if b then 1 else 0)" "optional_text (Some Null) = Inr None"
  by (simp_all add: text_column_def int_column_def optional_text_def optional_int_def bind_optional_text_def
      bind_optional_int_def flag_def split: option.split)

lemma column_at_simps [simp]:
  "column_at (c # r) 0 = Some c" "column_at (c # r) (Suc i) = column_at r i" "column_at [] i = None"
  by (simp_all add: column_at_def)

text \<open>
  C31. Writing the row of a stream and reading it back gives the same stream, whatever its options;
  and the row that creating a stream inserts reads as the stream that \<open>create_meta\<close> describes.
\<close>

theorem meta_row_roundtrip:
  "parse_meta (meta_select m) = Inr m
   \<and> (case create_meta tx gen ct ttl ex cl now ff fo fso fe fsg of
        Inl e \<Rightarrow> db_meta tx \<noteq> None
      | Inr tx' \<Rightarrow> db_meta tx = None
          \<and> map_option Inr (db_meta tx') = Some (parse_meta (inserted_row (create_params gen ct ttl ex cl
               (if ff \<noteq> None then (case fo of Some f \<Rightarrow> f | None \<Rightarrow> ZERO_OFFSET) else ZERO_OFFSET) now ff fo fso fe fsg))))"
proof
  show "parse_meta (meta_select m) = Inr m"
    by (simp add: parse_meta_def meta_select_def numeral_eq_Suc result_bind_def)
  show "case create_meta tx gen ct ttl ex cl now ff fo fso fe fsg of
        Inl e \<Rightarrow> db_meta tx \<noteq> None
      | Inr tx' \<Rightarrow> db_meta tx = None
          \<and> map_option Inr (db_meta tx') = Some (parse_meta (inserted_row (create_params gen ct ttl ex cl
               (if ff \<noteq> None then (case fo of Some f \<Rightarrow> f | None \<Rightarrow> ZERO_OFFSET) else ZERO_OFFSET) now ff fo fso fe fsg)))"
    by (cases ff) (simp_all add: create_meta_def parse_meta_def inserted_row_def create_params_def numeral_eq_Suc result_bind_def
        Let_def split: option.split)
qed

end
