(* ===== verification/Hosting.thy ===== *)
theory Hosting
  imports Facade Network
begin

text \<open>
  What surrounds the streams: how an actor comes into being and finds the source of a fork
  (\<open>src/actor.rs\<close>, \<open>src/actor/fork.rs\<close>), the inspector tabs and the configuration it is registered with
  (\<open>src/lib.rs\<close>), the routes (\<open>src/facade.rs\<close>), and the server's configuration from its arguments and
  environment (\<open>src/main.rs\<close>). The URL parser, percent decoding and the file system are parameters.
\<close>

subsection \<open>Actors\<close>

definition ACTOR_NAME :: string where "ACTOR_NAME = ''durableStream''"

record durable_stream_input =
  di_path :: string
  di_tenant_scope :: string

record durable_stream_state =
  dt_path :: string
  dt_tenant_scope :: string

definition create_state :: "durable_stream_input \<Rightarrow> durable_stream_state" where
  "create_state i = \<lparr>dt_path = di_path i, dt_tenant_scope = di_tenant_scope i\<rparr>"

text \<open>What an actor holds besides its database: the change counter and the permits for readers.\<close>

record durable_stream_actor =
  da_changes :: "64 word"
  da_live_readers :: nat
  da_readers :: nat

definition create_actor :: "schema \<Rightarrow> durable_stream_actor result \<times> schema" where
  "create_actor s =
     (case ensure_schema s of
        (Inl e, s') \<Rightarrow> (Inl e, s')
      | (Inr _, s') \<Rightarrow> (Inr \<lparr>da_changes = 0, da_live_readers = 64, da_readers = 32\<rparr>, s'))"

definition on_start :: "'j ext \<Rightarrow> rpc \<Rightarrow> string \<Rightarrow> unit act" where
  "on_start E R p = run_maintenance E R p"

text \<open>The handle of the actor that a fork calls: its name, its key, and the input it is created with.\<close>

definition source_handle ::
  "facade_ext \<Rightarrow> durable_stream_state \<Rightarrow> string \<Rightarrow> string \<times> string list \<times> durable_stream_input" where
  "source_handle fx st path =
     (ACTOR_NAME, [stream_actor_key fx (dt_tenant_scope st) path],
      \<lparr>di_path = path, di_tenant_scope = dt_tenant_scope st\<rparr>)"

subsection \<open>Routes\<close>

definition default_config :: config where
  "default_config = \<lparr>cf_tenant_scope = ''default'', cf_public_origin = None\<rparr>"

text \<open>\<open>/\<close> and \<open>/{*path}\<close>, below the prefix that the host application has stripped.\<close>

definition durable_streams_router ::
  "'j ext \<Rightarrow> config \<Rightarrow> facade_ext \<Rightarrow> client \<Rightarrow> public_request \<Rightarrow> facade_response" where
  "durable_streams_router E cf fx cl req =
     (if pq_path req = ''/'' then handle_root (pq_method req) else handle E cf fx cl req)"

subsection \<open>Registration\<close>

text \<open>
  The embedded inspector is extracted once per process, into a fresh directory: \<open>cell\<close> is the
  once-cell, \<open>tempdir\<close> and \<open>extract\<close> what the file system answers.
\<close>

definition embedded_inspector_root ::
  "string result \<Rightarrow> (string \<Rightarrow> unit result) \<Rightarrow> string result option \<Rightarrow> string result \<times> string result option" where
  "embedded_inspector_root tempdir extract cell =
     (let extracted =
        (case cell of
           Some r \<Rightarrow> r
         | None \<Rightarrow>
             (case tempdir of
                Inl e \<Rightarrow> Inl (''create inspector temp directory: '' @ e)
              | Inr dir \<Rightarrow>
                  (case extract dir of
                     Inl e \<Rightarrow> Inl (''extract embedded inspector bundle: '' @ e)
                   | Inr _ \<Rightarrow> Inr dir)))
      in (extracted, Some extracted))"

datatype inspector_tab =
    Custom (tab_id: string) (tab_label: string) (tab_icon: "string option") (tab_root: string)
  | HideBuiltin (tab_id: string)

definition inspector_tabs :: "string \<Rightarrow> inspector_tab list" where
  "inspector_tabs root =
     map (\<lambda>(i, l, c). Custom i l (Some c) root)
       [(''stream-overview'', ''Overview'', ''tag''), (''stream-messages'', ''Messages'', ''logs''),
        (''stream-producers'', ''Producers'', ''microchip''), (''stream-forks'', ''Forks'', ''workflow''),
        (''stream-maintenance'', ''Maintenance'', ''wrench'')]
     @ map HideBuiltin [''workflow'', ''database'', ''state'', ''queue'', ''schedules'', ''connections'', ''console'']"

record actor_config =
  ac_has_database :: bool
  ac_has_state :: bool
  ac_max_outgoing_message_size :: nat
  ac_inspector_tabs :: "inspector_tab list"

text \<open>\<open>embedded\<close> is the root of the extracted bundle, or the error of extracting it, which is logged.\<close>

definition register_with_inspector :: "string option \<Rightarrow> string result \<Rightarrow> string \<times> actor_config" where
  "register_with_inspector inspector_root embedded =
     (let root = (case inspector_root of
                    Some r \<Rightarrow> Some r
                  | None \<Rightarrow> (case embedded of Inr r \<Rightarrow> Some r | Inl _ \<Rightarrow> None))
      in (ACTOR_NAME,
          \<lparr>ac_has_database = True, ac_has_state = True, ac_max_outgoing_message_size = 6 * 1024 * 1024,
           ac_inspector_tabs = (case root of None \<Rightarrow> [] | Some r \<Rightarrow> inspector_tabs r)\<rparr>))"

definition register :: "string result \<Rightarrow> string \<times> actor_config" where
  "register embedded = register_with_inspector None embedded"

subsection \<open>The server's configuration\<close>

record serve_config =
  sc_endpoint :: string
  sc_namespace :: string
  sc_token :: "string option"
  sc_pool_name :: string

record client_settings =
  cc_endpoint :: string
  cc_token :: "string option"
  cc_namespace :: string
  cc_pool_name :: string
  cc_headers :: "(string \<times> string) list"

record 'u url_ext =
  url_parse :: "string \<Rightarrow> 'u result"
  url_username :: "'u \<Rightarrow> string"
  url_password :: "'u \<Rightarrow> string option"
  url_clear_username :: "'u \<Rightarrow> 'u option"
  url_clear_password :: "'u \<Rightarrow> 'u option"
  url_to_string :: "'u \<Rightarrow> string"
  percent_decode_utf8 :: "string \<Rightarrow> string option"

text \<open>The port: the argument, else \<open>PORT\<close>, else \<open>RIVET_PORT\<close>, else 8787.\<close>

definition parse_u16 :: "string \<Rightarrow> nat option" where
  "parse_u16 s = (case parse_u64 s of Some n \<Rightarrow> if n < 65536 then Some n else None | None \<Rightarrow> None)"

definition server_port :: "nat option \<Rightarrow> string option \<Rightarrow> string option \<Rightarrow> nat result" where
  "server_port arg env_port env_rivet_port =
     (case arg of
        Some p \<Rightarrow> Inr p
      | None \<Rightarrow>
          (case (case env_port of Some v \<Rightarrow> Some v | None \<Rightarrow> env_rivet_port) of
             None \<Rightarrow> Inr 8787
           | Some v \<Rightarrow> (case parse_u16 v of Some p \<Rightarrow> Inr p | None \<Rightarrow> Inl ''parse PORT'')))"

definition client_config :: "serve_config \<Rightarrow> client_settings" where
  "client_config sc =
     \<lparr>cc_endpoint = sc_endpoint sc, cc_token = sc_token sc, cc_namespace = sc_namespace sc,
      cc_pool_name = sc_pool_name sc,
      cc_headers = (case sc_token sc of None \<Rightarrow> [] | Some t \<Rightarrow> [(''authorization'', ''Bearer '' @ t)])\<rparr>"

definition normalize_serve_config :: "'u url_ext \<Rightarrow> serve_config \<Rightarrow> serve_config result" where
  "normalize_serve_config ux sc =
     result_bind (url_parse ux (sc_endpoint sc)) (\<lambda>endpoint.
       let sc1 = (case percent_decode_utf8 ux (url_username ux endpoint) of
                    Some namespace \<Rightarrow> if namespace \<noteq> [] then sc\<lparr>sc_namespace := namespace\<rparr> else sc
                  | None \<Rightarrow> sc);
           sc2 = (case Option.bind (url_password ux endpoint) (percent_decode_utf8 ux) of
                    Some token \<Rightarrow> sc1\<lparr>sc_token := Some token\<rparr>
                  | None \<Rightarrow> sc1)
       in case url_clear_username ux endpoint of
            None \<Rightarrow> Inl ''clear RIVET_ENDPOINT username''
          | Some u1 \<Rightarrow>
              (case url_clear_password ux u1 of
                 None \<Rightarrow> Inl ''clear RIVET_ENDPOINT password''
               | Some u2 \<Rightarrow> Inr (sc2\<lparr>sc_endpoint := trim_end_slashes (url_to_string ux u2)\<rparr>)))"

subsection \<open>Properties\<close>

text \<open>
  A fork finds its source under the path as the client wrote it, a public request its stream under
  the canonical form of the path: they mean the same actor exactly when the path is canonical.
\<close>

theorem source_is_public_stream:
  assumes "inj (sha256_hex fx)" and "canonical_stream_path fx path = Inr canonical"
    and "dt_tenant_scope st = cf_tenant_scope cf"
  shows "fst (snd (source_handle fx st path)) = [stream_actor_key fx (cf_tenant_scope cf) canonical]
    \<longleftrightarrow> path = canonical"
  using assms by (auto simp: source_handle_def stream_actor_key_def actor_key_text_def inj_eq)

text \<open>
  The endpoint that the server keeps has no credentials, so bringing its configuration into
  shape a second time changes nothing. (Clearing the credentials of a URL succeeds and removes
  them, its text parses to itself, also without a slash at its end, and decoding nothing gives
  nothing.)
\<close>

lemma normalize_serve_config_idempotent:
  assumes "normalize_serve_config ux sc = Inr sc'"
    and "\<And>u u1 u2. url_clear_username ux u = Some u1 \<Longrightarrow> url_clear_password ux u1 = Some u2 \<Longrightarrow>
        url_username ux u2 = [] \<and> url_password ux u2 = None
        \<and> url_clear_username ux u2 = Some u2 \<and> url_clear_password ux u2 = Some u2
        \<and> url_parse ux (trim_end_slashes (url_to_string ux u2)) = Inr u2"
    and "percent_decode_utf8 ux [] = Some []"
  shows "normalize_serve_config ux sc' = Inr sc'"
proof -
  from assms(1) obtain u where run: "normalize_serve_config ux sc = Inr sc'" "url_parse ux (sc_endpoint sc) = Inr u"
    by (auto simp: normalize_serve_config_def result_bind_Inr_iff)
  then obtain u1 where u1: "url_clear_username ux u = Some u1"
    by (cases "url_clear_username ux u") (simp_all add: normalize_serve_config_def Let_def)
  with run obtain u2 where u2: "url_clear_password ux u1 = Some u2"
    by (cases "url_clear_password ux u1") (simp_all add: normalize_serve_config_def Let_def)
  have u: "url_clear_username ux u = Some u1" "url_clear_password ux u1 = Some u2"
    "sc_endpoint sc' = trim_end_slashes (url_to_string ux u2)"
    using run u1 u2 by (auto simp: normalize_serve_config_def Let_def)
  from assms(2) [OF u(1,2)] u(3) assms(3) show ?thesis
    by (simp add: normalize_serve_config_def)
qed

end
