(* ===== verification/Serverless.thy ===== *)
theory Serverless
  imports Facade
begin

text \<open>
  \<open>src/serverless_http.rs\<close>: the adapter between an HTTP server and the serverless runtime of the host
  library, which is a parameter with the HTTP library's collecting of a body. A streamed body is the
  list of its chunks; dropping it cancels the request, which is the host's affair.
\<close>

text \<open>
  The loop that copies a header map into a map of texts: values that are not visible ASCII are
  skipped, and further values of a name are appended to the first.
\<close>

fun copy_loop :: "facade_ext \<Rightarrow> header_list \<Rightarrow> (string \<rightharpoonup> string) \<Rightarrow> (string \<rightharpoonup> string)" where
  "copy_loop fx [] hs = hs"
| "copy_loop fx ((name, v) # rest) hs =
     (case header_value_to_str fx v of
        None \<Rightarrow> copy_loop fx rest hs
      | Some s \<Rightarrow>
          copy_loop fx rest (hs(name \<mapsto> (case hs name of Some existing \<Rightarrow> existing @ '', '' @ s | None \<Rightarrow> s))))"

definition copy_headers :: "facade_ext \<Rightarrow> header_list \<Rightarrow> (string \<rightharpoonup> string)" where
  "copy_headers fx source = copy_loop fx source Map.empty"

record serverless_request =
  sr_method :: string
  sr_url :: string
  sr_headers :: "string \<rightharpoonup> string"
  sr_body :: bytes

record serverless_response =
  sp_status :: nat
  sp_headers :: "(string \<times> string) list"
  sp_body :: "bytes result list"

record http_output =
  ho_status :: nat
  ho_headers :: header_list
  ho_body :: "bytes result list"

text \<open>\<open>header_name_from\<close> is \<open>HeaderName::try_from\<close>; \<open>StatusCode::from_u16\<close> takes three digits.\<close>

definition into_response :: "facade_ext \<Rightarrow> (string \<Rightarrow> string option) \<Rightarrow> serverless_response \<Rightarrow> http_output" where
  "into_response fx header_name_from sp =
     \<lparr>ho_status = (if 100 \<le> sp_status sp \<and> sp_status sp < 1000 then sp_status sp else 500),
      ho_headers = concat (map (\<lambda>(n, v).
        case (header_name_from n, header_value_from_str fx v) of
          (Some name, Inr val) \<Rightarrow> [(name, val)]
        | _ \<Rightarrow> []) (sp_headers sp)),
      ho_body = sp_body sp\<rparr>"

record incoming =
  in_method :: string
  in_path_and_query :: "string option"
  in_headers :: header_list
  in_body :: "bytes result list"

text \<open>\<open>to_bytes\<close> of the HTTP library collects a body up to a limit; the runtime answers.\<close>

record runtime =
  rt_max_body :: nat
  rt_too_long :: serverless_response
  rt_handle :: "serverless_request \<Rightarrow> serverless_response"

definition serverless_handle ::
  "facade_ext \<Rightarrow> (string \<Rightarrow> string option) \<Rightarrow> (bytes result list \<Rightarrow> nat \<Rightarrow> bytes option) \<Rightarrow> runtime \<Rightarrow> incoming
     \<Rightarrow> http_output" where
  "serverless_handle fx header_name_from to_bytes rt req =
     (case to_bytes (in_body req) (rt_max_body rt) of
        None \<Rightarrow> into_response fx header_name_from (rt_too_long rt)
      | Some body \<Rightarrow>
          into_response fx header_name_from (rt_handle rt
            \<lparr>sr_method = in_method req,
             sr_url = ''http://internal'' @ (case in_path_and_query req of None \<Rightarrow> ''/'' | Some pq \<Rightarrow> pq),
             sr_headers = copy_headers fx (in_headers req), sr_body = body\<rparr>))"

subsection \<open>Properties\<close>

definition readable_values :: "facade_ext \<Rightarrow> header_list \<Rightarrow> string \<Rightarrow> string list" where
  "readable_values fx hs name =
     concat (map (\<lambda>(n, v). case header_value_to_str fx v of Some s \<Rightarrow> if n = name then [s] else [] | None \<Rightarrow> []) hs)"

fun join_comma :: "string list \<Rightarrow> string option" where
  "join_comma [] = None"
| "join_comma (s # ss) = Some (foldl (\<lambda>acc t. acc @ '', '' @ t) s ss)"

lemma readable_values_simps [simp]:
  "readable_values fx [] name = []"
  "readable_values fx ((n, v) # hs) name =
     (case header_value_to_str fx v of Some s \<Rightarrow> if n = name then [s] else [] | None \<Rightarrow> []) @ readable_values fx hs name"
  by (simp_all add: readable_values_def)

lemma copy_loop_name:
  "copy_loop fx source hs name =
     (case hs name of
        None \<Rightarrow> join_comma (readable_values fx source name)
      | Some s \<Rightarrow> join_comma (s # readable_values fx source name))"
proof (induction fx source hs rule: copy_loop.induct)
  case (1 fx hs)
  then show ?case by (simp split: option.split)
next
  case (2 fx n v rest hs)
  show ?case
  proof (cases "header_value_to_str fx v")
    case None
    then show ?thesis by (simp add: 2(1) split: option.split)
  next
    case (Some s)
    then show ?thesis
      using 2(2) [OF Some] by (cases "hs n"; cases "n = name") (auto simp: fun_upd_def split: option.splits)
  qed
qed

text \<open>
  C39. Copying a header map loses nothing a text can hold: under every name stands what the client
  sent under it, all readable values in order, joined by commas; and nothing else.
\<close>

theorem copy_headers_exact: "copy_headers fx source name = join_comma (readable_values fx source name)"
  by (simp add: copy_headers_def copy_loop_name)

end
