(* ===== verification/Startup.thy ===== *)
theory Startup
  imports Hosting Serverless
begin

text \<open>
  The server program, \<open>main\<close> of \<open>src/main.rs\<close>: what it starts with and how it ends. The process is its
  arguments, its environment and what the libraries answer (\<open>main_ext\<close>); the two serving tasks are
  the outcomes they come to, and the order in which they and the interrupt happen is an argument.
  An error is its text, or that of the context that is put over it.
\<close>

subsection \<open>Starting\<close>

record args =
  ag_host :: string
  ag_port :: "nat option"

record 'u main_ext =
  mx_url :: "'u url_ext"
  mx_client_new :: "client_settings \<Rightarrow> unit result"
  mx_parse_address :: "string \<Rightarrow> unit result"
  mx_bind :: "string \<Rightarrow> unit result"
  mx_into_serverless :: "serve_config \<Rightarrow> unit result"

definition with_context :: "string \<Rightarrow> 'a result \<Rightarrow> 'a result" where
  "with_context what r = (case r of Inl _ \<Rightarrow> Inl what | Inr x \<Rightarrow> Inr x)"

definition serverless_mode :: "(string \<Rightarrow> string option) \<Rightarrow> bool" where
  "serverless_mode env \<longleftrightarrow>
     (case env ''RIVETKIT_RUNTIME_MODE'' of None \<Rightarrow> False | Some v \<Rightarrow> eq_ignore_ascii_case v ''serverless'')"

text \<open>What the process serves with, once it listens.\<close>

record startup =
  su_serve_config :: serve_config
  su_client :: client_settings
  su_streams_config :: config
  su_actor :: "string \<times> actor_config"
  su_serverless :: bool
  su_address :: string

definition start_up ::
  "'u main_ext \<Rightarrow> args \<Rightarrow> (string \<Rightarrow> string option) \<Rightarrow> serve_config \<Rightarrow> string option \<Rightarrow> string result \<Rightarrow> startup result" where
  "start_up mx a env from_env checkout_inspector embedded =
     result_bind (server_port (ag_port a) (env ''PORT'') (env ''RIVET_PORT'')) (\<lambda>port.
     result_bind (normalize_serve_config (mx_url mx) from_env) (\<lambda>sc.
     result_bind (mx_client_new mx (client_config sc)) (\<lambda>_.
       let address = ag_host a @ '':'' @ show_nat port
       in result_bind (with_context ''parse --host/--port'' (mx_parse_address mx address)) (\<lambda>_.
          result_bind (mx_bind mx address) (\<lambda>_.
            Inr \<lparr>su_serve_config = sc, su_client = client_config sc,
                 su_streams_config = default_config\<lparr>cf_public_origin := env ''PUBLIC_ORIGIN''\<rparr>,
                 su_actor = register_with_inspector checkout_inspector embedded,
                 su_serverless = serverless_mode env, su_address = address\<rparr>)))))"

subsection \<open>Serving\<close>

text \<open>
  How serving ends: its result, whether the shutdown was announced, and whether each of the two tasks
  was over when \<open>main\<close> returned (dropping a handle does not end its task).
\<close>

record serving_end =
  se_result :: "unit result"
  se_cancelled :: bool
  se_actors_over :: bool
  se_server_over :: bool

text \<open>A joined task: what it has returned, or that it has died.\<close>

datatype joined = Returned "unit result" | Died

definition join_task :: "string \<Rightarrow> joined \<Rightarrow> unit result" where
  "join_task what j = (case j of Returned r \<Rightarrow> r | Died \<Rightarrow> Inl what)"

datatype first_event = ActorsEnded | ServerEnded | Interrupted

text \<open>\<open>actors_finished\<close> and \<open>server_finished\<close> are the answers of \<open>is_finished\<close> when \<open>main\<close> asks.\<close>

definition serve_tasks :: "first_event \<Rightarrow> bool \<Rightarrow> bool \<Rightarrow> joined \<Rightarrow> joined \<Rightarrow> serving_end" where
  "serve_tasks first actors_finished server_finished actors server =
     (let actors_over = (first = ActorsEnded \<or> actors_finished);
          server_over = (first = ServerEnded \<or> server_finished)
      in case (case first of
                 ActorsEnded \<Rightarrow> join_task ''actor server task'' actors
               | ServerEnded \<Rightarrow> join_task ''facade server task'' server
               | Interrupted \<Rightarrow> Inr ()) of
           Inl e \<Rightarrow> \<lparr>se_result = Inl e, se_cancelled = True, se_actors_over = actors_over, se_server_over = server_over\<rparr>
         | Inr _ \<Rightarrow>
             (case (if actors_over then Inr () else join_task ''actor server task'' actors) of
                Inl e \<Rightarrow> \<lparr>se_result = Inl e, se_cancelled = True, se_actors_over = True, se_server_over = server_over\<rparr>
              | Inr _ \<Rightarrow>
                  \<lparr>se_result = (if server_over then Inr () else join_task ''facade server task'' server),
                   se_cancelled = True, se_actors_over = True, se_server_over = True\<rparr>))"

text \<open>
  In serverless mode: the end of the facade server, or the interrupt (\<open>None\<close>). The second component
  says whether the runtime was shut down.
\<close>

definition serve_serverless :: "unit result \<Rightarrow> unit result option \<Rightarrow> unit result \<times> bool" where
  "serve_serverless runtime ended =
     (case runtime of
        Inl e \<Rightarrow> (Inl e, False)
      | Inr _ \<Rightarrow>
          (case ended of
             Some (Inl _) \<Rightarrow> (Inl ''facade server'', False)
           | Some (Inr _) \<Rightarrow> (Inr (), True)
           | None \<Rightarrow> (Inr (), True)))"

text \<open>The exit of the program.\<close>

definition main ::
  "'u main_ext \<Rightarrow> args \<Rightarrow> (string \<Rightarrow> string option) \<Rightarrow> serve_config \<Rightarrow> string option \<Rightarrow> string result
     \<Rightarrow> unit result option \<Rightarrow> first_event \<Rightarrow> bool \<Rightarrow> bool \<Rightarrow> joined \<Rightarrow> joined \<Rightarrow> unit result" where
  "main mx a env from_env checkout_inspector embedded ended first actors_finished server_finished actors server =
     result_bind (start_up mx a env from_env checkout_inspector embedded) (\<lambda>su.
       if su_serverless su then fst (serve_serverless (mx_into_serverless mx (su_serve_config su)) ended)
       else se_result (serve_tasks first actors_finished server_finished actors server))"

subsection \<open>Properties\<close>

text \<open>
  However serving ends, the program announces the shutdown; and if it ends well, both tasks are over:
  no request is cut off by the end of the process.
\<close>

lemma shutdown_announced: "se_cancelled (serve_tasks first af sf actors server)"
  by (simp add: serve_tasks_def Let_def split: sum.split)

theorem clean_exit_leaves_no_task:
  "se_result (serve_tasks first af sf actors server) = Inr () \<Longrightarrow>
     se_actors_over (serve_tasks first af sf actors server) \<and> se_server_over (serve_tasks first af sf actors server)"
  by (cases first; cases "join_task ''actor server task'' actors"; cases "join_task ''facade server task'' server";
      cases af; cases sf; simp add: serve_tasks_def)

text \<open>
  After an interrupt the first error of a task that is waited for is the result. An error of
  a task that is over before it is asked for is lost: this can be the facade server's whenever it ends
  while the actors are waited for.
\<close>

theorem interrupted_result:
  "se_result (serve_tasks Interrupted False False actors server)
     = result_bind (join_task ''actor server task'' actors) (\<lambda>_. join_task ''facade server task'' server)"
  "se_result (serve_tasks Interrupted False True (Returned (Inr ())) (Returned (Inl e))) = Inr ()"
  by (auto simp: serve_tasks_def join_task_def result_bind_def split: sum.split)

text \<open>
  A server that has started listens on the port that was chosen, and its client and its actors use the
  same configuration, with the credentials of the endpoint taken out of it.
\<close>

theorem started_configuration:
  assumes "start_up mx a env from_env ci em = Inr su"
  shows "su_client su = client_config (su_serve_config su)"
    and "normalize_serve_config (mx_url mx) from_env = Inr (su_serve_config su)"
    and "\<exists>port. server_port (ag_port a) (env ''PORT'') (env ''RIVET_PORT'') = Inr port
           \<and> su_address su = ag_host a @ '':'' @ show_nat port"
  using assms by (auto simp: start_up_def result_bind_Inr_iff Let_def)

end
