(* ===== verification/Witnesses.thy ===== *)
theory Witnesses
  imports Guarantees Wire Front Streaming Columns Startup
begin

text \<open>
  The properties with hypotheses, applied at the sample worlds of theory \<open>Samples\<close>, where the
  hypotheses hold.
\<close>

subsection \<open>The specification\<close>

lemma sample_uuids: "inj (new_v4 sample_ext)"
  by (rule inj_on_inverseI [where g = dec_val]) (simp add: sample_ext_def)


lemma same_generation: "generation (meta_of w2 ''/a'') = generation (meta_of w1 ''/a'')"
  by code_simp

lemma log_is_durable_witness: "prefix (db_messages (db_of w1 ''/a'')) (db_messages (db_of w2 ''/a''))"
  using log_is_durable [OF samples_reachable(2) serving_activity sample_uuids, of "''/a''"
      "meta_of w1 ''/a''" "''/a''" "producer_post ''0'' ''0'' ''hello''" "meta_of w2 ''/a''"]
    w1_live w2_live same_generation by (simp add: live_stream_def w2_def serve_def)

lemma generations_are_unique_witness: "generation (meta_of w3 ''/a'') \<noteq> generation (meta_of w3 ''/b'')"
  using generations_are_unique [OF samples_reachable(4) sample_uuids, of "''/a''" _ "''/b''"] w3_facts
  by (simp add: live_stream_def)

lemma w2_log: "map msg_data (db_messages (db_of w2 ''/a'')) = [''hello'']"
  by code_simp

lemma logs_are_well_typed_witness: "\<exists>x \<in> set (db_messages (db_of w2 ''/a'')). msg_data x \<noteq> []"
proof -
  obtain x where x: "x \<in> set (db_messages (db_of w2 ''/a''))"
    using w2_log by (cases "db_messages (db_of w2 ''/a'')") auto
  have "db_meta (db_of w2 ''/a'') = Some (meta_of w2 ''/a'')" using w2_live by (simp add: live_stream_def)
  from logs_are_well_typed [OF samples_reachable(3) this x] x show ?thesis by blast
qed

subsection \<open>Forks\<close>

definition w_fork :: world where "w_fork = serve ''/d'' (fork_put ''/c'') w_closed"
definition w_grown :: world where "w_grown = serve ''/d'' (text_post ''x'') w_fork"

lemma w_fork_reachable: "reachable sample_ext w_fork"
  by (simp add: w_fork_def closed_ttl_reachable reachable_serve)

lemma w_fork_facts:
  "db_meta (db_of w_fork ''/d'') \<noteq> None" "map msg_data (stitched_log 2 w_fork ''/d'') = [''bye'']"
  "map_option generation (db_meta (db_of w_fork ''/d'')) = map_option generation (db_meta (db_of w_grown ''/d''))"
  "regular_chain 2 w_grown ''/d''" "unbroken 2 w_grown ''/d''" "map msg_data (db_messages (db_of w_grown ''/d'')) = [''x'']"
  "map msg_data (db_messages (db_of w_fork ''/d'')) = []"
  by code_simp+

lemma fork_view_is_durable_witness: "map msg_data (stitched_log 2 w_grown ''/d'') = [''bye'', ''x'']"
proof -
  obtain m where m: "db_meta (db_of w_fork ''/d'') = Some m" using w_fork_facts(1) by auto
  obtain m' where m': "db_meta (db_of w_grown ''/d'') = Some m'" "generation m' = generation m"
    using w_fork_facts(3) m by (cases "db_meta (db_of w_grown ''/d'')") simp_all
  obtain new where "db_messages (db_of w_grown ''/d'') = db_messages (db_of w_fork ''/d'') @ new"
    "stitched_log 2 w_grown ''/d'' = stitched_log 2 w_fork ''/d'' @ new"
    using fork_view_is_durable [OF w_fork_reachable serving_activity sample_uuids m, of "''/d''" "text_post ''x''" m' 2]
      m' w_fork_facts(4,5) by (auto simp: w_grown_def serve_def)
  with w_fork_facts(2,6,7) show ?thesis by simp
qed

text \<open>
  What a source and its fork look like, as a predicate of the two databases, so that the
  evaluation computes each of them once.
\<close>

definition source_and_fork :: "db \<Rightarrow> db \<Rightarrow> bool" where
  "source_and_fork a b \<longleftrightarrow>
     map (\<lambda>(e, _). fork_edge_id (the (db_meta b)) = Some e \<and> e \<noteq> []) (db_fork_edges a) = [True]
     \<and> map_option (\<lambda>(q, off). q = ''/a'' \<and> canonical_offset off) (fork_point (the (db_meta b))) = Some True
     \<and> fork_source_gen (the (db_meta b)) = Some (generation (the (db_meta a)))
     \<and> canonical_offset (base_offset (the (db_meta a)))
     \<and> forked_from (the (db_meta b)) = Some ''/a'' \<and> \<not> soft_deleted (the (db_meta b))
     \<and> db_fork_edges b = [] \<and> db_gc_releases b = []
     \<and> forked_from (the (db_meta a)) = None \<and> db_gc_releases a = []"

lemma w3_evaluated: "source_and_fork (db_of w3 ''/a'') (db_of w3 ''/b'')"
  by code_simp

lemmas w3_fork = w3_evaluated [unfolded source_and_fork_def]

lemma fork_starts_within_source_witness:
  "\<exists>off. fork_point (meta_of w3 ''/b'') = Some (''/a'', off) \<and> offset_val off \<le> offset_val (current_offset (meta_of w3 ''/a''))"
proof -
  obtain off where off: "fork_point (meta_of w3 ''/b'') = Some (''/a'', off)" "canonical_offset off"
    using w3_fork by auto
  have m: "db_meta (db_of w3 ''/b'') = Some (meta_of w3 ''/b'')" "db_meta (db_of w3 ''/a'') = Some (meta_of w3 ''/a'')"
    using w3_facts by (simp_all add: live_stream_def)
  from fork_starts_within_source [OF samples_reachable(4) sample_uuids m(1) off m(2)] w3_fork off(1) show ?thesis by blast
qed

subsection \<open>Waking\<close>

abbreviation R0 :: rpc where "R0 \<equiv> rpc_at sample_ext 1 quiet 0"

definition posting_wait :: long_poll where
  "posting_wait = \<lparr>lp_meanwhile = and_then (attempt (handle_post sample_ext R0 ''/a'' (text_post ''hi''))) (\<lambda>_. ret ()),
     lp_aborted = False, lp_timer_first = False\<rparr>"

abbreviation awoken :: world where
  "awoken \<equiv> snd (handle_post sample_ext R0 ''/a'' (text_post ''hi'') (accessed w1 ''/a''))"

lemma waking_facts:
  "regular_chain (Suc 0) w1 ''/a''" "\<not> soft_deleted (meta_of w1 ''/a'')" "\<not> closed (meta_of w1 ''/a'')"
  "last_accessed_at (meta_of w1 ''/a'') \<le> w_clock w1"
  "public_header_text sample_ext (sample_request GET [] []) ''if-none-match'' = Inr None"
  "db_messages (db_of awoken ''/a'') \<noteq> db_messages (db_of w1 ''/a'')" "regular_chain (Suc 0) awoken ''/a''"
  by code_simp+

lemma long_poll_is_woken_witness:
  "\<exists>resp w3. read_once sample_ext 1 R0 quiet posting_wait quiet 0 ''actor'' ''/a'' (sample_request GET [] [])
     (Some ''now'') (Some ''long-poll'') None w1 = (Inr resp, w3) \<and> status resp = 200"
  using long_poll_is_woken [OF samples_reachable(2) w1_faults waking_facts(1) w1_live waking_facts(2-4) _ waking_facts(5)
      prod.collapse [symmetric] waking_facts(6,7), of "Some ''now''" posting_wait 0 "''actor''" None]
  by (auto simp: posting_wait_def)

subsection \<open>Streaming\<close>

definition live_turn :: sse_turn where
  "live_turn = \<lparr>turn_env = quiet, turn_random = 0, turn_client_gone = False, turn_lifetime_over = True,
     turn_wait = ret (), turn_abort = False\<rparr>"

definition sse_request :: request where
  "sse_request = \<lparr>req_method = GET, req_query = Some ''offset=-1&live=sse'', req_headers = [], req_body = []\<rparr>"

abbreviation events :: "reply result \<times> world" where
  "events \<equiv> on_fetch_response sample_ext 1 (rpc_at sample_ext 1 quiet 1) quiet sample_wait quiet [live_turn] 0 ''actor'' ''/d''
     sse_request w_fork"

lemma events_facts:
  "db_meta (db_of (snd events) ''/d'') \<noteq> None"
  "case fst events of Inr (Streaming hs cs) \<Rightarrow> length cs = 2 | _ \<Rightarrow> False"
  "regular_chain (Suc 1) (snd events) ''/d''" "unbroken (Suc 1) (snd events) ''/d''"
  "generation (meta_of (snd events) ''/d'') = generation (meta_of w_fork ''/d'')"
  "case get_checks sample_ext sse_request of Inr (Inr (StartSse off c)) \<Rightarrow> off = ''-1'' \<and> c = None | _ \<Rightarrow> False"
  by code_simp+

lemma sse_plan: "get_checks sample_ext sse_request = Inr (Inr (StartSse ''-1'' None))"
  using events_facts(6) by (auto split: sum.split_asm get_plan.split_asm)

lemma event_stream_delivers_log_witness:
  "\<exists>hs cs b64 js ss. fst events = Inr (Streaming hs cs) \<and> length cs = 2 \<and> streamed sample_ext None b64 js ss cs
     \<and> prefix (concat (map (rb_messages \<circ> snap_batch) ss))
         (map stored (asked None None (stitched_log 2 (snd events) ''/d'')))"
proof -
  obtain hs cs where cs: "events = (Inr (Streaming hs cs), snd events)" "length cs = 2"
    using events_facts(2) by (cases events; cases "fst events") (auto split: reply.splits)
  have turns: "free_turns sample_ext [live_turn]"
    by (simp add: free_turns_def live_turn_def activity.idle)
  have m: "db_meta (db_of (snd events) ''/d'') = Some (meta_of (snd events) ''/d'')"
    "db_meta (db_of w_fork ''/d'') = Some (meta_of w_fork ''/d'')"
    using events_facts(1) w_fork_facts(1) by simp_all
  have get: "req_method sse_request = GET" by (simp add: sse_request_def)
  have "fst events = Inr (Streaming hs cs)" using cs by (metis fst_conv)
  with event_stream_delivers_log [OF w_fork_reachable sample_uuids turns get sse_plan m(2) disjI1 cs(1) m(1)
      events_facts(5,3,4)] cs(2)
  show ?thesis by (auto simp: norm_after_def numeral_2_eq_2)
qed

subsection \<open>Appending\<close>

abbreviation posted :: "string \<Rightarrow> request \<Rightarrow> world \<Rightarrow> resp result \<times> world" where
  "posted p req w \<equiv> handle_post sample_ext R1 p req w"

lemma ab: "''/b'' \<noteq> ''/a''" by simp

lemma post_appends_at_most_once_witness:
  "db_of (snd (posted ''/a'' (text_post ''x'') w1)) ''/b'' = db_of w1 ''/b''"
  by (rule post_appends_at_most_once [OF samples_reachable(2) w1_live prod.collapse [symmetric], THEN conjunct1,
        rule_format, OF ab])

lemma post_closed_stream_unchanged_witness:
  "db_messages (db_of (snd (posted ''/c'' (text_post ''x'') w_closed)) ''/c'') = db_messages (db_of w_closed ''/c'')"
  using post_closed_stream_unchanged [OF _ _ prod.collapse [symmetric], of sample_ext w_closed "''/c''" _ R1 "text_post ''x''"]
    w_closed_facts by blast

definition sample_ph :: producer_headers where
  "sample_ph = \<lparr>ph_id = ''p'', ph_epoch = 0, ph_seq = 0\<rparr>"

definition sample_post_headers :: "producer_headers option \<Rightarrow> post_headers" where
  "sample_post_headers ph = \<lparr>pr_close = False, pr_producer = ph, pr_content_type = ''text/plain'', pr_seq = None\<rparr>"

lemma sample_headers_of:
  "post_headers_of sample_ext (producer_post ''0'' ''0'' ''hello'') (sample_post_headers (Some sample_ph))"
  "post_headers_of sample_ext (text_post ''x'') (sample_post_headers None)"
  by code_simp+

abbreviation retried :: world where "retried \<equiv> snd (posted ''/a'' (producer_post ''0'' ''0'' ''hello'') w1)"

lemma retried_facts:
  "live_stream sample_ext retried ''/a'' (meta_of retried ''/a'') \<and> w_faults retried = [] \<and> w_clock retried = 1000
    \<and> w_clock w1 = 1000 \<and> length (db_messages (db_of retried ''/a'')) \<noteq> length (db_messages (db_of w1 ''/a''))"
  by code_simp


lemma w1_meta:
  "content_type (meta_of w1 ''/a'') = Some ''text/plain'' \<and> normalize_content_type (Some ''text/plain'') \<noteq> json_type
   \<and> \<not> closed (meta_of w1 ''/a'') \<and> \<not> soft_deleted (meta_of w1 ''/a'')
   \<and> current_offset (meta_of w1 ''/a'') = ZERO_OFFSET \<and> Store.last_seq (meta_of w1 ''/a'') = None"
  by code_simp

lemma post_accepts_witness:
  "\<exists>w' resp off. posted ''/a'' (text_post ''x'') w1 = (Inr resp, w')
     \<and> db_messages (db_of w' ''/a'') = db_messages (db_of w1 ''/a'') @ [\<lparr>msg_offset = off, msg_data = ''x'', msg_ts = w_clock w1\<rparr>]"
proof -
  have "\<exists>w' resp off. posted ''/a'' (text_post ''x'') w1 = (Inr resp, w')
     \<and> off = offset_text (offset_val (current_offset (meta_of w1 ''/a'')) + 5 + length ''x'')
     \<and> db_messages (db_of w' ''/a'')
         = db_messages (db_of w1 ''/a'') @ [\<lparr>msg_offset = off, msg_data = ''x'', msg_ts = w_clock w1\<rparr>]
     \<and> status resp = (if pr_producer (sample_post_headers None) = None then 204 else 200)
     \<and> headers resp STREAM_OFFSET = Some off"
    by (rule post_accepts [OF samples_reachable(2) w1_live w1_faults sample_headers_of(2), where accepted = None])
      (use w1_meta in \<open>simp_all add: sample_post_headers_def post_payload_def text_post_def sample_request_def check_producer_def seq_conflict_def u64_max_def\<close>)
  then show ?thesis by blast
qed
subsection \<open>Creating\<close>

lemma checked_Inr: "(case x of Inl _ \<Rightarrow> False | Inr y \<Rightarrow> (case y of Inl _ \<Rightarrow> False | Inr v \<Rightarrow> v = a)) \<Longrightarrow> x = Inr (Inr a)"
  by (auto split: sum.splits)

definition sample_put_options :: put_options where
  "sample_put_options = \<lparr>po_forked_from = None, po_fork_offset = None, po_fork_sub_offset = None,
     po_content_type = Some ''text/plain'', po_ttl_seconds = None, po_expires_at = None, po_closed = False\<rparr>"

lemma text_put_checks: "put_checks sample_ext text_put = Inr (Inr sample_put_options)"
  by (rule checked_Inr) code_simp

lemma sample_put_plain [simp]:
  "po_forked_from sample_put_options = None" "po_ttl_seconds sample_put_options = None"
  "po_expires_at sample_put_options = None"
  by (simp_all add: sample_put_options_def)

abbreviation put_result :: "resp result \<times> world" where
  "put_result \<equiv> handle_put sample_ext R1 ''/a'' text_put w0"

lemma put_result_facts:
  "(case fst put_result of Inl _ \<Rightarrow> False | Inr resp \<Rightarrow> status resp = 201)
   \<and> live_stream sample_ext (snd put_result) ''/a'' (meta_of (snd put_result) ''/a'')"
  by code_simp

lemma put_result_created:
  obtains resp where "handle_put sample_ext R1 ''/a'' text_put w0 = (Inr resp, snd put_result)" "status resp = 201"
  using put_result_facts by (cases put_result; cases "fst put_result") auto



lemma put_inherited_lifetime_conflicts_witness:
  "\<exists>resp. handle_put sample_ext R1 ''/t'' text_put w_ttl = (Inr resp, w_ttl) \<and> status resp = 409"
  using put_inherited_lifetime_conflicts [of sample_ext w_ttl "''/t''" "meta_of w_ttl ''/t''" text_put, OF _ text_put_checks] w_ttl_facts
  by (simp add: sample_put_options_def)

subsection \<open>Reading\<close>

lemma read_range_returns_page_witness:
  "\<exists>b. handle_read_range 0 (rpc_at sample_ext 0 quiet 1) quiet ''/b''
      \<lparr>rr_after_offset = None, rr_cap_offset = MAX_OFFSET_CAP, rr_limit = None, rr_byte_budget = None\<rparr> w3 = (Inr b, w3)"
  using read_range_returns_page [OF samples_reachable(4), of 1 "''/b''" 1 0] w3_facts
  by (simp add: numeral_2_eq_2) blast

lemma stitched_short: "length (asked (norm_after None) (Some MAX_OFFSET_CAP) (stitched_log 2 w3 ''/b'')) < 2"
proof -
  have "length (stitched_log 2 w3 ''/b'') = 1" using w3_facts by (metis length_map length_Cons list.size(3) One_nat_def)
  moreover have "length (asked a c xs) \<le> length xs" for a c xs by (simp add: asked_def)
  ultimately show ?thesis by (metis le_imp_less_Suc numeral_2_eq_2 One_nat_def)
qed

lemma paging_is_complete_witness:
  "drain 2 (\<lambda>after. handle_read_range 0 (rpc_at sample_ext 0 quiet 1) quiet ''/b''
       \<lparr>rr_after_offset = after, rr_cap_offset = MAX_OFFSET_CAP, rr_limit = None, rr_byte_budget = None\<rparr>) None w3
   = (Inr (map stored (asked (norm_after None) (Some MAX_OFFSET_CAP) (stitched_log 2 w3 ''/b''))), w3)"
  using paging_is_complete [OF samples_reachable(4), of 1 "''/b''" None MAX_OFFSET_CAP 2 0] w3_facts stitched_short
  by (simp add: numeral_2_eq_2)

lemma next_offset_continues_witness:
  "\<exists>s w'. take_snapshot sample_ext 0 (rpc_at sample_ext 0 quiet 1) quiet ''/b'' None (Some (generation (meta_of w3 ''/b''))) w3
     = (Inr (Some s), w')"
  using next_offset_continues [OF samples_reachable(4), of 1 "''/b''" "meta_of w3 ''/b''" 0 None] w3_facts
  by (simp add: numeral_2_eq_2) blast

subsection \<open>Invariants and retention\<close>

lemma reachable_log_witness: "\<exists>base. framed base (db_messages (db_of w2 ''/a''))"
  using reachable_log [OF samples_reachable(3), of "''/a''" "meta_of w2 ''/a''"] w2_live by (auto simp: live_stream_def)



lemma delete_keeps_forked_stream_witness:
  "db_messages (db_of (snd (handle_delete sample_ext R1 ''/a'' w3)) ''/a'') = db_messages (db_of w3 ''/a'')"
  using delete_keeps_forked_stream [OF _ _ prod.collapse [symmetric], of sample_ext w3 "''/a''" "meta_of w3 ''/a''" R1] w3_facts
  by blast

text \<open>The source marked deleted while its fork is there, which keeps it; then the fork is deleted.\<close>

definition w_orphan :: world where "w_orphan = snd (commit ''/a'' (set_soft_deleted (db_of w3 ''/a'')) w3)"

lemma w_orphan_dbs:
  "db_of w_orphan ''/b'' = db_of w3 ''/b''" "db_of w_orphan ''/a'' = set_soft_deleted (db_of w3 ''/a'')"
  "w_faults w_orphan = w_faults w3" "w_clock w_orphan = w_clock w3"
  by (simp_all add: w_orphan_def commit_def update_actor_def)


abbreviation sample_edge :: "string \<times> string" where "sample_edge \<equiv> hd (db_fork_edges (db_of w3 ''/a''))"


lemma sample_edge_named: "fst sample_edge \<noteq> []"
  using w3_fork by (auto simp: map_eq_Cons_conv)

lemma sample_edge_recorded: "get_fork_edge_tx (db_of w3 ''/a'') (fst sample_edge) = Some (snd sample_edge)"
  using w3_facts by (auto simp: get_fork_edge_tx_def neq_Nil_conv)

lemma w2_edge_free: "get_fork_edge_tx (db_of w2 ''/a'') ''e'' = None \<and> soft_deleted (meta_of w2 ''/a'') = False"
  by code_simp

definition sample_acquire :: "string \<Rightarrow> acquire_action" where
  "sample_acquire e = \<lparr>fa_edge_id = e, fa_fork_offset = None, fa_content_type_provided = None\<rparr>"

lemma acquire_recorded_edge_witness:
  "fst (fork_acquire sample_ext R1 ''/a'' (sample_acquire (fst sample_edge)) w3)
     = Inr (far_success (snd sample_edge) (meta_of w3 ''/a''))"
  using acquire_recorded_edge [of w3 "''/a''" "meta_of w3 ''/a''" "sample_acquire (fst sample_edge)" "snd sample_edge" sample_ext R1]
    w3_facts sample_edge_recorded sample_edge_named by (simp add: sample_acquire_def live_stream_def)

abbreviation acquired :: "fork_acquire_result result \<times> world" where
  "acquired \<equiv> fork_acquire sample_ext R1 ''/a'' (sample_acquire ''e'') w2"

lemma acquired_facts: "case fst acquired of Inl _ \<Rightarrow> False | Inr res \<Rightarrow> far_ok res"
  by code_simp

lemma acquire_records_edge_witness:
  "get_fork_edge_tx (db_of (snd acquired) ''/a'') ''e'' \<noteq> None"
proof -
  obtain res where res: "acquired = (Inr res, snd acquired)" "far_ok res"
    using acquired_facts by (cases acquired; cases "fst acquired") auto
  from acquire_records_edge [OF w2_live res] w2_edge_free show ?thesis by (auto simp: sample_acquire_def)
qed

lemma release_keeps_held_stream_witness:
  "db_messages (db_of (snd (fork_release R1 ''/a'' \<lparr>fr_edge_id = ''e'', fr_source_generation = None\<rparr> w2)) ''/a'')
     = db_messages (db_of w2 ''/a'')"
  using release_keeps_held_stream [OF _ _ prod.collapse [symmetric], of w2 "''/a''" "meta_of w2 ''/a''"
      "\<lparr>fr_edge_id = ''e'', fr_source_generation = None\<rparr>" R1] w2_live w2_edge_free
  by (simp add: live_stream_def)

subsection \<open>The wire and the public face\<close>

lemma advance_offset_moves_forward_witness: "\<exists>t. advance_offset ZERO_OFFSET 3 = Inr t \<and> ZERO_OFFSET < t"
proof -
  have "canonical_offset ZERO_OFFSET" by code_simp
  from advance_offset_moves_forward [OF this, of 3] show ?thesis by (auto simp del: ZERO_OFFSET_eq)
qed

lemma json_read_is_array_of_values_witness:
  "format_json_messages [''x,x,'', ''x,''] = ''[x,x,x]''"
proof -
  have "format_json_messages [''x,x,'', ''x,'']
    = ''['' @ join_char (CHR '','') (map (json_to_writer sample_ext)
         (concat (map (json_values sample_ext \<circ> fst) [(''[xx]'', False), (''{}'', True)]))) @ '']''"
    by (rule json_read_is_array_of_values) code_simp
  then show ?thesis by code_simp
qed

lemma sse_data_roundtrip_witness: "decode_sse_data (encode_sse_data ''ab'') = ''ab''"
  by (rule sse_data_roundtrip) code_simp+

lemma cursor_progresses_witness: "\<exists>n. response_cursor CURSOR_EPOCH_MS 7 (Some ''12'') = show_int n \<and> 12 < n"
proof -
  from cursor_progresses [OF order_refl, of 7 "Some ''12''"] obtain n where
    n: "response_cursor CURSOR_EPOCH_MS 7 (Some ''12'') = show_int n"
    and "''12'' \<noteq> [] \<longrightarrow> length ''12'' \<le> 15 \<longrightarrow> all_digits ''12'' \<longrightarrow> int (dec_val ''12'') < n"
    by blast
  moreover have "all_digits ''12'' \<and> dec_val ''12'' = 12" by code_simp
  ultimately show ?thesis by auto
qed

definition sample_facade_ext :: facade_ext where
  "sample_facade_ext = \<lparr>url_join = Inr, sha256_hex = (\<lambda>b. b), header_value_from_str = Inr, header_value_to_str = Some\<rparr>"

lemma sample_codecs:
  "b64url_decode sample_ext (b64url_encode sample_ext b) = Some b"
  "header_value_from_str sample_facade_ext (b64url_encode sample_ext b) = Inr (b64url_encode sample_ext b)"
  by (simp_all add: sample_ext_def sample_facade_ext_def)

lemma bridge_roundtrip_witness:
  "\<exists>bs. bridge_request_headers sample_ext sample_facade_ext [(STREAM_SEQ, ''7'')] = Inr bs
    \<and> public_header_bytes sample_ext \<lparr>req_method = POST, req_query = None, req_headers = bs, req_body = ''x''\<rparr> STREAM_SEQ
        = Inr (header_get [(STREAM_SEQ, ''7'')] STREAM_SEQ)"
  by (rule bridge_roundtrip [OF sample_codecs]) (simp add: BRIDGED_REQUEST_HEADERS_def)

lemma bridge_isolates_witness:
  "\<exists>name. name \<in> set BRIDGED_REQUEST_HEADERS \<and> INTERNAL_HEADER_PREFIX @ STREAM_SEQ = INTERNAL_HEADER_PREFIX @ name"
proof -
  have "bridge_request_headers sample_ext sample_facade_ext [(STREAM_SEQ, ''7'')] = Inr [(INTERNAL_HEADER_PREFIX @ STREAM_SEQ, ''7'')]"
    by code_simp
  from bridge_isolates [OF this, of "INTERNAL_HEADER_PREFIX @ STREAM_SEQ" "''7''"] show ?thesis by auto
qed

lemma actor_key_distinguishes_witness:
  "stream_actor_key sample_facade_ext ''t'' ''/a'' \<noteq> stream_actor_key sample_facade_ext ''t'' ''/b''"
  using actor_key_distinguishes [of sample_facade_ext "''t''" "''t''" "''/a''" "''/b''"]
  by (simp add: sample_facade_ext_def inj_on_def)

lemma producer_memory_exact_witness:
  "fst (get_producer_state (db_of w2 ''/a'') ''p'' 0) \<noteq> None"
proof -
  have "case map_of (db_producers (db_of w2 ''/a'')) ''p'' of None \<Rightarrow> False | Some st \<Rightarrow> 0 \<le> ps_last_updated st"
    by code_simp
  with producer_memory_exact [OF reachable_wf_db [OF samples_reachable(3)], of "''/a''" "''p''" 0] show ?thesis
    by (auto split: option.splits)
qed


definition two_rows :: db where
  "two_rows = empty_db\<lparr>db_messages := [\<lparr>msg_offset = ''1'', msg_data = ''x'', msg_ts = 0\<rparr>, \<lparr>msg_offset = ''2'', msg_data = ''y'', msg_ts = 0\<rparr>]\<rparr>"

lemma range_read_is_atomic_witness:
  "read_messages_range (two_rows\<lparr>db_messages := take 1 (db_messages two_rows)\<rparr>) two_rows None None 9 9 True
     = read_messages_range (two_rows\<lparr>db_messages := take 1 (db_messages two_rows)\<rparr>)
         (two_rows\<lparr>db_messages := take 1 (db_messages two_rows)\<rparr>) None None 9 9 True"
  by (rule range_read_is_atomic [where appended = "drop 1 (db_messages two_rows)"])
    (simp_all add: two_rows_def sorted_db_def MAX_READ_ROWS_def)

abbreviation closed_snapshot :: "read_snapshot option result \<times> world" where
  "closed_snapshot \<equiv> take_snapshot sample_ext 0 (rpc_at sample_ext 0 quiet 0) quiet ''/c'' None
     (Some (generation (meta_of w_closed ''/c''))) w_closed"

lemma closed_snapshot_facts:
  "case fst closed_snapshot of Inl _ \<Rightarrow> False | Inr so \<Rightarrow> (case so of None \<Rightarrow> False | Some s \<Rightarrow>
     (case build_read_response sample_ext 1000 0 ''actor'' text_put None None None s of Inl _ \<Rightarrow> False
      | Inr resp \<Rightarrow> headers resp STREAM_CLOSED \<noteq> None))"
  by code_simp

lemma closed_response_is_complete_witness: "closed (meta_of w_closed ''/c'')"
proof -
  obtain s where s: "closed_snapshot = (Inr (Some s), snd closed_snapshot)"
    and "case build_read_response sample_ext 1000 0 ''actor'' text_put None None None s of Inl _ \<Rightarrow> False
      | Inr resp \<Rightarrow> headers resp STREAM_CLOSED \<noteq> None"
    using closed_snapshot_facts by (cases closed_snapshot; cases "fst closed_snapshot") (auto split: option.splits)
  then obtain resp where r: "build_read_response sample_ext 1000 0 ''actor'' text_put None None None s = Inr resp"
    "headers resp STREAM_CLOSED \<noteq> None" by (auto split: sum.splits)
  have facts: "w_faults w_closed = []" "regular_chain (Suc 0) w_closed ''/c''"
    "live_stream sample_ext w_closed ''/c'' (meta_of w_closed ''/c'')" using w_closed_facts by simp_all
  show ?thesis
    by (rule closed_response_is_complete [OF closed_ttl_reachable(1) facts s r, THEN conjunct1])
qed

end
