(* ===== verification/Spec2Isabelle.thy ===== *)
theory Spec2Isabelle
  imports Witnesses
begin

text \<open>
  A verification development for the durable-streams server (the crate under \<open>src/src\<close>): append-only
  streams over HTTP, one RivetKit actor per stream, each with its own SQLite database.

  \<^bold>\<open>The program and the theories.\<close> A public request enters \<open>facade.rs\<close>, which bounds its body, hashes
  tenant and path to the key of an actor, carries an allow-list of headers over in encoded form and
  forwards it. The actor dispatches on the method (\<open>actor.rs\<close>): PUT and POST (\<open>actor/write.rs\<close>), GET
  (\<open>actor/read.rs\<close>), HEAD and DELETE (\<open>actor/lifecycle.rs\<close>). A stream may fork another one
  (\<open>actor/fork.rs\<close>): it records an edge at its source, reads the source's messages up to its fork
  offset, and hands the edge back when it goes. Maintenance (\<open>actor/maintenance.rs\<close>) finishes what
  failures have interrupted. All of them work on the tables of \<open>store.rs\<close> and the formats of
  \<open>protocol.rs\<close>.

  \<^item> \<open>Prelude\<close>, \<open>Text\<close>: results as sums (\<open>Inl\<close> is the error), saturating and checked integers, and the
    operations of Rust's standard library on strings and bytes.
  \<^item> \<open>Protocol\<close>, \<open>Offsets\<close>: \<open>protocol.rs\<close>; offsets as texts and the numbers they stand for.
  \<^item> \<open>Store\<close>, \<open>Log\<close>: \<open>store.rs\<close>; the tables of a stream as the record \<open>db\<close>, a statement as a function on it,
    and the message log they keep.
  \<^item> \<open>Producer\<close>: \<open>actor/producer.rs\<close>.
  \<^item> \<open>Actor\<close>: the world of actors, actions on it, and what can fail.
  \<^item> \<open>Lifecycle\<close>: \<open>actor/lifecycle.rs\<close>, \<open>actor/maintenance.rs\<close> and the source's side of \<open>actor/fork.rs\<close>.
  \<^item> \<open>Fork\<close>, \<open>Write\<close>, \<open>Read\<close>: \<open>create_fork\<close>, \<open>actor/write.rs\<close>, \<open>actor/read.rs\<close> and the dispatch.
  \<^item> \<open>Network\<close>: the actors' calls of one another, answered by the handlers.
  \<^item> \<open>Columns\<close>: the rows and columns of \<open>store.rs\<close>, between the record of a stream and SQLite.
  \<^item> \<open>Facade\<close>: \<open>facade.rs\<close>. \<open>Serverless\<close>: \<open>serverless_http.rs\<close>. \<open>Hosting\<close>: the creation of actors and the
    address of a fork's source, \<open>lib.rs\<close> and the configuration in \<open>main.rs\<close>. \<open>Startup\<close>: the rest of \<open>main.rs\<close>.
  \<^item> \<open>Keeping\<close>: what it takes of an invariant of the world that a handler keeps it, as locales: \<open>keeper\<close>
    (effects other than commits), \<open>recorder\<close> (and the transactions that may be committed), \<open>reader\<close> (the
    handlers that read, proved once for all invariants).
  \<^item> \<open>Invariant\<close>, \<open>Preservation\<close>, \<open>System\<close>: the well-formedness of every stream's tables, that every
    handler keeps it, and the worlds the system can reach.
  \<^item> \<open>Transactions\<close>, \<open>History\<close>, \<open>Specification\<close>: what can happen to a stream as a list of guarded
    transactions, that every activity is a run of them, and the abstract stream they implement: an
    append-only log with a generation, an origin (the fork point), a content type that says what it
    admits, a seal, a deletion mark and holders. Durability, well-typed logs and the uniqueness of
    generations follow from it.
  \<^item> \<open>Inheritance\<close>: forks across streams. A fork starts within the log of its source, and the part it
    shares with its sources never changes while they are the streams that were forked.
  \<^item> \<open>Appending\<close>, \<open>Creating\<close>, \<open>Retention\<close>, \<open>Reading\<close>, \<open>Snapshots\<close>, \<open>Waking\<close>, \<open>Streaming\<close>, \<open>Wire\<close>,
    \<open>Front\<close>, \<open>Guarantees\<close>, \<open>Columns\<close>, \<open>Serverless\<close>: the other properties. All are numbered \<open>C1\<close>, \<open>C2\<close> and so on where they stand.
  \<^item> \<open>Waking\<close>, \<open>Streaming\<close>: live reads. A long poll that waits is woken by an append, and whatever goes
    on between the turns of an event stream, its frames carry the log in order, also that of a fork.
  \<^item> \<open>Samples\<close>, \<open>Witnesses\<close>: concrete worlds, and the properties applied to them.

  \<^bold>\<open>State.\<close> A \<open>world\<close> maps paths to actors: the committed database, the change counter that wakes
  readers, and the scheduled events. (An actor's key is a hash of tenant and path, see
  \<open>actor_key_distinguishes\<close>; the model is of one tenant, where the path names the actor.) A
  transaction is a database value that a commit stores; an action is a function from a world to a
  result and a world, and \<open>?\<close> in the source is \<open>and_then\<close>.

  \<^bold>\<open>Failures.\<close> Starting a transaction, scheduling an event, taking a permit and calling another actor
  consume an entry of \<open>w_faults\<close> and fail as it says; a call may also take effect and lose its reply.
  A transaction that cannot complete has no effect, so its failure at any statement is its failure
  to start. A process that stops is a fault that lets nothing follow it: since every prefix of a
  handler's commits is produced by some list of faults, the invariants hold at every such point.

  \<^bold>\<open>Concurrency.\<close> Handlers that write hold the actor's lock and run one after the other; the calls they
  make of other actors run inside them. Reads hold no lock: other activity runs at each of their
  \<open>await\<close> points, as the record \<open>read_env\<close> says, and may be anything the system can do
  (\<open>activity\<close> in theory \<open>System\<close>). The clock does not advance within a handler except there.

  \<^bold>\<open>Bounds.\<close> \<open>read_stitched\<close> restarts when the stream is replaced under it; the number of restarts is a
  parameter, of which only a replacement takes one, and reads in a world at rest need none.
  \<open>rpc_at\<close> answers calls to a depth; a depth as great as the chain of forks is long suffices for
  reads (\<open>regular_chain\<close>). The text order of offsets is the order of their numbers below \<open>10^16\<close>, as
  the theorems that need it say. A live read is modelled over any finite number of turns.

  \<^bold>\<open>Parameters.\<close> \<open>ext\<close>: JSON, base64, RFC 3339, form decoding, UUIDs. \<open>facade_ext\<close>, \<open>client\<close>: the URL
  parser, SHA-256, HTTP header values, the actor client. What a theorem needs of them is among its
  hypotheses. \<open>Response::from_parts\<close> of the host is taken to build the response it is given: all
  header values the program passes are digits, validated texts or constants. SQLite is modelled
  as far as the statements of \<open>store.rs\<close> use it.

  \<^bold>\<open>Not modelled.\<close> Logging, the cancellation of a serverless request whose body is dropped, the graceful
  shutdown inside the HTTP server library, and the inspector's web interface: they hold none of the
  streams' logic. The streaming of response bodies is modelled by their contents.
\<close>

end
